theory Spec2Isabelle
  imports Main "HOL-Library.AList" "HOL-Library.Sublist"
begin

section \<open>Strings\<close>

text \<open>
  A JavaScript string is a sequence of UTF-16 code units. A \<^typ>\<open>char\<close> is a code unit
  below U+0100, so the strings of the model are the JavaScript strings all of whose code
  units are below U+0100 (Latin-1), and \<^verbatim>\<open>length\<close>, \<^verbatim>\<open>includes\<close> and \<^verbatim>\<open>===\<close> are those of
  lists.

  \<^verbatim>\<open>toLowerCase\<close> maps code unit by code unit on this range: to the letters \<^verbatim>\<open>A\<close> to
  \<^verbatim>\<open>Z\<close>, U+00C0 to U+00D6 and U+00D8 to U+00DE it adds 32, and it keeps every other code
  unit (U+00D7 is the multiplication sign; U+00B5, U+00DF and U+00FF are lower-case
  already).
\<close>

definition lowerChar :: "char \<Rightarrow> char" where
  "lowerChar c =
     (let n = (of_char c :: nat) in
      if (65 \<le> n \<and> n \<le> 90) \<or> (192 \<le> n \<and> n \<le> 214) \<or> (216 \<le> n \<and> n \<le> 222)
      then char_of (n + 32) else c)"

definition toLowerCase :: "string \<Rightarrow> string" where
  "toLowerCase s = map lowerChar s"

text \<open>\<^verbatim>\<open>s.includes(t)\<close> is the search for a contiguous occurrence.\<close>

fun strIncludes :: "string \<Rightarrow> string \<Rightarrow> bool" where
  "strIncludes [] t = (t = [])"
| "strIncludes (c # cs) t = (prefix t (c # cs) \<or> strIncludes cs t)"

text \<open>
  The white space of \<^verbatim>\<open>trim()\<close> and of the class \<^verbatim>\<open>\s\<close>: on this range the tabulator,
  line feed, vertical tabulator, form feed, carriage return, the blank and the no-break
  space U+00A0.
\<close>

definition isSpace :: "char \<Rightarrow> bool" where
  "isSpace c =
     (c \<in> set [CHR 0x09, CHR 0x0A, CHR 0x0B, CHR 0x0C, CHR 0x0D, CHR 0x20, CHR 0xA0])"

definition trim :: "string \<Rightarrow> string" where
  "trim s = rev (dropWhile isSpace (rev (dropWhile isSpace s)))"

text \<open>\<^verbatim>\<open>s.replace(/\s+/g, ' ')\<close>: every maximal run of white space becomes one blank.\<close>

function collapseWs :: "string \<Rightarrow> string" where
  "collapseWs [] = []"
| "collapseWs (c # cs) =
     (if isSpace c then CHR '' '' # collapseWs (dropWhile isSpace cs) else c # collapseWs cs)"
  by pat_completeness auto
termination
  by (relation "measure length") (auto simp: length_dropWhile_le le_imp_less_Suc)

definition isDigit :: "char \<Rightarrow> bool" where
  "isDigit c = (c \<in> set ''0123456789'')"

text \<open>The class \<^verbatim>\<open>\w\<close> of a regular expression.\<close>

definition isWord :: "char \<Rightarrow> bool" where
  "isWord c =
     (c \<in> set ''abcdefghijklmnopqrstuvwxyzABCDEFGHIJKLMNOPQRSTUVWXYZ0123456789_'')"

definition digitVal :: "char \<Rightarrow> nat" where
  "digitVal c = (case map_of (zip ''0123456789'' [0, 1, 2, 3, 4, 5, 6, 7, 8, 9]) c of
                   Some d \<Rightarrow> d | None \<Rightarrow> 0)"

text \<open>\<^verbatim>\<open>parseInt\<close> on a string of decimal digits.\<close>

definition parseInt :: "string \<Rightarrow> nat" where
  "parseInt ds = foldl (\<lambda>n c. 10 * n + digitVal c) 0 ds"

text \<open>The decimal numeral of a number, as a template literal writes it.\<close>

definition digitChar :: "nat \<Rightarrow> char" where
  "digitChar d = ''0123456789'' ! d"

function showNat :: "nat \<Rightarrow> string" where
  "showNat n = (if n < 10 then [digitChar n] else showNat (n div 10) @ [digitChar (n mod 10)])"
  by pat_completeness auto
termination
  by (relation "measure id") auto

declare showNat.simps [simp del]

text \<open>\<^verbatim>\<open>s.split(d)\<close> for a one-character separator.\<close>

fun splitOn :: "char \<Rightarrow> string \<Rightarrow> string list" where
  "splitOn d [] = [[]]"
| "splitOn d (c # cs) =
     (if c = d then [] # splitOn d cs
      else (case splitOn d cs of w # ws \<Rightarrow> (c # w) # ws | [] \<Rightarrow> [[c]]))"

text \<open>\<^verbatim>\<open>a || b\<close> on strings: the empty string is falsy.\<close>

definition orElse :: "string \<Rightarrow> string \<Rightarrow> string" where
  "orElse a b = (if a \<noteq> [] then a else b)"

text \<open>\<^verbatim>\<open>a || ''\<close> for an attribute that may be \<^verbatim>\<open>null\<close>.\<close>

definition attrOrEmpty :: "string option \<Rightarrow> string" where
  "attrOrEmpty a = (case a of None \<Rightarrow> [] | Some s \<Rightarrow> s)"

section \<open>The form tracker (form-tracker.ts)\<close>

text \<open>
  \<^verbatim>\<open>FieldFillRecord\<close>. The \<^verbatim>\<open>timestamp\<close> field holds the wall-clock time of the call and
  is read by nothing; it is left out.
\<close>

record FieldFillRecord =
  fr_selector :: string
  fr_label :: string
  fr_value :: string
  fr_success :: bool
  fr_module :: string

record FailureInfo =
  fi_label :: string
  fi_reason :: string

text \<open>
  The three private members of \<^verbatim>\<open>FormTracker\<close>. A JavaScript \<^verbatim>\<open>Map\<close> keeps its keys in
  insertion order and \<^verbatim>\<open>set\<close> on a present key replaces the value in place, which is
  \<^const>\<open>AList.update\<close> on an association list; \<^verbatim>\<open>has\<close> and \<^verbatim>\<open>size\<close> are
  \<^const>\<open>map_of\<close> and \<^const>\<open>length\<close>.
\<close>

record FormTracker =
  filledFields :: "(string \<times> FieldFillRecord) list"
  failedFields :: "(string \<times> FailureInfo) list"
  attemptedSelectors :: "string set"

definition newFormTracker :: FormTracker where
  "newFormTracker = \<lparr> filledFields = [], failedFields = [], attemptedSelectors = {} \<rparr>"

definition isFieldFilled :: "FormTracker \<Rightarrow> string \<Rightarrow> bool" where
  "isFieldFilled t sel = (map_of (filledFields t) sel \<noteq> None \<or> sel \<in> attemptedSelectors t)"

definition markAttempted :: "FormTracker \<Rightarrow> string \<Rightarrow> FormTracker" where
  "markAttempted t sel = t\<lparr> attemptedSelectors := insert sel (attemptedSelectors t) \<rparr>"

definition truncateValue :: "string \<Rightarrow> string" where
  "truncateValue v = (if length v > 50 then take 47 v @ ''...'' else v)"

definition recordFill :: "FormTracker \<Rightarrow> string \<Rightarrow> string \<Rightarrow> string \<Rightarrow> string \<Rightarrow> FormTracker" where
  "recordFill t sel lbl v mdl =
     (if map_of (filledFields t) sel \<noteq> None then t
      else t\<lparr> filledFields :=
               AList.update sel
                 \<lparr> fr_selector = sel, fr_label = orElse lbl sel, fr_value = truncateValue v,
                   fr_success = True, fr_module = mdl \<rparr>
                 (filledFields t) \<rparr>)"

definition recordFailure :: "FormTracker \<Rightarrow> string \<Rightarrow> string \<Rightarrow> string \<Rightarrow> string \<Rightarrow> FormTracker" where
  "recordFailure t sel lbl reason mdl =
     t\<lparr> failedFields :=
          AList.update sel \<lparr> fi_label = orElse lbl sel, fi_reason = reason \<rparr> (failedFields t) \<rparr>"

definition getFilledCount :: "FormTracker \<Rightarrow> nat" where
  "getFilledCount t = length (filledFields t)"

definition reset :: "FormTracker \<Rightarrow> FormTracker" where
  "reset t = t\<lparr> filledFields := [], failedFields := [], attemptedSelectors := {} \<rparr>"

section \<open>The page\<close>

text \<open>
  The browser page is the environment of the fill functions and of the agent. An element
  is the record of what the browser answers for it: the answers of \<^verbatim>\<open>isVisible()\<close> and
  \<^verbatim>\<open>inputValue()\<close>, whether \<^verbatim>\<open>click()\<close> throws, and for \<^verbatim>\<open>fill(v)\<close> and
  \<^verbatim>\<open>selectOption\<close> either the error thrown or the value the control holds afterwards
  (\<^const>\<open>Inl\<close> is a thrown error throughout); then the attributes the agent reads.
\<close>

record element =
  el_isVisible :: "string + bool"
  el_inputValue :: "string + string"
  el_click :: "string option"
  el_fill :: "string \<Rightarrow> string + string"
  el_selectLabel :: "string \<Rightarrow> string + string"
  el_selectValue :: "string \<Rightarrow> string + string"
  el_tagName :: string
  el_idAttr :: string
  el_role :: "string option"
  el_inputType :: "string option"
  el_classList :: "string list"
  el_textContent :: string
  el_ariaLabelAttr :: "string option"
  el_forAttr :: "string option"
  el_hasDisabledAttr :: bool
  el_ariaDisabled :: "string option"
  el_disabledProp :: bool
  el_inOverlay :: bool
  el_rect :: "nat \<times> nat"
  el_pointerEvents :: string
  el_opacity :: string

text \<open>Every call of the page API is logged; the log is how an interaction is observed.\<close>

datatype interaction =
    Query string
  | QueryAll string
  | IsVisible nat
  | InputValue nat
  | TagName nat
  | GetAttribute nat string
  | TextContent nat
  | Evaluate nat
  | Click nat
  | Fill nat string
  | SelectLabel nat string
  | SelectValue nat string
  | Scroll
  | Wait
  | Observe

text \<open>
  The page: what \<^verbatim>\<open>page.$(selector)\<close> answers for a selector (an error, \<^verbatim>\<open>null\<close>, or the
  handle of an element), the handles of the document's elements in document order, the
  elements behind the handles, and the log. Two selectors may answer with one handle. What a
  click does to the document is not modelled.

  The calls that read the document (\<^verbatim>\<open>evaluate\<close>, \<^verbatim>\<open>textContent()\<close>, \<^verbatim>\<open>getAttribute\<close>,
  \<^verbatim>\<open>page.$$\<close>) reject when the page has been closed or has navigated away: \<open>faults\<close>
  gives, for such a call, the error with which it rejects, if it does.
\<close>

record page =
  resolve :: "string \<Rightarrow> string + nat option"
  dom :: "nat list"
  store :: "nat \<Rightarrow> element"
  faults :: "interaction \<Rightarrow> string option"
  trace :: "interaction list"

text \<open>
  A computation on the page either throws or returns, and leaves the page changed:
  \<^verbatim>\<open>await\<close> in sequence is \<open>bnd\<close>, \<^verbatim>\<open>try { m } catch { h }\<close> is \<open>catchE\<close>.
\<close>

type_synonym 'a pageM = "page \<Rightarrow> (string + 'a) \<times> page"

definition ret :: "'a \<Rightarrow> 'a pageM" where
  "ret x p = (Inr x, p)"

definition bnd :: "'a pageM \<Rightarrow> ('a \<Rightarrow> 'b pageM) \<Rightarrow> 'b pageM" where
  "bnd m f p = (case m p of (Inl err, p') \<Rightarrow> (Inl err, p') | (Inr x, p') \<Rightarrow> f x p')"

definition catchE :: "'a pageM \<Rightarrow> (string \<Rightarrow> 'a pageM) \<Rightarrow> 'a pageM" where
  "catchE m h p = (case m p of (Inl err, p') \<Rightarrow> h err p' | (Inr x, p') \<Rightarrow> (Inr x, p'))"

definition logged :: "interaction \<Rightarrow> page \<Rightarrow> page" where
  "logged i p = p\<lparr> trace := trace p @ [i] \<rparr>"

definition pageQuery :: "string \<Rightarrow> (nat option) pageM" where
  "pageQuery sel p = (resolve p sel, logged (Query sel) p)"

text \<open>A call that reads the document: it rejects with its fault, or gives the answer.\<close>

definition answering :: "interaction \<Rightarrow> 'a \<Rightarrow> 'a pageM" where
  "answering i x p = ((case faults p i of Some err \<Rightarrow> Inl err | None \<Rightarrow> Inr x), logged i p)"

definition answers :: "page \<Rightarrow> bool" where
  "answers p = (\<forall>i. faults p i = None)"

definition elIsVisible :: "nat \<Rightarrow> bool pageM" where
  "elIsVisible h p = (el_isVisible (store p h), logged (IsVisible h) p)"

definition elInputValue :: "nat \<Rightarrow> string pageM" where
  "elInputValue h p = (el_inputValue (store p h), logged (InputValue h) p)"

text \<open>\<^verbatim>\<open>element.evaluate(el => el.tagName.toLowerCase())\<close>\<close>

definition elTagName :: "nat \<Rightarrow> string pageM" where
  "elTagName h p = answering (TagName h) (toLowerCase (el_tagName (store p h))) p"

definition elClick :: "nat \<Rightarrow> unit pageM" where
  "elClick h p =
     ((case el_click (store p h) of Some err \<Rightarrow> Inl err | None \<Rightarrow> Inr ()), logged (Click h) p)"

text \<open>An assignment that does not throw leaves the control with the value the element answers.\<close>

definition holds :: "nat \<Rightarrow> string \<Rightarrow> page \<Rightarrow> page" where
  "holds h v p = p\<lparr> store := (store p)(h := (store p h)\<lparr> el_inputValue := Inr v \<rparr>) \<rparr>"

definition elFill :: "nat \<Rightarrow> string \<Rightarrow> unit pageM" where
  "elFill h v p =
     (case el_fill (store p h) v of
        Inl err \<Rightarrow> (Inl err, logged (Fill h v) p)
      | Inr v' \<Rightarrow> (Inr (), holds h v' (logged (Fill h v) p)))"

definition elSelectLabel :: "nat \<Rightarrow> string \<Rightarrow> unit pageM" where
  "elSelectLabel h v p =
     (case el_selectLabel (store p h) v of
        Inl err \<Rightarrow> (Inl err, logged (SelectLabel h v) p)
      | Inr v' \<Rightarrow> (Inr (), holds h v' (logged (SelectLabel h v) p)))"

definition elSelectValue :: "nat \<Rightarrow> string \<Rightarrow> unit pageM" where
  "elSelectValue h v p =
     (case el_selectValue (store p h) v of
        Inl err \<Rightarrow> (Inl err, logged (SelectValue h v) p)
      | Inr v' \<Rightarrow> (Inr (), holds h v' (logged (SelectValue h v) p)))"

definition elGetAttributeFor :: "nat \<Rightarrow> (string option) pageM" where
  "elGetAttributeFor h p = answering (GetAttribute h ''for'') (el_forAttr (store p h)) p"

definition elTextContent :: "nat \<Rightarrow> string pageM" where
  "elTextContent h p = answering (TextContent h) (el_textContent (store p h)) p"

definition pageWait :: "unit pageM" where
  "pageWait p = (Inr (), logged Wait p)"

definition pageScroll :: "unit pageM" where
  "pageScroll p = (Inr (), logged Scroll p)"

section \<open>Tracked fills (form-filler.ts)\<close>

text \<open>
  How the \<^verbatim>\<open>try\<close> block of a fill function ends when it does not throw. The tracker is
  written right where the block ends, so the block is a computation on the page that
  yields one of these, and the fill function writes the tracker from it.
\<close>

datatype fill_outcome = NotFound | NotVisible | AlreadyCorrect | Filled

text \<open>
  The \<^verbatim>\<open>try\<close> block of \<^verbatim>\<open>fillTextField\<close>;
  \<^verbatim>\<open>element.inputValue().catch(() => '')\<close> is the inner \<open>catchE\<close>.
\<close>

definition textAttempt :: "string \<Rightarrow> string \<Rightarrow> fill_outcome pageM" where
  "textAttempt sel v =
     bnd (pageQuery sel) (\<lambda>found.
       case found of
         None \<Rightarrow> ret NotFound
       | Some h \<Rightarrow>
           bnd (elIsVisible h) (\<lambda>isVisible.
             if \<not> isVisible then ret NotVisible
             else
               bnd (catchE (elInputValue h) (\<lambda>err. ret [])) (\<lambda>currentValue.
                 if currentValue = v then ret AlreadyCorrect
                 else
                   bnd (elClick h) (\<lambda>u1.
                   bnd (elFill h []) (\<lambda>u2.
                   bnd (elFill h v) (\<lambda>u3.
                   ret Filled))))))"

text \<open>
  The value that is compared with the requested one: what \<^verbatim>\<open>inputValue()\<close> answers, and
  the empty string when it throws.
\<close>

definition currentValue :: "element \<Rightarrow> string" where
  "currentValue e = (case el_inputValue e of Inl err \<Rightarrow> [] | Inr cur \<Rightarrow> cur)"

text \<open>The outcome written to the tracker; the \<^verbatim>\<open>catch\<close> records \<^verbatim>\<open>String(error)\<close>.\<close>

definition settle ::
  "FormTracker \<Rightarrow> string \<Rightarrow> string \<Rightarrow> string \<Rightarrow> string \<Rightarrow> (string + fill_outcome) \<Rightarrow> bool \<times> FormTracker" where
  "settle t sel v lbl mdl r =
     (case r of
        Inl err \<Rightarrow> (False, recordFailure t sel lbl err mdl)
      | Inr NotFound \<Rightarrow> (False, recordFailure t sel lbl ''Element not found'' mdl)
      | Inr NotVisible \<Rightarrow> (False, recordFailure t sel lbl ''Element not visible'' mdl)
      | Inr AlreadyCorrect \<Rightarrow> (False, t)
      | Inr Filled \<Rightarrow> (True, recordFill t sel lbl v mdl))"

definition fillTextField ::
  "FormTracker \<Rightarrow> page \<Rightarrow> string \<Rightarrow> string \<Rightarrow> string \<Rightarrow> string \<Rightarrow> bool \<times> FormTracker \<times> page" where
  "fillTextField t p sel v lbl mdl =
     (if isFieldFilled t sel then (False, t, p)
      else (case textAttempt sel v p of
              (r, p') \<Rightarrow>
                (case settle (markAttempted t sel) sel v lbl mdl r of
                   (success, t') \<Rightarrow> (success, t', p'))))"

text \<open>
  The \<^verbatim>\<open>try\<close> block of \<^verbatim>\<open>fillSelectField\<close>: selection by label, and by value in the
  \<^verbatim>\<open>catch\<close> of that.
\<close>

definition selectAttempt :: "string \<Rightarrow> string \<Rightarrow> fill_outcome pageM" where
  "selectAttempt sel v =
     bnd (pageQuery sel) (\<lambda>found.
       case found of
         None \<Rightarrow> ret NotFound
       | Some h \<Rightarrow>
           catchE (bnd (elSelectLabel h v) (\<lambda>u. ret Filled))
                  (\<lambda>err. bnd (elSelectValue h v) (\<lambda>u. ret Filled)))"

definition fillSelectField ::
  "FormTracker \<Rightarrow> page \<Rightarrow> string \<Rightarrow> string \<Rightarrow> string \<Rightarrow> string \<Rightarrow> bool \<times> FormTracker \<times> page" where
  "fillSelectField t p sel v lbl mdl =
     (if isFieldFilled t sel then (False, t, p)
      else (case selectAttempt sel v p of
              (r, p') \<Rightarrow>
                (case settle (markAttempted t sel) sel v lbl mdl r of
                   (success, t') \<Rightarrow> (success, t', p'))))"

subsection \<open>The basic-field pass of \<^verbatim>\<open>autofillForm\<close>\<close>

text \<open>
  One entry of the pass: the label of the basic field, the value \<^verbatim>\<open>getProfileValue\<close> finds
  for it in the profile (\<^verbatim>\<open>null\<close> when there is none) and the selectors
  \<^verbatim>\<open>getFieldSelectors\<close> finds for it in the configuration.
\<close>

record BasicField =
  bf_label :: string
  bf_value :: "string option"
  bf_selectors :: "string list"

text \<open>
  The inner loop over the selectors of one field. Its own calls of the page are outside
  any \<^verbatim>\<open>try\<close>: an error there ends \<^verbatim>\<open>autofillForm\<close>, which is the first component of
  the result.
\<close>

fun selectorLoop ::
  "FormTracker \<Rightarrow> page \<Rightarrow> string \<Rightarrow> string \<Rightarrow> string list \<Rightarrow> string option \<times> FormTracker \<times> page" where
  "selectorLoop t p v lbl [] = (None, t, p)"
| "selectorLoop t p v lbl (sel # sels) =
     (case pageQuery sel p of
        (Inl err, p1) \<Rightarrow> (Some err, t, p1)
      | (Inr None, p1) \<Rightarrow> selectorLoop t p1 v lbl sels
      | (Inr (Some h), p1) \<Rightarrow>
          (case elIsVisible h p1 of
             (Inl err, p2) \<Rightarrow> (Some err, t, p2)
           | (Inr False, p2) \<Rightarrow> selectorLoop t p2 v lbl sels
           | (Inr True, p2) \<Rightarrow>
               (case elTagName h p2 of
                  (Inl err, p3) \<Rightarrow> (Some err, t, p3)
                | (Inr tagName, p3) \<Rightarrow>
                    (case (if tagName = ''select''
                           then fillSelectField t p3 sel v lbl ''BasicFields''
                           else fillTextField t p3 sel v lbl ''BasicFields'') of
                       (success, t', p4) \<Rightarrow>
                         if success then (None, t', p4) else selectorLoop t' p4 v lbl sels))))"

text \<open>The outer loop; a field without a value (\<^verbatim>\<open>null\<close> or empty) is skipped.\<close>

fun basicFieldsLoop ::
  "FormTracker \<Rightarrow> page \<Rightarrow> BasicField list \<Rightarrow> string option \<times> FormTracker \<times> page" where
  "basicFieldsLoop t p [] = (None, t, p)"
| "basicFieldsLoop t p (f # fs) =
     (if attrOrEmpty (bf_value f) = [] then basicFieldsLoop t p fs
      else (case selectorLoop t p (attrOrEmpty (bf_value f)) (bf_label f) (bf_selectors f) of
              (Some err, t', p') \<Rightarrow> (Some err, t', p')
            | (None, t', p') \<Rightarrow> basicFieldsLoop t' p' fs))"

text \<open>\<^verbatim>\<open>autofillForm\<close> resets the tracker and then runs the pass.\<close>

definition autofillBasicFields ::
  "FormTracker \<Rightarrow> page \<Rightarrow> BasicField list \<Rightarrow> string option \<times> FormTracker \<times> page" where
  "autofillBasicFields t p fs = basicFieldsLoop (reset t) p fs"

text \<open>
  The page calls the two loops make themselves are \<^verbatim>\<open>page.$\<close>, \<^verbatim>\<open>isVisible()\<close> and the
  \<^verbatim>\<open>evaluate\<close> that reads the tag name. On a page where these answer, for every selector
  and every element, the loops cannot throw.
\<close>

definition lookupsAnswer :: "page \<Rightarrow> bool" where
  "lookupsAnswer p =
     ((\<forall>sel. \<exists>found. resolve p sel = Inr found) \<and>
      (\<forall>h. \<exists>vis. el_isVisible (store p h) = Inr vis) \<and>
      (\<forall>h. faults p (TagName h) = None))"

text \<open>Two pages that answer these lookups alike, and a computation that keeps the answers.\<close>

definition sameLookups :: "page \<Rightarrow> page \<Rightarrow> bool" where
  "sameLookups p p' =
     (resolve p' = resolve p \<and> faults p' = faults p \<and>
      (\<forall>h. el_isVisible (store p' h) = el_isVisible (store p h)))"

definition keeps :: "'a pageM \<Rightarrow> bool" where
  "keeps m = (\<forall>p r p'. m p = (r, p') \<longrightarrow> sameLookups p p')"

text \<open>
  A selector is live on a page when it finds an element that is visible; the inner loop
  passes over a selector that is not (\<^verbatim>\<open>continue\<close>).
\<close>

definition isLive :: "page \<Rightarrow> string \<Rightarrow> bool" where
  "isLive p sel =
     (case resolve p sel of
        Inr (Some h) \<Rightarrow> el_isVisible (store p h) = Inr True
      | _ \<Rightarrow> False)"

subsection \<open>Tracked sessions\<close>

text \<open>
  A tracked session is the sequence of fill calls issued on one tracker between two
  resets, each call with its selector, value, label and module.
\<close>

datatype fill_call =
    TextCall string string string string
  | SelectCall string string string string

fun callSelector :: "fill_call \<Rightarrow> string" where
  "callSelector (TextCall sel v lbl mdl) = sel"
| "callSelector (SelectCall sel v lbl mdl) = sel"

fun runCall :: "FormTracker \<Rightarrow> page \<Rightarrow> fill_call \<Rightarrow> bool \<times> FormTracker \<times> page" where
  "runCall t p (TextCall sel v lbl mdl) = fillTextField t p sel v lbl mdl"
| "runCall t p (SelectCall sel v lbl mdl) = fillSelectField t p sel v lbl mdl"

fun runSession :: "FormTracker \<Rightarrow> page \<Rightarrow> fill_call list \<Rightarrow> bool list \<times> FormTracker \<times> page" where
  "runSession t p [] = ([], t, p)"
| "runSession t p (c # cs) =
     (case runCall t p c of
        (b, t1, p1) \<Rightarrow>
          (case runSession t1 p1 cs of (bs, t2, p2) \<Rightarrow> (b # bs, t2, p2)))"

text \<open>The number of calls on a selector that returned \<^verbatim>\<open>true\<close>.\<close>

definition successesOn :: "string \<Rightarrow> fill_call list \<Rightarrow> bool list \<Rightarrow> nat" where
  "successesOn sel cs bs = length (filter (\<lambda>(c, b). callSelector c = sel \<and> b) (zip cs bs))"

text \<open>The number of page interactions of a run: the growth of the log.\<close>

definition interactions :: "page \<Rightarrow> page \<Rightarrow> nat" where
  "interactions p p' = length (trace p') - length (trace p)"

subsection \<open>Example pages\<close>

definition plainElement :: element where
  "plainElement =
     \<lparr> el_isVisible = Inr True, el_inputValue = Inr [], el_click = None,
       el_fill = (\<lambda>v. Inr v), el_selectLabel = (\<lambda>v. Inl ''Error: not a select element''),
       el_selectValue = (\<lambda>v. Inl ''Error: not a select element''), el_tagName = ''INPUT'',
       el_idAttr = [], el_role = None, el_inputType = Some ''text'', el_classList = [],
       el_textContent = [], el_ariaLabelAttr = None, el_forAttr = None,
       el_hasDisabledAttr = False, el_ariaDisabled = None, el_disabledProp = False,
       el_inOverlay = False, el_rect = (200, 30), el_pointerEvents = ''auto'',
       el_opacity = ''1'' \<rparr>"

text \<open>
  A form with an e-mail input that already holds the address, a name input, a hidden
  phone input and a name input that a script resets after every assignment.
\<close>

definition formElements :: "nat \<Rightarrow> element" where
  "formElements h =
     (if h = 0 then plainElement\<lparr> el_inputValue := Inr ''ada@example.com'' \<rparr>
      else if h = 2 then plainElement\<lparr> el_isVisible := Inr False \<rparr>
      else if h = 3 then plainElement\<lparr> el_fill := (\<lambda>v. Inr []) \<rparr>
      else if h = 4 then plainElement\<lparr> el_click := Some ''Error: Timeout 30000ms exceeded'' \<rparr>
      else plainElement)"

definition formResolve :: "string \<Rightarrow> string + nat option" where
  "formResolve sel =
     (if sel = ''#email'' then Inr (Some 0)
      else if sel = ''#first_name'' then Inr (Some 1)
      else if sel = ''#phone'' then Inr (Some 2)
      else if sel = ''#last_name'' then Inr (Some 3)
      else if sel = ''#github'' then Inr (Some 4)
      else Inr None)"

definition formPage :: page where
  "formPage =
     \<lparr> resolve = formResolve, dom = [0, 1, 2, 3, 4], store = formElements,
       faults = (\<lambda>i. None), trace = [] \<rparr>"

text \<open>
  A country select: \<^verbatim>\<open>selectOption({ label })\<close> finds the label \<^verbatim>\<open>Canada\<close>, for
  \<^verbatim>\<open>CA\<close> only \<^verbatim>\<open>selectOption({ value })\<close> finds an option, and for anything else both
  throw. Then the form on a page on which the \<^verbatim>\<open>evaluate\<close> of the first-name input
  rejects.
\<close>

definition countrySelect :: element where
  "countrySelect =
     plainElement\<lparr> el_tagName := ''SELECT'', el_inputType := None,
       el_selectLabel := (\<lambda>v. if v = ''Canada'' then Inr ''CA''
                                else Inl ''Error: Timeout 30000ms exceeded (label)''),
       el_selectValue := (\<lambda>v. if v = ''CA'' then Inr ''CA''
                                else Inl ''Error: Timeout 30000ms exceeded (value)'') \<rparr>"

definition selectPage :: page where
  "selectPage =
     \<lparr> resolve = (\<lambda>sel. if sel = ''#country'' then Inr (Some 0) else Inr None), dom = [0],
       store = (\<lambda>h. countrySelect), faults = (\<lambda>i. None), trace = [] \<rparr>"

definition navigatedPage :: page where
  "navigatedPage =
     formPage\<lparr> faults := (\<lambda>i. if i = TagName 1
                                then Some ''Error: Execution context was destroyed'' else None) \<rparr>"

text \<open>
  The form with its inputs detached from the document, so that the visibility test throws,
  and the form with its inputs read-only, so that an assignment throws.
\<close>

definition detachedPage :: page where
  "detachedPage =
     formPage\<lparr> store :=
       (\<lambda>h. plainElement\<lparr> el_isVisible := Inl ''Error: Element is not attached to the DOM'' \<rparr>) \<rparr>"

definition readonlyPage :: page where
  "readonlyPage =
     formPage\<lparr> store :=
       (\<lambda>h. plainElement\<lparr> el_fill := (\<lambda>v. Inl ''Error: Element is not editable'') \<rparr>) \<rparr>"

text \<open>The same form behind a selector engine that rejects every selector.\<close>

definition brokenPage :: page where
  "brokenPage = formPage\<lparr> resolve := (\<lambda>sel. Inl ''Error: Unexpected token while parsing selector'') \<rparr>"

text \<open>
  The entries of a pass over that form: the e-mail input already holds the value, the
  click on the GitHub input times out, the first name can be filled.
\<close>

definition basicFields :: "BasicField list" where
  "basicFields =
     [\<lparr> bf_label = ''Email'', bf_value = Some ''ada@example.com'', bf_selectors = [''#email''] \<rparr>,
      \<lparr> bf_label = ''GitHub'', bf_value = Some ''https://github.com/ada'',
        bf_selectors = [''#github''] \<rparr>,
      \<lparr> bf_label = ''First Name'', bf_value = Some ''Ada'', bf_selectors = [''#first_name''] \<rparr>]"

text \<open>A tracker that holds the record of a successful fill, and a session of four calls.\<close>

definition firstNameRecord :: FieldFillRecord where
  "firstNameRecord =
     \<lparr> fr_selector = ''#first_name'', fr_label = ''First Name'', fr_value = ''Ada'',
       fr_success = True, fr_module = ''BasicFields'' \<rparr>"

definition filledTracker :: FormTracker where
  "filledTracker = recordFill newFormTracker ''#first_name'' ''First Name'' ''Ada'' ''BasicFields''"

definition sessionCalls :: "fill_call list" where
  "sessionCalls =
     [TextCall ''#phone'' ''555-0100'' ''Phone'' ''BasicFields'',
      TextCall ''#phone'' ''555-0100'' ''Phone'' ''AI'',
      TextCall ''#first_name'' ''Ada'' ''First Name'' ''BasicFields'',
      SelectCall ''#first_name'' ''Ada'' ''First Name'' ''AI'']"

section \<open>Field extraction: deduplication (form-extractor.ts)\<close>

text \<open>
  \<^verbatim>\<open>ExtractedField\<close> of form-extractor.ts. The \<^verbatim>\<open>type\<close> field is kept as the string the
  scans store (text inputs store the raw \<^verbatim>\<open>input.type\<close>); the optional fields \<^verbatim>\<open>options\<close>
  and \<^verbatim>\<open>groupName\<close> are options. An option is the pair \<^verbatim>\<open>(value, text)\<close>.
\<close>

record ExtractedField =
  ef_id :: string
  ef_name :: string
  ef_selector :: string
  ef_type :: string
  ef_label :: string
  ef_placeholder :: string
  ef_required :: bool
  ef_currentValue :: string
  ef_options :: "(string \<times> string) list option"
  ef_groupName :: "string option"

text \<open>\<^verbatim>\<open>const key = field.selector || field.label\<close>: the empty string is falsy.\<close>

definition fieldKey :: "ExtractedField \<Rightarrow> string" where
  "fieldKey f = (if ef_selector f \<noteq> [] then ef_selector f else ef_label f)"

text \<open>
  The \<^verbatim>\<open>for\<close> loop of \<^verbatim>\<open>deduplicateFields\<close>, with its two mutable locals \<^verbatim>\<open>seen\<close> and
  \<^verbatim>\<open>unique\<close> passed along.
\<close>

fun dedupLoop :: "ExtractedField list \<Rightarrow> string set \<Rightarrow> ExtractedField list \<Rightarrow> ExtractedField list" where
  "dedupLoop [] seen unique = unique"
| "dedupLoop (f # fs) seen unique =
     (if fieldKey f \<noteq> [] \<and> fieldKey f \<notin> seen
      then dedupLoop fs (insert (fieldKey f) seen) (unique @ [f])
      else dedupLoop fs seen unique)"

definition deduplicateFields :: "ExtractedField list \<Rightarrow> ExtractedField list" where
  "deduplicateFields fs = dedupLoop fs {} []"

text \<open>
  Two records for one control, as the scans produce them for a React-Select widget whose
  inner input has the id \<^verbatim>\<open>school\<close>: the text-input scan (step 1) finds the inner input and
  knows no options, the custom-dropdown scan (step 4) finds the container, takes the inner
  input's id for the selector and resolves the options.
\<close>

definition schoolAsTextInput :: ExtractedField where
  "schoolAsTextInput =
     \<lparr> ef_id = ''school'', ef_name = ''school'', ef_selector = ''#school'', ef_type = ''text'',
       ef_label = ''School'', ef_placeholder = '''', ef_required = False, ef_currentValue = '''',
       ef_options = None, ef_groupName = None \<rparr>"

definition schoolAsDropdown :: ExtractedField where
  "schoolAsDropdown =
     \<lparr> ef_id = ''school'', ef_name = ''school'', ef_selector = ''#school'', ef_type = ''select'',
       ef_label = ''School'', ef_placeholder = '''', ef_required = False, ef_currentValue = '''',
       ef_options = Some [(''MIT'', ''MIT''), (''Stanford'', ''Stanford'')], ef_groupName = None \<rparr>"

definition emailField :: ExtractedField where
  "emailField =
     \<lparr> ef_id = ''email'', ef_name = ''email'', ef_selector = ''#email'', ef_type = ''email'',
       ef_label = ''Email'', ef_placeholder = '''', ef_required = True, ef_currentValue = '''',
       ef_options = None, ef_groupName = None \<rparr>"

section \<open>Label resolution (form-extractor.ts \<^verbatim>\<open>extractTextInputs\<close>, form-filler.ts \<^verbatim>\<open>analyzeForm\<close>)\<close>

text \<open>
  What the document answers about one input element when its label is resolved:
  \<^item> \<^verbatim>\<open>getAttribute('aria-label')\<close>, \<^verbatim>\<open>null\<close> when the attribute is absent;
  \<^item> the \<^verbatim>\<open>placeholder\<close>, \<^verbatim>\<open>id\<close> and \<^verbatim>\<open>name\<close> properties, empty when absent;
  \<^item> the text content of the element \<^verbatim>\<open>label[for="id"]\<close>, when there is one;
  \<^item> for the nearest ancestor \<^verbatim>\<open>div, label, fieldset\<close> and its first descendant
    \<^verbatim>\<open>label, .label, [class*="label"]\<close>, when both exist: whether that descendant contains
    an \<^verbatim>\<open>input\<close>, and its text content.
\<close>

record InputContext =
  ic_ariaLabel :: "string option"
  ic_placeholder :: string
  ic_id :: string
  ic_name :: string
  ic_labelFor :: "string option"
  ic_containerLabel :: "(bool \<times> string) option"

text \<open>\<^verbatim>\<open>label.replace(/\s+/g, ' ').trim()\<close>\<close>

definition cleanLabel :: "string \<Rightarrow> string" where
  "cleanLabel s = trim (collapseWs s)"

text \<open>The label computed in the \<^verbatim>\<open>map\<close> callback of \<^verbatim>\<open>extractTextInputs\<close>.\<close>

definition textInputLabel :: "InputContext \<Rightarrow> string" where
  "textInputLabel ctx =
     (let label0 = orElse (attrOrEmpty (ic_ariaLabel ctx)) (orElse (ic_placeholder ctx) []);
          label1 = (if label0 = [] \<and> ic_id ctx \<noteq> []
                    then (case ic_labelFor ctx of
                            Some t \<Rightarrow> orElse (trim t) []
                          | None \<Rightarrow> label0)
                    else label0);
          label2 = (if label1 = []
                    then (case ic_containerLabel ctx of
                            Some (hasInput, t) \<Rightarrow> if \<not> hasInput then orElse (trim t) [] else label1
                          | None \<Rightarrow> label1)
                    else label1)
      in cleanLabel label2)"

text \<open>
  The label \<^verbatim>\<open>analyzeForm\<close> stores: \<^verbatim>\<open>ariaLabel || placeholder\<close>, then the text of the
  associated \<^verbatim>\<open>label\<close> element, trimmed at the end.
\<close>

definition analyzeFormLabel :: "InputContext \<Rightarrow> string" where
  "analyzeFormLabel ctx =
     (let ariaLabel = orElse (attrOrEmpty (ic_ariaLabel ctx)) [];
          placeholder = orElse (ic_placeholder ctx) [];
          label0 = orElse ariaLabel placeholder;
          label1 = (if label0 = [] \<and> ic_id ctx \<noteq> []
                    then (case ic_labelFor ctx of Some t \<Rightarrow> orElse t [] | None \<Rightarrow> label0)
                    else label0)
      in trim label1)"

text \<open>
  The order as the specification words it, for comparison: ARIA attribute, explicit label
  association, placeholder, the ancestor container's labelled child, raw name, raw id,
  positional fallback; the first non-empty source wins.
\<close>

definition firstNonEmpty :: "string list \<Rightarrow> string" where
  "firstNonEmpty xs = (case filter (\<lambda>s. s \<noteq> []) xs of [] \<Rightarrow> [] | s # _ \<Rightarrow> s)"

definition claimedLabel :: "InputContext \<Rightarrow> string \<Rightarrow> string" where
  "claimedLabel ctx positional =
     firstNonEmpty
       [attrOrEmpty (ic_ariaLabel ctx),
        attrOrEmpty (ic_labelFor ctx),
        ic_placeholder ctx,
        (case ic_containerLabel ctx of Some (hasInput, t) \<Rightarrow> t | None \<Rightarrow> []),
        ic_name ctx,
        ic_id ctx,
        positional]"

text \<open>
  \<^verbatim>\<open><label for="email">Email Address</label>
  <input id="email" name="email" placeholder="Enter your email">\<close> directly in the body, and
  an input that has nothing but a name.
\<close>

definition emailInput :: InputContext where
  "emailInput =
     \<lparr> ic_ariaLabel = None, ic_placeholder = ''Enter your email'', ic_id = ''email'',
       ic_name = ''email'', ic_labelFor = Some ''Email Address'', ic_containerLabel = None \<rparr>"

definition bareInput :: InputContext where
  "bareInput =
     \<lparr> ic_ariaLabel = None, ic_placeholder = '''', ic_id = '''',
       ic_name = ''company'', ic_labelFor = None, ic_containerLabel = None \<rparr>"

definition phoneInput :: InputContext where
  "phoneInput =
     \<lparr> ic_ariaLabel = None, ic_placeholder = '''', ic_id = ''phone'',
       ic_name = ''phone'', ic_labelFor = Some '' Phone  number '',
       ic_containerLabel = Some (False, ''Contact'') \<rparr>"

text \<open>
  \<^verbatim>\<open><input aria-label="Search jobs" placeholder="Keyword">\<close>, and
  \<^verbatim>\<open><div><span class="label"> City </span><input name="city"></div>\<close>.
\<close>

definition ariaInput :: InputContext where
  "ariaInput =
     \<lparr> ic_ariaLabel = Some ''Search jobs'', ic_placeholder = ''Keyword'', ic_id = '''',
       ic_name = ''q'', ic_labelFor = None, ic_containerLabel = None \<rparr>"

definition cityInput :: InputContext where
  "cityInput =
     \<lparr> ic_ariaLabel = None, ic_placeholder = '''', ic_id = '''',
       ic_name = ''city'', ic_labelFor = None, ic_containerLabel = Some (False, '' City '') \<rparr>"

text \<open>
  \<^verbatim>\<open><div><span class="label">Full name</span><label for="n">&nbsp;</label><input id="n"></div>\<close>:
  the associated label holds a no-break space only.
\<close>

definition nbspInput :: InputContext where
  "nbspInput =
     \<lparr> ic_ariaLabel = None, ic_placeholder = '''', ic_id = ''n'',
       ic_name = '''', ic_labelFor = Some [CHR 0xA0],
       ic_containerLabel = Some (False, [CHR 0xA0] @ ''Full name'' @ [CHR 0xA0]) \<rparr>"

section \<open>Option matching (question handler, \<^verbatim>\<open>findMatchingOption\<close>)\<close>

text \<open>One \<^verbatim>\<open>{ value, text }\<close> entry, as \<^verbatim>\<open>$$eval\<close> reads it from an \<^verbatim>\<open>option\<close> element.\<close>

record OptionEntry =
  opt_value :: string
  opt_text :: string

text \<open>
  The alias table \<^verbatim>\<open>optionMatches\<close> is a \<^verbatim>\<open>Record<string, string[]>\<close>;
  it is given as the list of its entries in the order of \<^verbatim>\<open>Object.entries\<close> (keys that
  are array indices first, in ascending order, then the other keys in insertion order).

  \<^verbatim>\<open>matches.some(m => lowerTarget.includes(m.toLowerCase()))\<close>
\<close>

definition aliasGroupHit :: "string \<Rightarrow> string list \<Rightarrow> bool" where
  "aliasGroupHit lowerTarget matches =
     list_ex (\<lambda>m. strIncludes lowerTarget (toLowerCase m)) matches"

text \<open>The predicate of the \<^verbatim>\<open>options.find\<close> inside the alias loop; the key is used as it is.\<close>

definition aliasOptionPred :: "string \<Rightarrow> string list \<Rightarrow> OptionEntry \<Rightarrow> bool" where
  "aliasOptionPred key matches opt =
     (strIncludes (toLowerCase (opt_text opt)) key \<or>
      strIncludes (toLowerCase (opt_value opt)) key \<or>
      list_ex (\<lambda>m. strIncludes (toLowerCase (opt_text opt)) (toLowerCase m)) matches)"

fun aliasLoop :: "(string \<times> string list) list \<Rightarrow> string \<Rightarrow> OptionEntry list \<Rightarrow> string option" where
  "aliasLoop [] lowerTarget opts = None"
| "aliasLoop ((key, matches) # rest) lowerTarget opts =
     (if aliasGroupHit lowerTarget matches
      then (case find (aliasOptionPred key matches) opts of
              Some found \<Rightarrow> Some (opt_value found)
            | None \<Rightarrow> aliasLoop rest lowerTarget opts)
      else aliasLoop rest lowerTarget opts)"

text \<open>The first rule: only with an alias table, \<^verbatim>\<open>if (optionMatches)\<close>.\<close>

definition aliasRule :: "(string \<times> string list) list option \<Rightarrow> string \<Rightarrow> OptionEntry list \<Rightarrow> string option" where
  "aliasRule optionMatches lowerTarget opts =
     (case optionMatches of None \<Rightarrow> None | Some table \<Rightarrow> aliasLoop table lowerTarget opts)"

definition exactPred :: "string \<Rightarrow> OptionEntry \<Rightarrow> bool" where
  "exactPred lowerTarget opt =
     (toLowerCase (opt_text opt) = lowerTarget \<or> toLowerCase (opt_value opt) = lowerTarget)"

definition partialPred :: "string \<Rightarrow> OptionEntry \<Rightarrow> bool" where
  "partialPred lowerTarget opt =
     (strIncludes (toLowerCase (opt_text opt)) lowerTarget \<or>
      strIncludes lowerTarget (toLowerCase (opt_text opt)))"

text \<open>
  \<^verbatim>\<open>findMatchingOption\<close>. The first argument is what \<^verbatim>\<open>page.$$eval\<close> gives for the options
  of the select: the entries, or the error it throws, which the \<^verbatim>\<open>catch\<close> turns into
  \<^verbatim>\<open>null\<close>. The result is the \<^verbatim>\<open>value\<close> of the chosen option.
\<close>

definition findMatchingOption ::
  "string + OptionEntry list \<Rightarrow> string \<Rightarrow> (string \<times> string list) list option \<Rightarrow> string option" where
  "findMatchingOption evaluated targetValue optionMatches =
     (case evaluated of
        Inl err \<Rightarrow> None
      | Inr opts \<Rightarrow>
          (let lowerTarget = toLowerCase targetValue in
           case aliasRule optionMatches lowerTarget opts of
             Some v \<Rightarrow> Some v
           | None \<Rightarrow>
               (case find (exactPred lowerTarget) opts of
                  Some exactMatch \<Rightarrow> Some (opt_value exactMatch)
                | None \<Rightarrow>
                    (case find (partialPred lowerTarget) opts of
                       Some partialMatch \<Rightarrow> Some (opt_value partialMatch)
                     | None \<Rightarrow> None))))"

text \<open>
  A work-authorisation select and the alias table of its dropdown mapping. The first option
  contains the alias key \<^verbatim>\<open>yes\<close>, the second is the exact match for the target \<^verbatim>\<open>Yes\<close>.
\<close>

definition authOptions :: "OptionEntry list" where
  "authOptions =
     [\<lparr> opt_value = ''sponsor'', opt_text = ''Yes, with sponsorship'' \<rparr>,
      \<lparr> opt_value = ''yes'', opt_text = ''Yes'' \<rparr>,
      \<lparr> opt_value = ''no'', opt_text = ''No'' \<rparr>]"

definition authAliases :: "(string \<times> string list) list" where
  "authAliases = [(''yes'', [''yes'', ''authorized'']), (''no'', [''no'', ''not authorized''])]"

text \<open>A select whose option texts are in capitals, with an accented letter.\<close>

definition cafeOptions :: "OptionEntry list" where
  "cafeOptions =
     [\<lparr> opt_value = ''r1'', opt_text = ''RESTAURANT'' \<rparr>,
      \<lparr> opt_value = ''c1'', opt_text = [CHR ''C'', CHR ''A'', CHR ''F'', CHR 0xC9] \<rparr>]"

definition cafe :: string where
  "cafe = [CHR ''c'', CHR ''a'', CHR ''f'', CHR 0xE9]"

section \<open>Profile path resolution (question handler, \<^verbatim>\<open>getProfileValue\<close>)\<close>

text \<open>
  The function walks a value of static type \<^verbatim>\<open>unknown\<close>. A value is a JSON value, where
  an object is the list of its own properties and \<^verbatim>\<open>undefined\<close> is a value of its own, or
  a built-in object or function of the standard library, named by the path that leads to
  it. The payload of a number plays no part.
\<close>

datatype json =
    JUndefined
  | JNull
  | JBool bool
  | JNum int
  | JStr string
  | JArr "json list"
  | JObj "(string \<times> json) list"
  | JBuiltin string

text \<open>
  \<^verbatim>\<open>value[key]\<close> finds an own property of the value or, failing that, a member along its
  prototype chain (for a primitive, the chain of its wrapper). What is found there is
  given by the standard library, not by the profile: a realm is the function that gives,
  for a value and a key the value does not own, the inherited member, \<^verbatim>\<open>undefined\<close> when
  there is none.
\<close>

type_synonym realm = "json \<Rightarrow> string \<Rightarrow> json"

text \<open>Reading an element of an array by number: out of range gives \<^verbatim>\<open>undefined\<close>.\<close>

definition jsIndex :: "json list \<Rightarrow> nat \<Rightarrow> json" where
  "jsIndex xs i = (if i < length xs then xs ! i else JUndefined)"

text \<open>A property name that is an array index in canonical form: digits, no leading zero.\<close>

definition canonicalIndex :: "string \<Rightarrow> nat option" where
  "canonicalIndex k =
     (if k \<noteq> [] \<and> list_all isDigit k \<and> (k = ''0'' \<or> hd k \<noteq> CHR ''0'')
      then Some (parseInt k) else None)"

text \<open>
  The own properties: those of an object, and the elements and the \<^verbatim>\<open>length\<close> of an array
  and of a string.
\<close>

fun ownProperty :: "json \<Rightarrow> string \<Rightarrow> json option" where
  "ownProperty (JObj kvs) key = map_of kvs key"
| "ownProperty (JArr xs) key =
     (case canonicalIndex key of
        Some i \<Rightarrow> if i < length xs then Some (xs ! i) else None
      | None \<Rightarrow> if key = ''length'' then Some (JNum (int (length xs))) else None)"
| "ownProperty (JStr s) key =
     (case canonicalIndex key of
        Some i \<Rightarrow> if i < length s then Some (JStr [s ! i]) else None
      | None \<Rightarrow> if key = ''length'' then Some (JNum (int (length s))) else None)"
| "ownProperty v key = None"

text \<open>
  The inherited member. No prototype of the standard library has a property named by an
  array index, so such a key is never inherited.
\<close>

definition inherited :: "realm \<Rightarrow> json \<Rightarrow> string \<Rightarrow> json" where
  "inherited realm v key = (if canonicalIndex key = None then realm v key else JUndefined)"

text \<open>\<^verbatim>\<open>value[key]\<close> for a value that is neither \<^verbatim>\<open>null\<close> nor \<^verbatim>\<open>undefined\<close>.\<close>

definition jsGet :: "realm \<Rightarrow> json \<Rightarrow> string \<Rightarrow> json" where
  "jsGet realm v key =
     (case ownProperty v key of Some x \<Rightarrow> x | None \<Rightarrow> inherited realm v key)"

text \<open>\<^verbatim>\<open>Array.isArray(value)\<close>\<close>

fun isArray :: "json \<Rightarrow> bool" where
  "isArray (JArr xs) = True"
| "isArray v = False"

text \<open>
  \<^verbatim>\<open>part.match(/(\w+)\[(\d+)\]/)\<close>. The expression is not anchored: the match is the
  leftmost one. At a given start the only candidate takes the longest run of word
  characters and the longest run of digits, since the characters that must follow are in
  neither class.
\<close>

definition matchAt :: "string \<Rightarrow> (string \<times> string) option" where
  "matchAt s =
     (let arrName = takeWhile isWord s; rest = dropWhile isWord s in
      if arrName = [] then None
      else (case rest of
              [] \<Rightarrow> None
            | b # r \<Rightarrow>
                if b \<noteq> CHR ''['' then None
                else (let index = takeWhile isDigit r in
                      if index \<noteq> [] \<and> take 1 (dropWhile isDigit r) = '']''
                      then Some (arrName, index) else None)))"

fun arrayMatch :: "string \<Rightarrow> (string \<times> string) option" where
  "arrayMatch [] = None"
| "arrayMatch (c # cs) =
     (case matchAt (c # cs) of Some m \<Rightarrow> Some m | None \<Rightarrow> arrayMatch cs)"

text \<open>The body of the \<^verbatim>\<open>for\<close> loop, after the test for \<^verbatim>\<open>null\<close> and \<^verbatim>\<open>undefined\<close>.\<close>

definition pathStep :: "realm \<Rightarrow> json \<Rightarrow> string \<Rightarrow> json" where
  "pathStep realm v part =
     (case arrayMatch part of
        Some (arrName, index) \<Rightarrow>
          (let w = jsGet realm v arrName in
           case w of JArr xs \<Rightarrow> jsIndex xs (parseInt index) | _ \<Rightarrow> w)
      | None \<Rightarrow> jsGet realm v part)"

text \<open>
  The result type \<^verbatim>\<open>string | boolean | undefined\<close>; \<^const>\<open>None\<close> is \<^verbatim>\<open>undefined\<close>. After the
  loop the value is returned when \<^verbatim>\<open>typeof\<close> gives \<^verbatim>\<open>string\<close> or \<^verbatim>\<open>boolean\<close>.
\<close>

datatype profile_value = PString string | PBoolean bool

fun asProfileValue :: "json \<Rightarrow> profile_value option" where
  "asProfileValue (JStr s) = Some (PString s)"
| "asProfileValue (JBool b) = Some (PBoolean b)"
| "asProfileValue v = None"

fun pathLoop :: "realm \<Rightarrow> json \<Rightarrow> string list \<Rightarrow> profile_value option" where
  "pathLoop realm v [] = asProfileValue v"
| "pathLoop realm v (part # parts) =
     (if v = JNull \<or> v = JUndefined then None else pathLoop realm (pathStep realm v part) parts)"

definition getProfileValue :: "realm \<Rightarrow> json \<Rightarrow> string \<Rightarrow> profile_value option" where
  "getProfileValue realm profile fieldPath = pathLoop realm profile (splitOn CHR ''.'' fieldPath)"

subsection \<open>Paths as the specification reads them\<close>

text \<open>
  A dotted path is a list of segments, each a key or a key with one index, written
  \<^verbatim>\<open>key\<close> and \<^verbatim>\<open>key[index]\<close> and joined by dots. The keys considered are identifiers:
  non-empty, of word characters.
\<close>

datatype segment = Key string | Indexed string nat

fun segKey :: "segment \<Rightarrow> string" where
  "segKey (Key k) = k"
| "segKey (Indexed k i) = k"

fun showSegment :: "segment \<Rightarrow> string" where
  "showSegment (Key k) = k"
| "showSegment (Indexed k i) = k @ ''['' @ showNat i @ '']''"

fun showPath :: "segment list \<Rightarrow> string" where
  "showPath [] = []"
| "showPath [seg] = showSegment seg"
| "showPath (seg # seg' # rest) = showSegment seg @ ''.'' @ showPath (seg' # rest)"

definition wellFormed :: "segment \<Rightarrow> bool" where
  "wellFormed seg = (segKey seg \<noteq> [] \<and> list_all isWord (segKey seg))"

text \<open>
  The specification's reading, on the data of the profile alone: a key names the property
  of that name of an object, a key with an index names the element of that number of the
  array that is the property of that name, and a segment that names nothing is missing,
  which is \<^const>\<open>None\<close>. The value of a path with a missing segment is \<^verbatim>\<open>undefined\<close>.
\<close>

fun dataAt :: "json \<Rightarrow> segment list \<Rightarrow> json option" where
  "dataAt v [] = Some v"
| "dataAt (JObj kvs) (Key k # rest) =
     (case map_of kvs k of Some x \<Rightarrow> dataAt x rest | None \<Rightarrow> None)"
| "dataAt (JObj kvs) (Indexed k i # rest) =
     (case map_of kvs k of
        Some (JArr xs) \<Rightarrow> if i < length xs then dataAt (xs ! i) rest else None
      | _ \<Rightarrow> None)"
| "dataAt v (seg # rest) = None"

definition resolveProfileValue :: "json \<Rightarrow> segment list \<Rightarrow> profile_value option" where
  "resolveProfileValue profile segs =
     (case dataAt profile segs of Some v \<Rightarrow> asProfileValue v | None \<Rightarrow> None)"

subsection \<open>Example profile\<close>

text \<open>\<^verbatim>\<open>Education\<close> of types/index.ts and its JSON form; \<^verbatim>\<open>gpa\<close> is optional.\<close>

record Education =
  school :: string
  degree :: string
  field :: string
  graduation :: string
  gpa :: "string option"

definition educationJson :: "Education \<Rightarrow> json" where
  "educationJson e =
     JObj ([(''school'', JStr (school e)), (''degree'', JStr (degree e)),
            (''field'', JStr (field e)), (''graduation'', JStr (graduation e))] @
           (case gpa e of None \<Rightarrow> [] | Some g \<Rightarrow> [(''gpa'', JStr g)]))"

text \<open>
  A candidate profile as the configuration loader parses it: an object whose
  \<^verbatim>\<open>education\<close> property is the array of the education entries; the other properties
  (\<^verbatim>\<open>personal\<close>, \<^verbatim>\<open>skills\<close>, \<^verbatim>\<open>links\<close>, ...) are given as they are.
\<close>

definition profileJson :: "(string \<times> json) list \<Rightarrow> Education list \<Rightarrow> json" where
  "profileJson others es = JObj ((''education'', JArr (map educationJson es)) # others)"

definition sampleEducation :: Education where
  "sampleEducation =
     \<lparr> school = ''MIT'', degree = ''MS'', field = ''Computer Science'',
       graduation = ''2024-05'', gpa = None \<rparr>"

definition personalJson :: json where
  "personalJson = JObj [(''first_name'', JStr ''Ada''), (''middle_name'', JNull)]"

definition sampleProfile :: json where
  "sampleProfile = profileJson [(''personal'', personalJson)] [sampleEducation]"

text \<open>
  A realm for the examples. It answers what the examples look up: a plain object inherits
  the members of \<^verbatim>\<open>Object.prototype\<close>, among them its \<^verbatim>\<open>constructor\<close>, the function
  \<^verbatim>\<open>Object\<close>, whose \<^verbatim>\<open>name\<close> is the string \<^verbatim>\<open>Object\<close>. The members of the other
  prototypes are left out of it.
\<close>

definition objectPrototypeNames :: "string list" where
  "objectPrototypeNames =
     [''constructor'', ''__defineGetter__'', ''__defineSetter__'', ''hasOwnProperty'',
      ''__lookupGetter__'', ''__lookupSetter__'', ''isPrototypeOf'', ''propertyIsEnumerable'',
      ''toString'', ''valueOf'', ''__proto__'', ''toLocaleString'']"

definition sampleRealm :: realm where
  "sampleRealm v key =
     (case v of
        JObj kvs \<Rightarrow>
          if key = ''constructor'' then JBuiltin ''Object''
          else if key \<in> set objectPrototypeNames then JBuiltin (''Object.prototype.'' @ key)
          else JUndefined
      | JBuiltin b \<Rightarrow> if b = ''Object'' \<and> key = ''name'' then JStr ''Object'' else JUndefined
      | _ \<Rightarrow> JUndefined)"

section \<open>Page-state classification (application-navigator.ts)\<close>

























section \<open>The agent (form-agent part of overlay-ui.ts)\<close>

subsection \<open>Observed buttons (\<^verbatim>\<open>observePage\<close>)\<close>

datatype ButtonKind = AddButton | NextButton | SubmitButton | OtherButton

record ObservedButton =
  ob_selector :: string
  ob_text :: string
  ob_type :: ButtonKind

definition tagIs :: "string \<Rightarrow> element \<Rightarrow> bool" where
  "tagIs name e = (toLowerCase (el_tagName e) = name)"

text \<open>
  The five entries of \<^verbatim>\<open>buttonSelectors\<close>, each as the test whether an element matches:
  \<^verbatim>\<open>button\<close>, \<^verbatim>\<open>a[role="button"]\<close>, \<^verbatim>\<open>[class*="btn"]\<close>, \<^verbatim>\<open>input[type="submit"]\<close>,
  \<^verbatim>\<open>input[type="button"]\<close>.
\<close>

definition buttonSelectors :: "(element \<Rightarrow> bool) list" where
  "buttonSelectors =
     [tagIs ''button'',
      (\<lambda>e. tagIs ''a'' e \<and> el_role e = Some ''button''),
      (\<lambda>e. list_ex (\<lambda>c. strIncludes c ''btn'') (el_classList e)),
      (\<lambda>e. tagIs ''input'' e \<and> el_inputType e = Some ''submit''),
      (\<lambda>e. tagIs ''input'' e \<and> el_inputType e = Some ''button'')]"

definition isDisabled :: "element \<Rightarrow> bool" where
  "isDisabled e =
     (el_hasDisabledAttr e \<or> el_ariaDisabled e = Some ''true'' \<or> el_disabledProp e \<or>
      ''disabled'' \<in> set (el_classList e))"

definition buttonType :: "element \<Rightarrow> ButtonKind" where
  "buttonType e =
     (let text = toLowerCase (trim (el_textContent e));
          ariaLabel = toLowerCase (attrOrEmpty (el_ariaLabelAttr e)) in
      if strIncludes text ''add'' \<or> strIncludes ariaLabel ''add'' then AddButton
      else if strIncludes text ''next'' \<or> strIncludes text ''continue'' \<or>
              strIncludes text ''save and continue'' then NextButton
      else if strIncludes text ''submit'' \<or> strIncludes text ''apply'' then SubmitButton
      else OtherButton)"

text \<open>
  The body of the inner \<^verbatim>\<open>forEach\<close>: whether the element is pushed to \<^verbatim>\<open>result.buttons\<close>.
  Elements of the tool's own overlay, elements without a layout box and elements that are
  not clickable are left out, and so is a button of no known kind whose text has thirty
  characters or more.
\<close>

definition isTracked :: "element \<Rightarrow> bool" where
  "isTracked e =
     (\<not> el_inOverlay e \<and>
      (fst (el_rect e) > 0 \<and> snd (el_rect e) > 0) \<and>
      (el_pointerEvents e \<noteq> ''none'' \<and> el_opacity e \<noteq> ''0'' \<and> \<not> isDisabled e) \<and>
      (buttonType e \<noteq> OtherButton \<or> length (toLowerCase (trim (el_textContent e))) < 30))"

definition observedEntry :: "element \<Rightarrow> ObservedButton" where
  \<open>observedEntry e =
     \<lparr> ob_selector = (if el_idAttr e \<noteq> [] then ''#'' @ el_idAttr e
                       else ''button:has-text("'' @ trim (el_textContent e) @ ''")''),
       ob_text = trim (el_textContent e),
       ob_type = buttonType e \<rparr>\<close>

text \<open>The handles of the observed buttons, selector by selector, in document order.\<close>

definition observedHandles :: "page \<Rightarrow> nat list" where
  "observedHandles p =
     concat (map (\<lambda>sel. filter (\<lambda>h. sel (store p h) \<and> isTracked (store p h)) (dom p))
               buttonSelectors)"

definition observedButtons :: "page \<Rightarrow> ObservedButton list" where
  "observedButtons p = map (\<lambda>h. observedEntry (store p h)) (observedHandles p)"

subsection \<open>Actions (\<^verbatim>\<open>executeAction\<close>)\<close>

text \<open>
  \<^verbatim>\<open>AgentAction\<close> as \<^verbatim>\<open>parseActionFromText\<close> returns it: the parsed object is cast, so the
  type is whatever string the oracle wrote, and target and value may be missing.
\<close>

record AgentAction =
  a_type :: string
  a_target :: "string option"
  a_value :: "string option"
  a_reason :: string

text \<open>
  A target is spliced into selector strings between double quotes. The selectors with the
  pseudo-class \<^verbatim>\<open>:has-text\<close> are Playwright's: the selector engine looks for the target in
  the text of the element, whatever the case and after normalising white space. What it
  finds is the page's answer for the spliced string (with a double quote or a backslash in
  the target the string means something else, or nothing).
\<close>

definition buttonTextSelector :: "string \<Rightarrow> string" where
  \<open>buttonTextSelector target =
     ''button:has-text("'' @ target @ ''"), a:has-text("'' @ target @
     ''"), [role="button"]:has-text("'' @ target @ ''")''\<close>

definition ariaLabelSelector :: "string \<Rightarrow> string" where
  \<open>ariaLabelSelector target =
     ''input[aria-label*="'' @ target @ ''" i], textarea[aria-label*="'' @ target @ ''" i]''\<close>

definition labelTextSelector :: "string \<Rightarrow> string" where
  \<open>labelTextSelector target = ''label:has-text("'' @ target @ ''")''\<close>

definition optionTextSelector :: "string \<Rightarrow> string" where
  \<open>optionTextSelector v =
     ''[role="option"]:has-text("'' @ v @ ''"), li:has-text("'' @ v @ ''")''\<close>

text \<open>The first query.\<close>

definition queryButtonByText :: "string \<Rightarrow> (nat option) pageM" where
  "queryButtonByText target = pageQuery (buttonTextSelector target)"

text \<open>\<^verbatim>\<open>page.$$('button, a[role="button"], [role="button"]')\<close>: the second query.\<close>

definition allButtonsSelector :: string where
  \<open>allButtonsSelector = ''button, a[role="button"], [role="button"]''\<close>

definition roleCandidate :: "element \<Rightarrow> bool" where
  "roleCandidate e =
     (tagIs ''button'' e \<or> (tagIs ''a'' e \<and> el_role e = Some ''button'') \<or>
      el_role e = Some ''button'')"

definition queryAllButtons :: "(nat list) pageM" where
  "queryAllButtons p =
     answering (QueryAll allButtonsSelector) (filter (\<lambda>h. roleCandidate (store p h)) (dom p)) p"

text \<open>\<^verbatim>\<open>text && text.toLowerCase().includes(action.target.toLowerCase())\<close>\<close>

definition textMatches :: "string \<Rightarrow> string \<Rightarrow> bool" where
  "textMatches target text =
     (text \<noteq> [] \<and> strIncludes (toLowerCase text) (toLowerCase target))"

text \<open>The loop of the partial match, stopping at the first button whose text contains the target.\<close>

fun partialLoop :: "nat list \<Rightarrow> string \<Rightarrow> (nat option) pageM" where
  "partialLoop [] target = ret None"
| "partialLoop (h # hs) target =
     bnd (elTextContent h) (\<lambda>text.
       if textMatches target text then ret (Some h) else partialLoop hs target)"

definition elEvaluateEnabled :: "nat \<Rightarrow> bool pageM" where
  "elEvaluateEnabled h p = answering (Evaluate h) (\<not> isDisabled (store p h)) p"

text \<open>
  The list of available buttons is read for the warning only, and an error of the call is
  caught on the spot.
\<close>

definition visibleButtonsSelector :: string where
  \<open>visibleButtonsSelector =
     ''button:visible, a[role="button"]:visible, [role="button"]:visible''\<close>

definition availableButtons :: "unit pageM" where
  "availableButtons p = (Inr (), logged (QueryAll visibleButtonsSelector) p)"

text \<open>
  The block \<^verbatim>\<open>if (button) { ... }\<close>: the button is clicked only when it is enabled; a
  click that throws is caught there and gives \<^verbatim>\<open>false\<close>.
\<close>

definition pressFound :: "nat \<Rightarrow> bool pageM" where
  "pressFound h =
     bnd (elEvaluateEnabled h) (\<lambda>isEnabled.
       if \<not> isEnabled then ret False
       else catchE (bnd (elClick h) (\<lambda>u. bnd pageWait (\<lambda>w. ret True))) (\<lambda>err. ret False))"

definition clickButton :: "string \<Rightarrow> bool pageM" where
  "clickButton target =
     bnd (queryButtonByText target) (\<lambda>exact.
     bnd (case exact of
            Some h \<Rightarrow> ret (Some h)
          | None \<Rightarrow> bnd queryAllButtons (\<lambda>buttons. partialLoop buttons target)) (\<lambda>button.
       case button of
         Some h \<Rightarrow> pressFound h
       | None \<Rightarrow> bnd availableButtons (\<lambda>u. ret False)))"

text \<open>\<^verbatim>\<open>fill_field\<close>: by selector, then by \<^verbatim>\<open>aria-label\<close>, then through a label's \<^verbatim>\<open>for\<close>.\<close>

definition fillFieldAction :: "string \<Rightarrow> string \<Rightarrow> bool pageM" where
  "fillFieldAction target v =
     bnd (pageQuery target) (\<lambda>e1.
     bnd (case e1 of Some h \<Rightarrow> ret (Some h) | None \<Rightarrow> pageQuery (ariaLabelSelector target)) (\<lambda>e2.
     bnd (case e2 of
            Some h \<Rightarrow> ret (Some h)
          | None \<Rightarrow>
              bnd (pageQuery (labelTextSelector target)) (\<lambda>label.
                case label of
                  None \<Rightarrow> ret None
                | Some l \<Rightarrow>
                    bnd (elGetAttributeFor l) (\<lambda>forId.
                      if attrOrEmpty forId = [] then ret None
                      else pageQuery (''#'' @ attrOrEmpty forId)))) (\<lambda>e3.
       case e3 of
         Some h \<Rightarrow>
           bnd (elClick h) (\<lambda>u1. bnd (elFill h []) (\<lambda>u2. bnd (elFill h v) (\<lambda>u3. ret True)))
       | None \<Rightarrow> ret False)))"

text \<open>\<^verbatim>\<open>select_option\<close>: by label, and in the \<^verbatim>\<open>catch\<close> by opening the widget.\<close>

definition selectOptionAction :: "string \<Rightarrow> string \<Rightarrow> bool pageM" where
  "selectOptionAction target v =
     bnd (pageQuery target) (\<lambda>select.
       case select of
         None \<Rightarrow> ret False
       | Some h \<Rightarrow>
           catchE (bnd (elSelectLabel h v) (\<lambda>u. ret True))
                  (\<lambda>err.
                     bnd (elClick h) (\<lambda>u1.
                     bnd pageWait (\<lambda>u2.
                     bnd (pageQuery (optionTextSelector v)) (\<lambda>option.
                       case option of
                         Some oh \<Rightarrow> bnd (elClick oh) (\<lambda>u3. ret True)
                       | None \<Rightarrow> ret False)))))"

definition clickElementAction :: "string \<Rightarrow> bool pageM" where
  "clickElementAction target =
     bnd (pageQuery target) (\<lambda>found.
       case found of
         Some h \<Rightarrow> bnd (elClick h) (\<lambda>u. bnd pageWait (\<lambda>w. ret True))
       | None \<Rightarrow> ret False)"

text \<open>The \<^verbatim>\<open>switch\<close> inside the \<^verbatim>\<open>try\<close>; a missing or empty target or value is falsy.\<close>

definition executeBody :: "AgentAction \<Rightarrow> bool pageM" where
  "executeBody action =
     (let target = attrOrEmpty (a_target action); v = attrOrEmpty (a_value action) in
      if a_type action = ''fill_field'' then
        (if target = [] \<or> v = [] then ret False else fillFieldAction target v)
      else if a_type action = ''select_option'' then
        (if target = [] \<or> v = [] then ret False else selectOptionAction target v)
      else if a_type action = ''click_button'' then
        (if target = [] then ret False else clickButton target)
      else if a_type action = ''click_element'' then
        (if target = [] then ret False else clickElementAction target)
      else if a_type action = ''scroll'' then bnd pageScroll (\<lambda>u. ret True)
      else if a_type action = ''wait'' then bnd pageWait (\<lambda>u. ret True)
      else if a_type action = ''done'' \<or> a_type action = ''need_help'' then ret True
      else ret False)"

text \<open>\<^verbatim>\<open>executeAction\<close>: whatever is thrown inside is caught and gives \<^verbatim>\<open>false\<close>.\<close>

definition executeAction :: "page \<Rightarrow> AgentAction \<Rightarrow> bool \<times> page" where
  "executeAction p action =
     (case executeBody action p of (Inl err, p') \<Rightarrow> (False, p') | (Inr ok, p') \<Rightarrow> (ok, p'))"

text \<open>The clicks in the log, and the part of the log a run has added.\<close>

fun isClick :: "interaction \<Rightarrow> bool" where
  "isClick (Click h) = True"
| "isClick i = False"

definition clicksOf :: "page \<Rightarrow> interaction list" where
  "clicksOf p = filter isClick (trace p)"

subsection \<open>The loop (\<^verbatim>\<open>runFormAgent\<close>)\<close>














subsection \<open>Example page and actions\<close>

text \<open>
  A form page with an enabled \<^verbatim>\<open>Next\<close> button, a plain link \<^verbatim>\<open><a>Add to saved jobs</a>\<close>
  and a disabled \<^verbatim>\<open>Submit\<close> button. Of the selectors the examples ask only the text
  selectors of \<^verbatim>\<open>click_button\<close>, and the page answers them as the selector engine does on
  this document: \<^verbatim>\<open>Add\<close> is in the text of the link, \<^verbatim>\<open>next\<close> in that of the first
  button, \<^verbatim>\<open>submit\<close> in that of the disabled one, and \<^verbatim>\<open>Upload\<close> in none.

  Then the action \<^verbatim>\<open>click_button\<close> with target \<^verbatim>\<open>Add\<close>, which is also what
  \<^verbatim>\<open>parseActionFromText\<close> makes of a reply in prose that mentions a click and an add, and
  an oracle that asks for this action at every step.
\<close>

definition nextButton :: element where
  "nextButton =
     plainElement\<lparr> el_tagName := ''BUTTON'', el_inputType := None, el_textContent := ''Next'',
       el_classList := [''primary''] \<rparr>"

definition savedJobsLink :: element where
  "savedJobsLink =
     plainElement\<lparr> el_tagName := ''A'', el_inputType := None,
       el_textContent := ''Add to saved jobs'' \<rparr>"

definition submitButton :: element where
  "submitButton =
     plainElement\<lparr> el_tagName := ''BUTTON'', el_inputType := None, el_textContent := ''Submit'',
       el_hasDisabledAttr := True, el_disabledProp := True \<rparr>"

definition agentElements :: "nat \<Rightarrow> element" where
  "agentElements h =
     (if h = 0 then nextButton else if h = 1 then savedJobsLink else if h = 2 then submitButton
      else plainElement)"

definition agentResolve :: "string \<Rightarrow> string + nat option" where
  "agentResolve sel =
     (if sel = buttonTextSelector ''next'' then Inr (Some 0)
      else if sel = buttonTextSelector ''Add'' then Inr (Some 1)
      else if sel = buttonTextSelector ''submit'' then Inr (Some 2)
      else Inr None)"

definition agentFormPage :: page where
  "agentFormPage =
     \<lparr> resolve = agentResolve, dom = [0, 1, 2], store = agentElements,
       faults = (\<lambda>i. None), trace = [] \<rparr>"

text \<open>
  The same document behind a selector engine that finds nothing for any selector, and
  behind one that rejects every selector.
\<close>

definition unansweredPage :: page where
  "unansweredPage = agentFormPage\<lparr> resolve := (\<lambda>sel. Inr None) \<rparr>"

definition rejectingPage :: page where
  "rejectingPage = agentFormPage\<lparr> resolve := (\<lambda>sel. Inl ''Error: Unexpected token while parsing selector'') \<rparr>"

definition clickAction :: "string \<Rightarrow> AgentAction" where
  "clickAction target =
     \<lparr> a_type = ''click_button'', a_target = Some target, a_value = None,
       a_reason = ''Detected need to click Add button'' \<rparr>"




section \<open>The log leaves the page as it is\<close>

lemma store_logged: "store (logged i p) = store p"
  by (simp add: logged_def)

lemma dom_logged: "dom (logged i p) = dom p"
  by (simp add: logged_def)

lemma faults_logged: "faults (logged i p) = faults p"
  by (simp add: logged_def)

section \<open>Properties of the tracker and of tracked fills\<close>

lemma settle_attempted:
  "settle t sel v lbl mdl r = (b, t') \<Longrightarrow> attemptedSelectors t' = attemptedSelectors t"
  by (auto simp: settle_def recordFill_def recordFailure_def
      split: sum.splits fill_outcome.splits if_splits)

lemma recordFill_keeps:
  "map_of (filledFields t) s = Some r \<Longrightarrow> map_of (filledFields (recordFill t sel lbl v mdl)) s = Some r"
  by (auto simp: recordFill_def update_conv')

lemma settle_filled_keeps:
  "settle t sel v lbl mdl r = (b, t') \<Longrightarrow> map_of (filledFields t) s = Some x \<Longrightarrow>
   map_of (filledFields t') s = Some x"
  by (auto simp: settle_def recordFailure_def recordFill_keeps
      split: sum.splits fill_outcome.splits)

lemma fillTextField_gated:
  "isFieldFilled t sel \<Longrightarrow> fillTextField t p sel v lbl mdl = (False, t, p)"
  by (simp add: fillTextField_def)

lemma fillSelectField_gated:
  "isFieldFilled t sel \<Longrightarrow> fillSelectField t p sel v lbl mdl = (False, t, p)"
  by (simp add: fillSelectField_def)

lemma runCall_gated:
  "isFieldFilled t (callSelector c) \<Longrightarrow> runCall t p c = (False, t, p)"
  by (cases c) (simp_all add: fillTextField_gated fillSelectField_gated)

lemma filled_record_gates:
  "map_of (filledFields t) sel = Some r \<Longrightarrow> isFieldFilled t sel"
  by (simp add: isFieldFilled_def)

lemma runCall_settles:
  assumes "\<not> isFieldFilled t (callSelector c)" and "runCall t p c = (b, t', p')"
  obtains v lbl mdl r where "settle (markAttempted t (callSelector c)) (callSelector c) v lbl mdl r = (b, t')"
  using assms
  by (cases c) (auto simp: fillTextField_def fillSelectField_def split: prod.splits)

lemma runCall_marks:
  assumes "runCall t p c = (b, t', p')"
  shows "isFieldFilled t' (callSelector c)"
proof (cases "isFieldFilled t (callSelector c)")
  case True
  with assms show ?thesis by (simp add: runCall_gated)
next
  case False
  from runCall_settles [OF False assms] obtain v lbl mdl r
    where "settle (markAttempted t (callSelector c)) (callSelector c) v lbl mdl r = (b, t')"
    by blast
  from settle_attempted [OF this] show ?thesis
    by (simp add: isFieldFilled_def markAttempted_def)
qed

lemma runCall_filled_keeps:
  assumes "runCall t p c = (b, t', p')" and "map_of (filledFields t) s = Some x"
  shows "map_of (filledFields t') s = Some x"
proof (cases "isFieldFilled t (callSelector c)")
  case True
  with assms show ?thesis by (simp add: runCall_gated)
next
  case False
  from runCall_settles [OF False assms(1)] obtain v lbl mdl r
    where s: "settle (markAttempted t (callSelector c)) (callSelector c) v lbl mdl r = (b, t')"
    by blast
  from assms(2) have "map_of (filledFields (markAttempted t (callSelector c))) s = Some x"
    by (simp add: markAttempted_def)
  from settle_filled_keeps [OF s this] show ?thesis .
qed

lemma runCall_mono:
  assumes "runCall t p c = (b, t', p')" and "isFieldFilled t s"
  shows "isFieldFilled t' s"
proof (cases "isFieldFilled t (callSelector c)")
  case True
  with assms show ?thesis by (simp add: runCall_gated)
next
  case False
  from runCall_settles [OF False assms(1)] obtain v lbl mdl r
    where s: "settle (markAttempted t (callSelector c)) (callSelector c) v lbl mdl r = (b, t')"
    by blast
  from assms(2) consider x where "map_of (filledFields t) s = Some x" | "s \<in> attemptedSelectors t"
    by (auto simp: isFieldFilled_def)
  then show ?thesis
  proof cases
    case 1
    from runCall_filled_keeps [OF assms(1) 1] show ?thesis by (simp add: isFieldFilled_def)
  next
    case 2
    with settle_attempted [OF s] show ?thesis
      by (simp add: isFieldFilled_def markAttempted_def)
  qed
qed

lemma runCall_success_fresh:
  "runCall t p c = (True, t', p') \<Longrightarrow> \<not> isFieldFilled t (callSelector c)"
  using runCall_gated [of t c p] by auto

lemma runSession_mono:
  "runSession t p cs = (bs, t', p') \<Longrightarrow> isFieldFilled t s \<Longrightarrow> isFieldFilled t' s"
proof (induction cs arbitrary: t p bs)
  case Nil
  then show ?case by simp
next
  case (Cons c cs)
  obtain b t1 p1 where c: "runCall t p c = (b, t1, p1)" by (cases "runCall t p c") auto
  obtain bs' where rest: "runSession t1 p1 cs = (bs', t', p')"
    using Cons.prems(1) c by (auto split: prod.splits)
  from runCall_mono [OF c Cons.prems(2)] have "isFieldFilled t1 s" .
  with Cons.IH [OF rest] show ?case .
qed

lemma runSession_filled_keeps:
  "runSession t p cs = (bs, t', p') \<Longrightarrow> map_of (filledFields t) s = Some x \<Longrightarrow>
   map_of (filledFields t') s = Some x"
proof (induction cs arbitrary: t p bs)
  case Nil
  then show ?case by simp
next
  case (Cons c cs)
  obtain b t1 p1 where c: "runCall t p c = (b, t1, p1)" by (cases "runCall t p c") auto
  obtain bs' where rest: "runSession t1 p1 cs = (bs', t', p')"
    using Cons.prems(1) c by (auto split: prod.splits)
  from runCall_filled_keeps [OF c Cons.prems(2)] Cons.IH [OF rest] show ?case by blast
qed

lemma runSession_blocked:
  "runSession t p cs = (bs, t', p') \<Longrightarrow> isFieldFilled t s \<Longrightarrow> successesOn s cs bs = 0"
proof (induction cs arbitrary: t p bs)
  case Nil
  then show ?case by (simp add: successesOn_def)
next
  case (Cons c cs)
  obtain b t1 p1 where c: "runCall t p c = (b, t1, p1)" by (cases "runCall t p c") auto
  obtain bs' where rest: "runSession t1 p1 cs = (bs', t', p')" and bs: "bs = b # bs'"
    using Cons.prems(1) c by (auto split: prod.splits)
  from runCall_mono [OF c Cons.prems(2)] have "isFieldFilled t1 s" .
  from Cons.IH [OF rest this] have zero: "successesOn s cs bs' = 0" .
  have "\<not> (callSelector c = s \<and> b)"
    using c Cons.prems(2) runCall_success_fresh [of t p c t1 p1] by auto
  with zero bs show ?case by (simp add: successesOn_def)
qed

lemma runSession_at_most_once:
  "runSession t p cs = (bs, t', p') \<Longrightarrow> successesOn s cs bs \<le> 1"
proof (induction cs arbitrary: t p bs)
  case Nil
  then show ?case by (simp add: successesOn_def)
next
  case (Cons c cs)
  obtain b t1 p1 where c: "runCall t p c = (b, t1, p1)" by (cases "runCall t p c") auto
  obtain bs' where rest: "runSession t1 p1 cs = (bs', t', p')" and bs: "bs = b # bs'"
    using Cons.prems(1) c by (auto split: prod.splits)
  show ?case
  proof (cases "callSelector c = s \<and> b")
    case True
    with runCall_marks [OF c] have "isFieldFilled t1 s" by simp
    from runSession_blocked [OF rest this] True bs show ?thesis
      by (simp add: successesOn_def)
  next
    case False
    with Cons.IH [OF rest] bs show ?thesis by (auto simp: successesOn_def)
  qed
qed

text \<open>
  Claim C1. When the tracker holds a successful record for a selector, \<^verbatim>\<open>fillTextField\<close>
  and \<^verbatim>\<open>fillSelectField\<close> on that selector return \<^verbatim>\<open>false\<close> and give back the tracker and
  the page, log included, as they were: nothing is asked of the page. In a tracked session
  started from any tracker, at most one call on a given selector returns \<^verbatim>\<open>true\<close>; when
  the selector was filled before the session none does, and its record stays as it was.
\<close>

theorem tracked_fill_at_most_once:
  "(map_of (filledFields t) sel = Some r \<longrightarrow>
      fillTextField t p sel v lbl mdl = (False, t, p) \<and>
      fillSelectField t p sel v lbl mdl = (False, t, p)) \<and>
   (runSession t p cs = (bs, t', p') \<longrightarrow>
      successesOn sel cs bs \<le> 1 \<and>
      (map_of (filledFields t) sel = Some r \<longrightarrow>
         successesOn sel cs bs = 0 \<and> map_of (filledFields t') sel = Some r))"
  using filled_record_gates [of t sel r] fillTextField_gated [of t sel p v lbl mdl]
    fillSelectField_gated [of t sel p v lbl mdl] runSession_at_most_once [of t p cs bs t' p' sel]
    runSession_blocked [of t p cs bs t' p' sel] runSession_filled_keeps [of t p cs bs t' p' sel r]
  by blast

theorem tracked_fill_at_most_once_witness:
  "map_of (filledFields filledTracker) ''#first_name'' = Some firstNameRecord \<and>
   fillTextField filledTracker formPage ''#first_name'' ''Grace'' ''First Name'' ''AI'' =
     (False, filledTracker, formPage) \<and>
   fillSelectField filledTracker formPage ''#first_name'' ''Grace'' ''First Name'' ''AI'' =
     (False, filledTracker, formPage) \<and>
   fst (runSession newFormTracker formPage sessionCalls) = [False, False, True, False] \<and>
   successesOn ''#first_name'' sessionCalls (fst (runSession newFormTracker formPage sessionCalls)) \<le> 1 \<and>
   successesOn ''#first_name'' sessionCalls (fst (runSession filledTracker formPage sessionCalls)) = 0 \<and>
   map_of (filledFields (fst (snd (runSession filledTracker formPage sessionCalls)))) ''#first_name'' =
     Some firstNameRecord"
proof -
  have held: "map_of (filledFields filledTracker) ''#first_name'' = Some firstNameRecord"
    by code_simp
  have results: "fst (runSession newFormTracker formPage sessionCalls) = [False, False, True, False]"
    by code_simp
  have run: "runSession t formPage sessionCalls =
      (fst (runSession t formPage sessionCalls),
       fst (snd (runSession t formPage sessionCalls)),
       snd (snd (runSession t formPage sessionCalls)))" for t
    by simp
  note gate = tracked_fill_at_most_once
    [where t = filledTracker and sel = "''#first_name''" and r = firstNameRecord and p = formPage
       and v = "''Grace''" and lbl = "''First Name''" and mdl = "''AI''",
     THEN conjunct1, rule_format, OF held]
  note once = tracked_fill_at_most_once
    [where t = newFormTracker and sel = "''#first_name''" and p = formPage and cs = sessionCalls,
     THEN conjunct2, rule_format, OF run, THEN conjunct1]
  note kept = tracked_fill_at_most_once
    [where t = filledTracker and sel = "''#first_name''" and r = firstNameRecord and p = formPage
       and cs = sessionCalls,
     THEN conjunct2, rule_format, OF run, THEN conjunct2, rule_format, OF held]
  show ?thesis
    by (intro conjI held gate [THEN conjunct1] gate [THEN conjunct2] results once
        kept [THEN conjunct1] kept [THEN conjunct2])
qed

lemma textAttempt_queries:
  "textAttempt sel v p = (r, p') \<Longrightarrow> \<exists>rest. trace p' = trace p @ Query sel # rest"
  by (auto simp: textAttempt_def bnd_def ret_def catchE_def pageQuery_def elIsVisible_def
      elInputValue_def elClick_def elFill_def logged_def holds_def
      split: sum.splits option.splits if_splits prod.splits)

lemma selectAttempt_queries:
  "selectAttempt sel v p = (r, p') \<Longrightarrow> \<exists>rest. trace p' = trace p @ Query sel # rest"
  by (auto simp: selectAttempt_def bnd_def ret_def catchE_def pageQuery_def elSelectLabel_def
      elSelectValue_def logged_def holds_def
      split: sum.splits option.splits if_splits prod.splits)

lemma runCall_queries:
  assumes "\<not> isFieldFilled t (callSelector c)"
  shows "\<exists>rest. trace (snd (snd (runCall t p c))) = trace p @ Query (callSelector c) # rest"
proof (cases c)
  case (TextCall sel v lbl mdl)
  obtain r p' where a: "textAttempt sel v p = (r, p')" by (cases "textAttempt sel v p") auto
  from textAttempt_queries [OF a] a assms TextCall show ?thesis
    by (auto simp: fillTextField_def split: prod.splits)
next
  case (SelectCall sel v lbl mdl)
  obtain r p' where a: "selectAttempt sel v p = (r, p')" by (cases "selectAttempt sel v p") auto
  from selectAttempt_queries [OF a] a assms SelectCall show ?thesis
    by (auto simp: fillSelectField_def split: prod.splits)
qed

lemma reset_clears: "\<not> isFieldFilled (reset t) s"
  by (simp add: reset_def isFieldFilled_def)

text \<open>
  Claim C10. \<^verbatim>\<open>isFieldFilled\<close> answers for the attempted selectors as for the filled ones.
  After a fill call on a selector, whether it succeeded or not, the tracker reports the
  selector as filled, and goes on doing so through any further calls of the session; a
  later call on that selector, on whatever page, returns \<^verbatim>\<open>false\<close> and gives back tracker
  and page unchanged, so no call on it succeeds during the rest of the session. After
  \<^verbatim>\<open>reset\<close> the selector is no longer reported, and a call on it asks the page again.
\<close>

theorem attempted_selector_not_retried:
  "(isFieldFilled t s \<longleftrightarrow> map_of (filledFields t) s \<noteq> None \<or> s \<in> attemptedSelectors t) \<and>
   (runCall t p c = (b, t1, p1) \<and> runSession t1 p1 cs = (bs, t2, p2) \<and>
    callSelector c' = callSelector c \<longrightarrow>
      isFieldFilled t1 (callSelector c) \<and>
      isFieldFilled t2 (callSelector c) \<and>
      successesOn (callSelector c) cs bs = 0 \<and>
      runCall t2 p3 c' = (False, t2, p3) \<and>
      \<not> isFieldFilled (reset t2) (callSelector c) \<and>
      (\<exists>rest. trace (snd (snd (runCall (reset t2) p3 c'))) =
                trace p3 @ Query (callSelector c) # rest))"
proof -
  have main: "isFieldFilled t1 (callSelector c) \<and>
      isFieldFilled t2 (callSelector c) \<and>
      successesOn (callSelector c) cs bs = 0 \<and>
      runCall t2 p3 c' = (False, t2, p3) \<and>
      \<not> isFieldFilled (reset t2) (callSelector c) \<and>
      (\<exists>rest. trace (snd (snd (runCall (reset t2) p3 c'))) =
                trace p3 @ Query (callSelector c) # rest)"
    if first: "runCall t p c = (b, t1, p1)" and later: "runSession t1 p1 cs = (bs, t2, p2)"
      and same: "callSelector c' = callSelector c"
  proof -
    from runCall_marks [OF first] have m1: "isFieldFilled t1 (callSelector c)" .
    from runSession_mono [OF later m1] have m2: "isFieldFilled t2 (callSelector c)" .
    from runSession_blocked [OF later m1] have none: "successesOn (callSelector c) cs bs = 0" .
    from m2 same have gated: "runCall t2 p3 c' = (False, t2, p3)"
      by (simp add: runCall_gated)
    from reset_clears [of t2 "callSelector c'"] runCall_queries [of "reset t2" c' p3] same
    have again: "\<exists>rest. trace (snd (snd (runCall (reset t2) p3 c'))) =
        trace p3 @ Query (callSelector c) # rest"
      by simp
    from m1 m2 none gated again reset_clears [of t2 "callSelector c"] show ?thesis by blast
  qed
  have "isFieldFilled t s \<longleftrightarrow> map_of (filledFields t) s \<noteq> None \<or> s \<in> attemptedSelectors t"
    by (simp add: isFieldFilled_def)
  with main show ?thesis by blast
qed

theorem attempted_selector_not_retried_witness:
  "fst (runCall newFormTracker formPage (sessionCalls ! 0)) = False \<and>
   callSelector (sessionCalls ! 1) = callSelector (sessionCalls ! 0) \<and>
   isFieldFilled (fst (snd (runCall newFormTracker formPage (sessionCalls ! 0)))) ''#phone'' \<and>
   runCall (fst (snd (runCall newFormTracker formPage (sessionCalls ! 0)))) formPage (sessionCalls ! 1) =
     (False, fst (snd (runCall newFormTracker formPage (sessionCalls ! 0))), formPage) \<and>
   \<not> isFieldFilled (reset (fst (snd (runCall newFormTracker formPage (sessionCalls ! 0))))) ''#phone'' \<and>
   map_of (filledFields (fst (snd (runCall newFormTracker formPage (sessionCalls ! 0))))) ''#phone'' =
     None \<and>
   ''#phone'' \<in> attemptedSelectors (fst (snd (runCall newFormTracker formPage (sessionCalls ! 0))))"
proof -
  define t1 where "t1 = fst (snd (runCall newFormTracker formPage (sessionCalls ! 0)))"
  define p1 where "p1 = snd (snd (runCall newFormTracker formPage (sessionCalls ! 0)))"
  have failed: "fst (runCall newFormTracker formPage (sessionCalls ! 0)) = False"
    by code_simp
  have sel0: "callSelector (sessionCalls ! 0) = ''#phone''" by code_simp
  have sel1: "callSelector (sessionCalls ! 1) = callSelector (sessionCalls ! 0)" by code_simp
  have first: "runCall newFormTracker formPage (sessionCalls ! 0) = (False, t1, p1)"
    using failed by (simp add: t1_def p1_def prod_eq_iff)
  have later: "runSession t1 p1 [] = ([], t1, p1)" by simp
  from attempted_selector_not_retried
    [where t = newFormTracker and p = formPage and c = "sessionCalls ! 0" and b = False
       and ?t1.0 = t1 and ?p1.0 = p1 and cs = "[]" and bs = "[]" and ?t2.0 = t1 and ?p2.0 = p1
       and c' = "sessionCalls ! 1" and ?p3.0 = formPage]
    first later sel1
  have "isFieldFilled t1 (callSelector (sessionCalls ! 0)) \<and>
        runCall t1 formPage (sessionCalls ! 1) = (False, t1, formPage) \<and>
        \<not> isFieldFilled (reset t1) (callSelector (sessionCalls ! 0))"
    by blast
  moreover have "map_of (filledFields t1) ''#phone'' = None"
    unfolding t1_def by code_simp
  moreover from attempted_selector_not_retried [where t = t1 and s = "''#phone''"] calculation sel0
  have "''#phone'' \<in> attemptedSelectors t1"
    by simp
  ultimately show ?thesis using failed sel0 sel1 by (simp add: t1_def)
qed

section \<open>What a fill attempt records\<close>

lemma recordFailure_contents:
  "map_of (failedFields (recordFailure t sel lbl reason mdl)) sel =
     Some \<lparr> fi_label = orElse lbl sel, fi_reason = reason \<rparr> \<and>
   filledFields (recordFailure t sel lbl reason mdl) = filledFields t"
  by (simp add: recordFailure_def update_conv')

lemma recordFill_contents:
  assumes "map_of (filledFields t) sel = None"
  shows "map_of (filledFields (recordFill t sel lbl v mdl)) sel =
           Some \<lparr> fr_selector = sel, fr_label = orElse lbl sel, fr_value = truncateValue v,
                  fr_success = True, fr_module = mdl \<rparr> \<and>
         getFilledCount (recordFill t sel lbl v mdl) = getFilledCount t + 1 \<and>
         failedFields (recordFill t sel lbl v mdl) = failedFields t"
proof -
  from assms have "sel \<notin> set (map fst (filledFields t))"
    by (simp add: map_of_eq_None_iff)
  then have "length (AList.update sel x (filledFields t)) = length (filledFields t) + 1" for x
    using update_keys [of sel x "filledFields t"]
    by (metis length_append_singleton length_map Suc_eq_plus1)
  with assms show ?thesis
    by (simp add: recordFill_def update_conv' getFilledCount_def)
qed

lemma settle_cases:
  "settle t sel v lbl mdl r = (b, t') \<Longrightarrow>
   (b \<and> t' = recordFill t sel lbl v mdl) \<or>
   (\<not> b \<and> (\<exists>reason. t' = recordFailure t sel lbl reason mdl)) \<or>
   (\<not> b \<and> t' = t)"
  by (auto simp: settle_def split: sum.splits fill_outcome.splits)

lemma runCall_one_record:
  assumes "\<not> isFieldFilled t (callSelector c)" and "runCall t p c = (b, t', p')"
  shows "(b \<and> (\<exists>v lbl mdl. t' = recordFill (markAttempted t (callSelector c)) (callSelector c) lbl v mdl)) \<or>
         (\<not> b \<and> (\<exists>lbl reason mdl.
                    t' = recordFailure (markAttempted t (callSelector c)) (callSelector c) lbl reason mdl)) \<or>
         (\<not> b \<and> t' = markAttempted t (callSelector c))"
proof -
  from runCall_settles [OF assms] obtain v lbl mdl r
    where "settle (markAttempted t (callSelector c)) (callSelector c) v lbl mdl r = (b, t')"
    by blast
  from settle_cases [OF this] show ?thesis by blast
qed

lemma textAttempt_thrown:
  "resolve p sel = Inl err \<Longrightarrow> fst (textAttempt sel v p) = Inl err"
  by (simp add: textAttempt_def bnd_def pageQuery_def)

lemma textAttempt_not_found:
  "resolve p sel = Inr None \<Longrightarrow> fst (textAttempt sel v p) = Inr NotFound"
  by (simp add: textAttempt_def bnd_def pageQuery_def ret_def)

lemma textAttempt_not_visible:
  "resolve p sel = Inr (Some h) \<Longrightarrow> el_isVisible (store p h) = Inr False \<Longrightarrow>
   fst (textAttempt sel v p) = Inr NotVisible"
  by (simp add: textAttempt_def bnd_def pageQuery_def ret_def elIsVisible_def logged_def)

lemma textAttempt_already_correct:
  "resolve p sel = Inr (Some h) \<Longrightarrow> el_isVisible (store p h) = Inr True \<Longrightarrow>
   currentValue (store p h) = v \<Longrightarrow> fst (textAttempt sel v p) = Inr AlreadyCorrect"
  by (cases "el_inputValue (store p h)")
     (simp_all add: textAttempt_def bnd_def catchE_def pageQuery_def ret_def elIsVisible_def
        elInputValue_def logged_def currentValue_def)

lemma textAttempt_click_throws:
  "resolve p sel = Inr (Some h) \<Longrightarrow> el_isVisible (store p h) = Inr True \<Longrightarrow>
   currentValue (store p h) \<noteq> v \<Longrightarrow> el_click (store p h) = Some err \<Longrightarrow>
   fst (textAttempt sel v p) = Inl err"
  by (cases "el_inputValue (store p h)")
     (simp_all add: textAttempt_def bnd_def catchE_def pageQuery_def ret_def elIsVisible_def
        elInputValue_def elClick_def logged_def currentValue_def)

lemma textAttempt_assigned:
  "resolve p sel = Inr (Some h) \<Longrightarrow> el_isVisible (store p h) = Inr True \<Longrightarrow>
   currentValue (store p h) \<noteq> v \<Longrightarrow> el_click (store p h) = None \<Longrightarrow>
   el_fill (store p h) [] = Inr a \<Longrightarrow> el_fill (store p h) v = Inr after \<Longrightarrow>
   fst (textAttempt sel v p) = Inr Filled \<and>
   el_inputValue (store (snd (textAttempt sel v p)) h) = Inr after \<and>
   trace (snd (textAttempt sel v p)) =
     trace p @ [Query sel, IsVisible h, InputValue h, Click h, Fill h [], Fill h v]"
  by (cases "el_inputValue (store p h)")
     (simp_all add: textAttempt_def bnd_def catchE_def pageQuery_def ret_def elIsVisible_def
        elInputValue_def elClick_def elFill_def logged_def holds_def currentValue_def)

lemma selectAttempt_thrown:
  "resolve p sel = Inl err \<Longrightarrow> fst (selectAttempt sel v p) = Inl err"
  by (simp add: selectAttempt_def bnd_def pageQuery_def)

lemma selectAttempt_not_found:
  "resolve p sel = Inr None \<Longrightarrow> fst (selectAttempt sel v p) = Inr NotFound"
  by (simp add: selectAttempt_def bnd_def pageQuery_def ret_def)

lemma fillTextField_result:
  "\<not> isFieldFilled t sel \<Longrightarrow>
   fillTextField t p sel v lbl mdl =
     (fst (settle (markAttempted t sel) sel v lbl mdl (fst (textAttempt sel v p))),
      snd (settle (markAttempted t sel) sel v lbl mdl (fst (textAttempt sel v p))),
      snd (textAttempt sel v p))"
  by (simp add: fillTextField_def split: prod.splits)

lemma fillSelectField_result:
  "\<not> isFieldFilled t sel \<Longrightarrow>
   fillSelectField t p sel v lbl mdl =
     (fst (settle (markAttempted t sel) sel v lbl mdl (fst (selectAttempt sel v p))),
      snd (settle (markAttempted t sel) sel v lbl mdl (fst (selectAttempt sel v p))),
      snd (selectAttempt sel v p))"
  by (simp add: fillSelectField_def split: prod.splits)

lemma fill_not_found:
  assumes "\<not> isFieldFilled t sel" and "resolve p sel = Inr None"
  shows "fst (fillTextField t p sel v lbl mdl) = False \<and>
         fst (snd (fillTextField t p sel v lbl mdl)) =
           recordFailure (markAttempted t sel) sel lbl ''Element not found'' mdl \<and>
         fst (fillSelectField t p sel v lbl mdl) = False \<and>
         fst (snd (fillSelectField t p sel v lbl mdl)) =
           recordFailure (markAttempted t sel) sel lbl ''Element not found'' mdl"
  by (simp add: fillTextField_result [OF assms(1)] fillSelectField_result [OF assms(1)]
      textAttempt_not_found [OF assms(2)] selectAttempt_not_found [OF assms(2)] settle_def)

lemma fill_thrown:
  assumes "\<not> isFieldFilled t sel" and "resolve p sel = Inl err"
  shows "fst (fillTextField t p sel v lbl mdl) = False \<and>
         fst (snd (fillTextField t p sel v lbl mdl)) =
           recordFailure (markAttempted t sel) sel lbl err mdl \<and>
         fst (fillSelectField t p sel v lbl mdl) = False \<and>
         fst (snd (fillSelectField t p sel v lbl mdl)) =
           recordFailure (markAttempted t sel) sel lbl err mdl"
  by (simp add: fillTextField_result [OF assms(1)] fillSelectField_result [OF assms(1)]
      textAttempt_thrown [OF assms(2)] selectAttempt_thrown [OF assms(2)] settle_def)

lemma fill_not_visible:
  assumes "\<not> isFieldFilled t sel" and "resolve p sel = Inr (Some h)"
    and "el_isVisible (store p h) = Inr False"
  shows "fst (fillTextField t p sel v lbl mdl) = False \<and>
         fst (snd (fillTextField t p sel v lbl mdl)) =
           recordFailure (markAttempted t sel) sel lbl ''Element not visible'' mdl"
  by (simp add: fillTextField_result [OF assms(1)] textAttempt_not_visible [OF assms(2,3)]
      settle_def)

lemma fill_click_throws:
  assumes "\<not> isFieldFilled t sel" and "resolve p sel = Inr (Some h)"
    and "el_isVisible (store p h) = Inr True" and "currentValue (store p h) \<noteq> v"
    and "el_click (store p h) = Some err"
  shows "fst (fillTextField t p sel v lbl mdl) = False \<and>
         fst (snd (fillTextField t p sel v lbl mdl)) =
           recordFailure (markAttempted t sel) sel lbl err mdl"
  by (simp add: fillTextField_result [OF assms(1)] textAttempt_click_throws [OF assms(2-5)]
      settle_def)

lemma fill_already_correct:
  assumes "\<not> isFieldFilled t sel" and "resolve p sel = Inr (Some h)"
    and "el_isVisible (store p h) = Inr True" and "currentValue (store p h) = v"
  shows "fst (fillTextField t p sel v lbl mdl) = False \<and>
         fst (snd (fillTextField t p sel v lbl mdl)) = markAttempted t sel"
  by (simp add: fillTextField_result [OF assms(1)] textAttempt_already_correct [OF assms(2-4)]
      settle_def)

lemma fill_assigned:
  assumes "\<not> isFieldFilled t sel" and "resolve p sel = Inr (Some h)"
    and "el_isVisible (store p h) = Inr True" and "currentValue (store p h) \<noteq> v"
    and "el_click (store p h) = None"
    and "el_fill (store p h) [] = Inr a" and "el_fill (store p h) v = Inr after"
  shows "fst (fillTextField t p sel v lbl mdl) = True \<and>
         fst (snd (fillTextField t p sel v lbl mdl)) =
           recordFill (markAttempted t sel) sel lbl v mdl \<and>
         el_inputValue (store (snd (snd (fillTextField t p sel v lbl mdl))) h) = Inr after \<and>
         trace (snd (snd (fillTextField t p sel v lbl mdl))) =
           trace p @ [Query sel, IsVisible h, InputValue h, Click h, Fill h [], Fill h v]"
  using textAttempt_assigned [OF assms(2-7)]
  by (simp add: fillTextField_result [OF assms(1)] settle_def)

lemma textAttempt_visibility_throws:
  "resolve p sel = Inr (Some h) \<Longrightarrow> el_isVisible (store p h) = Inl err \<Longrightarrow>
   fst (textAttempt sel v p) = Inl err"
  by (simp add: textAttempt_def bnd_def pageQuery_def elIsVisible_def logged_def)

lemma textAttempt_fill_throws:
  "resolve p sel = Inr (Some h) \<Longrightarrow> el_isVisible (store p h) = Inr True \<Longrightarrow>
   currentValue (store p h) \<noteq> v \<Longrightarrow> el_click (store p h) = None \<Longrightarrow>
   el_fill (store p h) [] = Inl err \<or> (el_fill (store p h) [] = Inr a \<and> el_fill (store p h) v = Inl err) \<Longrightarrow>
   fst (textAttempt sel v p) = Inl err"
  by (cases "el_inputValue (store p h)")
     (auto simp: textAttempt_def bnd_def catchE_def pageQuery_def ret_def elIsVisible_def
        elInputValue_def elClick_def elFill_def logged_def holds_def currentValue_def)

lemma fill_visibility_throws:
  assumes "\<not> isFieldFilled t sel" and "resolve p sel = Inr (Some h)"
    and "el_isVisible (store p h) = Inl err"
  shows "fst (fillTextField t p sel v lbl mdl) = False \<and>
         fst (snd (fillTextField t p sel v lbl mdl)) =
           recordFailure (markAttempted t sel) sel lbl err mdl"
  by (simp add: fillTextField_result [OF assms(1)] textAttempt_visibility_throws [OF assms(2,3)]
      settle_def)

lemma fill_fill_throws:
  assumes "\<not> isFieldFilled t sel" and "resolve p sel = Inr (Some h)"
    and "el_isVisible (store p h) = Inr True" and "currentValue (store p h) \<noteq> v"
    and "el_click (store p h) = None"
    and "el_fill (store p h) [] = Inl err \<or>
         (el_fill (store p h) [] = Inr a \<and> el_fill (store p h) v = Inl err)"
  shows "fst (fillTextField t p sel v lbl mdl) = False \<and>
         fst (snd (fillTextField t p sel v lbl mdl)) =
           recordFailure (markAttempted t sel) sel lbl err mdl"
  by (simp add: fillTextField_result [OF assms(1)] textAttempt_fill_throws [OF assms(2-6)]
      settle_def)

lemma selectAttempt_by_label:
  "resolve p sel = Inr (Some h) \<Longrightarrow> el_selectLabel (store p h) v = Inr after \<Longrightarrow>
   fst (selectAttempt sel v p) = Inr Filled \<and>
   el_inputValue (store (snd (selectAttempt sel v p)) h) = Inr after \<and>
   trace (snd (selectAttempt sel v p)) = trace p @ [Query sel, SelectLabel h v]"
  by (simp add: selectAttempt_def bnd_def catchE_def pageQuery_def ret_def elSelectLabel_def
      logged_def holds_def)

lemma selectAttempt_by_value:
  "resolve p sel = Inr (Some h) \<Longrightarrow> el_selectLabel (store p h) v = Inl e \<Longrightarrow>
   el_selectValue (store p h) v = Inr after \<Longrightarrow>
   fst (selectAttempt sel v p) = Inr Filled \<and>
   el_inputValue (store (snd (selectAttempt sel v p)) h) = Inr after \<and>
   trace (snd (selectAttempt sel v p)) = trace p @ [Query sel, SelectLabel h v, SelectValue h v]"
  by (simp add: selectAttempt_def bnd_def catchE_def pageQuery_def ret_def elSelectLabel_def
      elSelectValue_def logged_def holds_def)

lemma selectAttempt_no_option:
  "resolve p sel = Inr (Some h) \<Longrightarrow> el_selectLabel (store p h) v = Inl e \<Longrightarrow>
   el_selectValue (store p h) v = Inl err \<Longrightarrow>
   fst (selectAttempt sel v p) = Inl err \<and>
   el_inputValue (store (snd (selectAttempt sel v p)) h) = el_inputValue (store p h) \<and>
   trace (snd (selectAttempt sel v p)) = trace p @ [Query sel, SelectLabel h v, SelectValue h v]"
  by (simp add: selectAttempt_def bnd_def catchE_def pageQuery_def ret_def elSelectLabel_def
      elSelectValue_def logged_def holds_def)

lemma select_by_label:
  assumes "\<not> isFieldFilled t sel" and "resolve p sel = Inr (Some h)"
    and "el_selectLabel (store p h) v = Inr after"
  shows "fst (fillSelectField t p sel v lbl mdl) = True \<and>
         fst (snd (fillSelectField t p sel v lbl mdl)) =
           recordFill (markAttempted t sel) sel lbl v mdl \<and>
         el_inputValue (store (snd (snd (fillSelectField t p sel v lbl mdl))) h) = Inr after \<and>
         trace (snd (snd (fillSelectField t p sel v lbl mdl))) =
           trace p @ [Query sel, SelectLabel h v]"
  using selectAttempt_by_label [OF assms(2,3)]
  by (simp add: fillSelectField_result [OF assms(1)] settle_def)

lemma select_by_value:
  assumes "\<not> isFieldFilled t sel" and "resolve p sel = Inr (Some h)"
    and "el_selectLabel (store p h) v = Inl e" and "el_selectValue (store p h) v = Inr after"
  shows "fst (fillSelectField t p sel v lbl mdl) = True \<and>
         fst (snd (fillSelectField t p sel v lbl mdl)) =
           recordFill (markAttempted t sel) sel lbl v mdl \<and>
         el_inputValue (store (snd (snd (fillSelectField t p sel v lbl mdl))) h) = Inr after \<and>
         trace (snd (snd (fillSelectField t p sel v lbl mdl))) =
           trace p @ [Query sel, SelectLabel h v, SelectValue h v]"
  using selectAttempt_by_value [OF assms(2-4)]
  by (simp add: fillSelectField_result [OF assms(1)] settle_def)

lemma select_no_option:
  assumes "\<not> isFieldFilled t sel" and "resolve p sel = Inr (Some h)"
    and "el_selectLabel (store p h) v = Inl e" and "el_selectValue (store p h) v = Inl err"
  shows "fst (fillSelectField t p sel v lbl mdl) = False \<and>
         fst (snd (fillSelectField t p sel v lbl mdl)) =
           recordFailure (markAttempted t sel) sel lbl err mdl \<and>
         el_inputValue (store (snd (snd (fillSelectField t p sel v lbl mdl))) h) =
           el_inputValue (store p h) \<and>
         trace (snd (snd (fillSelectField t p sel v lbl mdl))) =
           trace p @ [Query sel, SelectLabel h v, SelectValue h v]"
  using selectAttempt_no_option [OF assms(2-4)]
  by (simp add: fillSelectField_result [OF assms(1)] settle_def)

section \<open>The basic-field pass goes on after a failed field\<close>

lemma sameLookups_refl: "sameLookups p p"
  by (simp add: sameLookups_def)

lemma sameLookups_trans: "sameLookups p q \<Longrightarrow> sameLookups q r \<Longrightarrow> sameLookups p r"
  by (simp add: sameLookups_def)

lemma sameLookups_logged: "sameLookups p (logged i p)"
  by (simp add: sameLookups_def logged_def)

lemma sameLookups_holds: "sameLookups p (holds h v p)"
  by (simp add: sameLookups_def holds_def)

lemma lookupsAnswer_same: "sameLookups p p' \<Longrightarrow> lookupsAnswer p \<Longrightarrow> lookupsAnswer p'"
  by (simp add: sameLookups_def lookupsAnswer_def)

lemma keeps_ret: "keeps (ret x)"
  by (simp add: keeps_def ret_def sameLookups_refl)

lemma keeps_bnd:
  assumes "keeps m" and "\<And>x. keeps (f x)"
  shows "keeps (bnd m f)"
  unfolding keeps_def
proof (intro allI impI)
  fix p r p'
  assume run: "bnd m f p = (r, p')"
  obtain r1 p1 where m: "m p = (r1, p1)" by (cases "m p") auto
  from assms(1) m have s1: "sameLookups p p1" by (auto simp: keeps_def)
  show "sameLookups p p'"
  proof (cases r1)
    case (Inl err)
    with run m have "p' = p1" by (simp add: bnd_def)
    with s1 show ?thesis by simp
  next
    case (Inr x)
    with run m have "f x p1 = (r, p')" by (simp add: bnd_def)
    with assms(2) [of x] have "sameLookups p1 p'" by (auto simp: keeps_def)
    with s1 show ?thesis by (rule sameLookups_trans)
  qed
qed

lemma keeps_catchE:
  assumes "keeps m" and "\<And>err. keeps (f err)"
  shows "keeps (catchE m f)"
  unfolding keeps_def
proof (intro allI impI)
  fix p r p'
  assume run: "catchE m f p = (r, p')"
  obtain r1 p1 where m: "m p = (r1, p1)" by (cases "m p") auto
  from assms(1) m have s1: "sameLookups p p1" by (auto simp: keeps_def)
  show "sameLookups p p'"
  proof (cases r1)
    case (Inr x)
    with run m have "p' = p1" by (simp add: catchE_def)
    with s1 show ?thesis by simp
  next
    case (Inl err)
    with run m have "f err p1 = (r, p')" by (simp add: catchE_def)
    with assms(2) [of err] have "sameLookups p1 p'" by (auto simp: keeps_def)
    with s1 show ?thesis by (rule sameLookups_trans)
  qed
qed

lemma keeps_pageQuery: "keeps (pageQuery sel)"
  by (auto simp: keeps_def pageQuery_def sameLookups_logged)

lemma keeps_elIsVisible: "keeps (elIsVisible h)"
  by (auto simp: keeps_def elIsVisible_def sameLookups_logged)

lemma keeps_elInputValue: "keeps (elInputValue h)"
  by (auto simp: keeps_def elInputValue_def sameLookups_logged)

lemma keeps_elTagName: "keeps (elTagName h)"
  by (auto simp: keeps_def elTagName_def answering_def sameLookups_logged)

lemma keeps_elClick: "keeps (elClick h)"
  by (auto simp: keeps_def elClick_def sameLookups_logged)

lemma sameLookups_holds_logged: "sameLookups p (holds h v (logged i p))"
  using sameLookups_trans [OF sameLookups_logged sameLookups_holds] .

lemma keeps_elFill: "keeps (elFill h v)"
  by (auto simp: keeps_def elFill_def sameLookups_logged sameLookups_holds_logged
      split: sum.splits)

lemma keeps_elSelectLabel: "keeps (elSelectLabel h v)"
  by (auto simp: keeps_def elSelectLabel_def sameLookups_logged sameLookups_holds_logged
      split: sum.splits)

lemma keeps_elSelectValue: "keeps (elSelectValue h v)"
  by (auto simp: keeps_def elSelectValue_def sameLookups_logged sameLookups_holds_logged
      split: sum.splits)

lemma keeps_textAttempt: "keeps (textAttempt sel v)"
  unfolding textAttempt_def
  by (intro keeps_bnd keeps_pageQuery)
     (auto split: option.splits
       intro!: keeps_ret keeps_bnd keeps_catchE keeps_elIsVisible keeps_elInputValue
         keeps_elClick keeps_elFill)

lemma keeps_selectAttempt: "keeps (selectAttempt sel v)"
  unfolding selectAttempt_def
  by (intro keeps_bnd keeps_pageQuery)
     (auto split: option.splits
       intro!: keeps_ret keeps_bnd keeps_catchE keeps_elSelectLabel keeps_elSelectValue)

lemma fillTextField_sameLookups:
  "fillTextField t p sel v lbl mdl = (b, t', p') \<Longrightarrow> sameLookups p p'"
  using keeps_textAttempt [of sel v]
  by (auto simp: fillTextField_def keeps_def sameLookups_refl split: if_splits prod.splits)

lemma fillSelectField_sameLookups:
  "fillSelectField t p sel v lbl mdl = (b, t', p') \<Longrightarrow> sameLookups p p'"
  using keeps_selectAttempt [of sel v]
  by (auto simp: fillSelectField_def keeps_def sameLookups_refl split: if_splits prod.splits)

lemma isLive_same: "sameLookups p p' \<Longrightarrow> isLive p' = isLive p"
  by (auto simp: sameLookups_def isLive_def fun_eq_iff split: sum.splits option.splits)

lemma fillTextField_mono:
  "fillTextField t p sel v lbl mdl = (b, t', p') \<Longrightarrow> isFieldFilled t s \<Longrightarrow> isFieldFilled t' s"
  using runCall_mono [of t p "TextCall sel v lbl mdl" b t' p' s] by simp

lemma fillSelectField_mono:
  "fillSelectField t p sel v lbl mdl = (b, t', p') \<Longrightarrow> isFieldFilled t s \<Longrightarrow> isFieldFilled t' s"
  using runCall_mono [of t p "SelectCall sel v lbl mdl" b t' p' s] by simp

lemma fillTextField_marks:
  "fillTextField t p sel v lbl mdl = (b, t', p') \<Longrightarrow> isFieldFilled t' sel"
  using runCall_marks [of t p "TextCall sel v lbl mdl" b t' p'] by simp

lemma fillSelectField_marks:
  "fillSelectField t p sel v lbl mdl = (b, t', p') \<Longrightarrow> isFieldFilled t' sel"
  using runCall_marks [of t p "SelectCall sel v lbl mdl" b t' p'] by simp

lemma selectorLoop_completes:
  "lookupsAnswer p \<Longrightarrow>
   fst (selectorLoop t p v lbl sels) = None \<and> lookupsAnswer (snd (snd (selectorLoop t p v lbl sels)))"
proof (induction sels arbitrary: t p)
  case Nil
  then show ?case by simp
next
  case (Cons sel sels)
  from Cons.prems obtain found where q: "resolve p sel = Inr found"
    unfolding lookupsAnswer_def by blast
  let ?p1 = "logged (Query sel) p"
  have a1: "lookupsAnswer ?p1"
    using lookupsAnswer_same [OF sameLookups_logged Cons.prems] .
  show ?case
  proof (cases found)
    case None
    with q Cons.IH [OF a1] show ?thesis by (simp add: pageQuery_def)
  next
    case (Some h)
    from a1 obtain vis where v: "el_isVisible (store ?p1 h) = Inr vis"
      unfolding lookupsAnswer_def by blast
    let ?p2 = "logged (IsVisible h) ?p1"
    have a2: "lookupsAnswer ?p2"
      using lookupsAnswer_same [OF sameLookups_logged a1] .
    show ?thesis
    proof (cases vis)
      case False
      with q Some v Cons.IH [OF a2] show ?thesis
        by (simp add: pageQuery_def elIsVisible_def)
    next
      case True
      let ?p3 = "logged (TagName h) ?p2"
      let ?tag = "toLowerCase (el_tagName (store ?p2 h))"
      have a3: "lookupsAnswer ?p3"
        using lookupsAnswer_same [OF sameLookups_logged a2] .
      let ?call = "if ?tag = ''select''
                   then fillSelectField t ?p3 sel v lbl ''BasicFields''
                   else fillTextField t ?p3 sel v lbl ''BasicFields''"
      obtain b t' p4 where c: "?call = (b, t', p4)" by (cases ?call) auto
      then have "sameLookups ?p3 p4"
        using fillTextField_sameLookups fillSelectField_sameLookups
        by (auto split: if_splits)
      from lookupsAnswer_same [OF this a3] have a4: "lookupsAnswer p4" .
      have tg: "elTagName h ?p2 = (Inr ?tag, ?p3)"
        using a2 by (simp add: elTagName_def answering_def lookupsAnswer_def)
      have unfold: "selectorLoop t p v lbl (sel # sels) =
          (if b then (None, t', p4) else selectorLoop t' p4 v lbl sels)"
        using q Some v True c tg by (simp add: pageQuery_def elIsVisible_def)
      show ?thesis
      proof (cases b)
        case True
        with unfold a4 show ?thesis by simp
      next
        case False
        with unfold Cons.IH [OF a4] show ?thesis by simp
      qed
    qed
  qed
qed

lemma basicFieldsLoop_completes:
  "lookupsAnswer p \<Longrightarrow> fst (basicFieldsLoop t p fs) = None"
proof (induction fs arbitrary: t p)
  case Nil
  then show ?case by simp
next
  case (Cons f fs)
  show ?case
  proof (cases "attrOrEmpty (bf_value f) = []")
    case True
    with Cons show ?thesis by simp
  next
    case False
    let ?r = "selectorLoop t p (attrOrEmpty (bf_value f)) (bf_label f) (bf_selectors f)"
    from selectorLoop_completes [OF Cons.prems]
    have "fst ?r = None" and ans: "lookupsAnswer (snd (snd ?r))" by blast+
    then obtain t' p' where r: "?r = (None, t', p')" by (cases ?r) auto
    with ans have "lookupsAnswer p'" by simp
    from Cons.IH [OF this] r False show ?thesis by simp
  qed
qed

lemma autofillBasicFields_completes:
  "lookupsAnswer p \<Longrightarrow> fst (autofillBasicFields t p fs) = None"
  by (simp add: autofillBasicFields_def basicFieldsLoop_completes)

lemma selectorLoop_run:
  "lookupsAnswer p \<Longrightarrow>
   fst (selectorLoop t p v lbl sels) = None \<and>
   sameLookups p (snd (snd (selectorLoop t p v lbl sels))) \<and>
   (\<forall>s. isFieldFilled t s \<longrightarrow> isFieldFilled (fst (snd (selectorLoop t p v lbl sels))) s) \<and>
   (\<forall>sel. find (isLive p) sels = Some sel \<longrightarrow>
      isFieldFilled (fst (snd (selectorLoop t p v lbl sels))) sel)"
proof (induction sels arbitrary: t p)
  case Nil
  then show ?case by (simp add: sameLookups_refl)
next
  case (Cons sel sels)
  from Cons.prems obtain found where q: "resolve p sel = Inr found"
    unfolding lookupsAnswer_def by blast
  let ?p1 = "logged (Query sel) p"
  have s1: "sameLookups p ?p1" by (rule sameLookups_logged)
  have a1: "lookupsAnswer ?p1"
    using lookupsAnswer_same [OF s1 Cons.prems] .
  show ?case
  proof (cases found)
    case None
    with q have dead: "\<not> isLive p sel" by (simp add: isLive_def)
    from q None have step: "selectorLoop t p v lbl (sel # sels) = selectorLoop t ?p1 v lbl sels"
      by (simp add: pageQuery_def)
    from Cons.IH [OF a1, of t] s1 dead isLive_same [OF s1] show ?thesis
      unfolding step by (auto intro: sameLookups_trans)
  next
    case (Some h)
    from a1 obtain vis where v: "el_isVisible (store ?p1 h) = Inr vis"
      unfolding lookupsAnswer_def by blast
    then have v0: "el_isVisible (store p h) = Inr vis" by (simp add: store_logged)
    let ?p2 = "logged (IsVisible h) ?p1"
    have s2: "sameLookups p ?p2"
      using sameLookups_trans [OF s1 sameLookups_logged] .
    have a2: "lookupsAnswer ?p2"
      using lookupsAnswer_same [OF s2 Cons.prems] .
    show ?thesis
    proof (cases vis)
      case False
      with q Some v0 have dead: "\<not> isLive p sel" by (simp add: isLive_def)
      from q Some v False
      have step: "selectorLoop t p v lbl (sel # sels) = selectorLoop t ?p2 v lbl sels"
        by (simp add: pageQuery_def elIsVisible_def)
      from Cons.IH [OF a2, of t] s2 dead isLive_same [OF s2] show ?thesis
        unfolding step by (auto intro: sameLookups_trans)
    next
      case True
      with q Some v0 have live: "isLive p sel" by (simp add: isLive_def)
      let ?p3 = "logged (TagName h) ?p2"
      let ?tag = "toLowerCase (el_tagName (store ?p2 h))"
      have s3: "sameLookups p ?p3"
        using sameLookups_trans [OF s2 sameLookups_logged] .
      let ?call = "if ?tag = ''select''
                   then fillSelectField t ?p3 sel v lbl ''BasicFields''
                   else fillTextField t ?p3 sel v lbl ''BasicFields''"
      obtain b t' p4 where c: "?call = (b, t', p4)" by (cases ?call) auto
      then have "sameLookups ?p3 p4"
        using fillTextField_sameLookups fillSelectField_sameLookups
        by (auto split: if_splits)
      with s3 have s4: "sameLookups p p4" by (rule sameLookups_trans)
      from lookupsAnswer_same [OF s4 Cons.prems] have a4: "lookupsAnswer p4" .
      from c have marked: "isFieldFilled t' sel"
        using fillTextField_marks fillSelectField_marks by (auto split: if_splits)
      from c have mono: "isFieldFilled t s \<Longrightarrow> isFieldFilled t' s" for s
        using fillTextField_mono fillSelectField_mono by (auto split: if_splits)
      have tg: "elTagName h ?p2 = (Inr ?tag, ?p3)"
        using a2 by (simp add: elTagName_def answering_def lookupsAnswer_def)
      have step: "selectorLoop t p v lbl (sel # sels) =
          (if b then (None, t', p4) else selectorLoop t' p4 v lbl sels)"
        using q Some v True c tg by (simp add: pageQuery_def elIsVisible_def)
      show ?thesis
      proof (cases b)
        case True
        with s4 marked mono live show ?thesis unfolding step by simp
      next
        case False
        with Cons.IH [OF a4, of t'] s4 marked mono live show ?thesis
          unfolding step by (auto intro: sameLookups_trans)
      qed
    qed
  qed
qed

lemma basicFieldsLoop_run:
  "lookupsAnswer p \<Longrightarrow>
   fst (basicFieldsLoop t p fs) = None \<and>
   (\<forall>s. isFieldFilled t s \<longrightarrow> isFieldFilled (fst (snd (basicFieldsLoop t p fs))) s) \<and>
   (\<forall>f \<in> set fs. attrOrEmpty (bf_value f) \<noteq> [] \<longrightarrow>
      (\<forall>sel. find (isLive p) (bf_selectors f) = Some sel \<longrightarrow>
         isFieldFilled (fst (snd (basicFieldsLoop t p fs))) sel))"
proof (induction fs arbitrary: t p)
  case Nil
  then show ?case by simp
next
  case (Cons g fs)
  show ?case
  proof (cases "attrOrEmpty (bf_value g) = []")
    case True
    with Cons.IH [OF Cons.prems, of t] show ?thesis by auto
  next
    case False
    let ?r = "selectorLoop t p (attrOrEmpty (bf_value g)) (bf_label g) (bf_selectors g)"
    obtain e t' p' where r: "?r = (e, t', p')" by (cases ?r) auto
    from selectorLoop_run [OF Cons.prems, of t "attrOrEmpty (bf_value g)" "bf_label g"
        "bf_selectors g"] r
    have e: "e = None" and same: "sameLookups p p'"
      and mono: "\<And>s. isFieldFilled t s \<Longrightarrow> isFieldFilled t' s"
      and live: "\<And>sel. find (isLive p) (bf_selectors g) = Some sel \<Longrightarrow> isFieldFilled t' sel"
      by simp_all
    from lookupsAnswer_same [OF same Cons.prems] have ans: "lookupsAnswer p'" .
    from r e False have step: "basicFieldsLoop t p (g # fs) = basicFieldsLoop t' p' fs"
      by simp
    from Cons.IH [OF ans, of t'] mono live isLive_same [OF same] show ?thesis
      unfolding step by auto
  qed
qed

lemma autofillBasicFields_run:
  "lookupsAnswer p \<Longrightarrow>
   fst (autofillBasicFields t p fs) = None \<and>
   (\<forall>f \<in> set fs. attrOrEmpty (bf_value f) \<noteq> [] \<longrightarrow>
      (\<forall>sel. find (isLive p) (bf_selectors f) = Some sel \<longrightarrow>
         isFieldFilled (fst (snd (autofillBasicFields t p fs))) sel))"
  using basicFieldsLoop_run [of p "reset t" fs] by (simp add: autofillBasicFields_def)

lemma autofillBasicFields_aborts:
  assumes "attrOrEmpty (bf_value f) \<noteq> []" and "bf_selectors f = sel # sels"
    and "resolve p sel = Inl err \<or>
         (resolve p sel = Inr (Some h) \<and>
          (el_isVisible (store p h) = Inl err \<or>
           (el_isVisible (store p h) = Inr True \<and> faults p (TagName h) = Some err)))"
  shows "fst (autofillBasicFields t p (f # fs)) = Some err"
  using assms
  by (auto simp: autofillBasicFields_def pageQuery_def elIsVisible_def elTagName_def
      answering_def store_logged faults_logged)

text \<open>
  Claim C9, as the code has it. A fill call that passes the already-filled gate ends in
  exactly one of three ways: it returns \<^verbatim>\<open>true\<close> and has written the success record; it
  returns \<^verbatim>\<open>false\<close> and has written a failure entry with a reason; it returns \<^verbatim>\<open>false\<close>
  and has written nothing. Which one is fixed by the answers of the page:
  \<^item> the reason is \<^verbatim>\<open>Element not found\<close> when the page has no such element, and the text
    of the error when the lookup throws;
  \<^item> for a text field the reason is \<^verbatim>\<open>Element not visible\<close> when the element is not
    visible, and the text of the error when the visibility test, the click or an assignment
    throws; nothing is written when the element already holds the requested value;
    otherwise the success record is written, whatever the control holds after the
    assignment, which is not read again;
  \<^item> for a select the success record is written when the selection by label or, failing
    that, by value goes through, and the error of the selection by value is the reason when
    both throw.

  None of this is thrown. On a page whose lookups answer, the basic-field pass runs to its
  end however many of its fills fail, and for every field with a value the first selector
  that finds a visible element has been attempted when the pass ends. The pass's own
  lookups are outside the fill functions: an error of the first of them ends the pass.
\<close>

theorem fill_attempt_records:
  "(\<not> isFieldFilled t (callSelector c) \<and> runCall t p c = (b, t', p') \<longrightarrow>
      (b \<and> (\<exists>v lbl mdl.
              t' = recordFill (markAttempted t (callSelector c)) (callSelector c) lbl v mdl)) \<or>
      (\<not> b \<and> (\<exists>lbl reason mdl.
              t' = recordFailure (markAttempted t (callSelector c)) (callSelector c) lbl reason mdl)) \<or>
      (\<not> b \<and> t' = markAttempted t (callSelector c))) \<and>
   (\<not> isFieldFilled t sel \<and> resolve p sel = Inr None \<longrightarrow>
      fst (fillTextField t p sel v lbl mdl) = False \<and>
      fst (snd (fillTextField t p sel v lbl mdl)) =
        recordFailure (markAttempted t sel) sel lbl ''Element not found'' mdl \<and>
      fst (fillSelectField t p sel v lbl mdl) = False \<and>
      fst (snd (fillSelectField t p sel v lbl mdl)) =
        recordFailure (markAttempted t sel) sel lbl ''Element not found'' mdl) \<and>
   (\<not> isFieldFilled t sel \<and> resolve p sel = Inl err \<longrightarrow>
      fst (fillTextField t p sel v lbl mdl) = False \<and>
      fst (snd (fillTextField t p sel v lbl mdl)) =
        recordFailure (markAttempted t sel) sel lbl err mdl \<and>
      fst (fillSelectField t p sel v lbl mdl) = False \<and>
      fst (snd (fillSelectField t p sel v lbl mdl)) =
        recordFailure (markAttempted t sel) sel lbl err mdl) \<and>
   (\<not> isFieldFilled t sel \<and> resolve p sel = Inr (Some h) \<and>
    el_isVisible (store p h) = Inr False \<longrightarrow>
      fst (fillTextField t p sel v lbl mdl) = False \<and>
      fst (snd (fillTextField t p sel v lbl mdl)) =
        recordFailure (markAttempted t sel) sel lbl ''Element not visible'' mdl) \<and>
   (\<not> isFieldFilled t sel \<and> resolve p sel = Inr (Some h) \<and>
    el_isVisible (store p h) = Inl err \<longrightarrow>
      fst (fillTextField t p sel v lbl mdl) = False \<and>
      fst (snd (fillTextField t p sel v lbl mdl)) =
        recordFailure (markAttempted t sel) sel lbl err mdl) \<and>
   (\<not> isFieldFilled t sel \<and> resolve p sel = Inr (Some h) \<and>
    el_isVisible (store p h) = Inr True \<and> currentValue (store p h) \<noteq> v \<and>
    el_click (store p h) = Some err \<longrightarrow>
      fst (fillTextField t p sel v lbl mdl) = False \<and>
      fst (snd (fillTextField t p sel v lbl mdl)) =
        recordFailure (markAttempted t sel) sel lbl err mdl) \<and>
   (\<not> isFieldFilled t sel \<and> resolve p sel = Inr (Some h) \<and>
    el_isVisible (store p h) = Inr True \<and> currentValue (store p h) \<noteq> v \<and>
    el_click (store p h) = None \<and>
    (el_fill (store p h) [] = Inl err \<or>
     (el_fill (store p h) [] = Inr a \<and> el_fill (store p h) v = Inl err)) \<longrightarrow>
      fst (fillTextField t p sel v lbl mdl) = False \<and>
      fst (snd (fillTextField t p sel v lbl mdl)) =
        recordFailure (markAttempted t sel) sel lbl err mdl) \<and>
   (\<not> isFieldFilled t sel \<and> resolve p sel = Inr (Some h) \<and>
    el_isVisible (store p h) = Inr True \<and> currentValue (store p h) = v \<longrightarrow>
      fst (fillTextField t p sel v lbl mdl) = False \<and>
      fst (snd (fillTextField t p sel v lbl mdl)) = markAttempted t sel) \<and>
   (\<not> isFieldFilled t sel \<and> resolve p sel = Inr (Some h) \<and>
    el_isVisible (store p h) = Inr True \<and> currentValue (store p h) \<noteq> v \<and>
    el_click (store p h) = None \<and> el_fill (store p h) [] = Inr a \<and>
    el_fill (store p h) v = Inr after \<longrightarrow>
      fst (fillTextField t p sel v lbl mdl) = True \<and>
      fst (snd (fillTextField t p sel v lbl mdl)) =
        recordFill (markAttempted t sel) sel lbl v mdl \<and>
      el_inputValue (store (snd (snd (fillTextField t p sel v lbl mdl))) h) = Inr after \<and>
      trace (snd (snd (fillTextField t p sel v lbl mdl))) =
        trace p @ [Query sel, IsVisible h, InputValue h, Click h, Fill h [], Fill h v]) \<and>
   (\<not> isFieldFilled t sel \<and> resolve p sel = Inr (Some h) \<and>
    el_selectLabel (store p h) v = Inr after \<longrightarrow>
      fst (fillSelectField t p sel v lbl mdl) = True \<and>
      fst (snd (fillSelectField t p sel v lbl mdl)) =
        recordFill (markAttempted t sel) sel lbl v mdl \<and>
      el_inputValue (store (snd (snd (fillSelectField t p sel v lbl mdl))) h) = Inr after \<and>
      trace (snd (snd (fillSelectField t p sel v lbl mdl))) =
        trace p @ [Query sel, SelectLabel h v]) \<and>
   (\<not> isFieldFilled t sel \<and> resolve p sel = Inr (Some h) \<and>
    el_selectLabel (store p h) v = Inl e \<and> el_selectValue (store p h) v = Inr after \<longrightarrow>
      fst (fillSelectField t p sel v lbl mdl) = True \<and>
      fst (snd (fillSelectField t p sel v lbl mdl)) =
        recordFill (markAttempted t sel) sel lbl v mdl \<and>
      el_inputValue (store (snd (snd (fillSelectField t p sel v lbl mdl))) h) = Inr after \<and>
      trace (snd (snd (fillSelectField t p sel v lbl mdl))) =
        trace p @ [Query sel, SelectLabel h v, SelectValue h v]) \<and>
   (\<not> isFieldFilled t sel \<and> resolve p sel = Inr (Some h) \<and>
    el_selectLabel (store p h) v = Inl e \<and> el_selectValue (store p h) v = Inl err \<longrightarrow>
      fst (fillSelectField t p sel v lbl mdl) = False \<and>
      fst (snd (fillSelectField t p sel v lbl mdl)) =
        recordFailure (markAttempted t sel) sel lbl err mdl \<and>
      el_inputValue (store (snd (snd (fillSelectField t p sel v lbl mdl))) h) =
        el_inputValue (store p h) \<and>
      trace (snd (snd (fillSelectField t p sel v lbl mdl))) =
        trace p @ [Query sel, SelectLabel h v, SelectValue h v]) \<and>
   (map_of (failedFields (recordFailure u sel lbl reason mdl)) sel =
      Some \<lparr> fi_label = orElse lbl sel, fi_reason = reason \<rparr> \<and>
    filledFields (recordFailure u sel lbl reason mdl) = filledFields u) \<and>
   (map_of (filledFields u) sel = None \<longrightarrow>
      map_of (filledFields (recordFill u sel lbl v mdl)) sel =
        Some \<lparr> fr_selector = sel, fr_label = orElse lbl sel, fr_value = truncateValue v,
               fr_success = True, fr_module = mdl \<rparr> \<and>
      getFilledCount (recordFill u sel lbl v mdl) = getFilledCount u + 1 \<and>
      failedFields (recordFill u sel lbl v mdl) = failedFields u) \<and>
   (lookupsAnswer p \<longrightarrow>
      fst (autofillBasicFields t p fs) = None \<and>
      (\<forall>f \<in> set fs. attrOrEmpty (bf_value f) \<noteq> [] \<longrightarrow>
         (\<forall>live. find (isLive p) (bf_selectors f) = Some live \<longrightarrow>
            isFieldFilled (fst (snd (autofillBasicFields t p fs))) live))) \<and>
   (attrOrEmpty (bf_value f) \<noteq> [] \<and> bf_selectors f = sel # sels \<and>
    (resolve p sel = Inl err \<or>
     (resolve p sel = Inr (Some h) \<and>
      (el_isVisible (store p h) = Inl err \<or>
       (el_isVisible (store p h) = Inr True \<and> faults p (TagName h) = Some err)))) \<longrightarrow>
      fst (autofillBasicFields t p (f # fs)) = Some err)"
  apply (intro conjI)
  subgoal using runCall_one_record [of t c p b t' p'] by blast
  subgoal using fill_not_found [of t sel p v lbl mdl] by blast
  subgoal using fill_thrown [of t sel p err v lbl mdl] by blast
  subgoal using fill_not_visible [of t sel p h v lbl mdl] by blast
  subgoal using fill_visibility_throws [of t sel p h err v lbl mdl] by blast
  subgoal using fill_click_throws [of t sel p h v err lbl mdl] by blast
  subgoal using fill_fill_throws [of t sel p h v err a lbl mdl] by blast
  subgoal using fill_already_correct [of t sel p h v lbl mdl] by blast
  subgoal using fill_assigned [of t sel p h v a after lbl mdl] by blast
  subgoal using select_by_label [of t sel p h v after lbl mdl] by blast
  subgoal using select_by_value [of t sel p h v e after lbl mdl] by blast
  subgoal using select_no_option [of t sel p h v e err lbl mdl] by blast
  subgoal using recordFailure_contents [of u sel lbl reason mdl] by blast
  subgoal using recordFailure_contents [of u sel lbl reason mdl] by blast
  subgoal using recordFill_contents [of u sel lbl v mdl] by blast
  subgoal using autofillBasicFields_run [of p t fs] by blast
  subgoal using autofillBasicFields_aborts [of f sel sels p err h t fs] by blast
  done

lemma formPage_lookups: "lookupsAnswer formPage"
  by (auto simp: lookupsAnswer_def formPage_def formResolve_def formElements_def plainElement_def)

theorem fill_attempt_records_witness:
  "fst (runCall newFormTracker formPage (sessionCalls ! 0)) = False \<and>
   ((\<exists>lbl reason mdl. fst (snd (runCall newFormTracker formPage (sessionCalls ! 0))) =
       recordFailure (markAttempted newFormTracker ''#phone'') ''#phone'' lbl reason mdl) \<or>
    fst (snd (runCall newFormTracker formPage (sessionCalls ! 0))) =
      markAttempted newFormTracker ''#phone'') \<and>
   resolve formPage ''#linkedin'' = Inr None \<and>
   fst (snd (fillTextField newFormTracker formPage ''#linkedin'' ''ada'' ''LinkedIn'' ''BasicFields'')) =
     recordFailure (markAttempted newFormTracker ''#linkedin'') ''#linkedin'' ''LinkedIn''
       ''Element not found'' ''BasicFields'' \<and>
   resolve brokenPage ''#email'' = Inl ''Error: Unexpected token while parsing selector'' \<and>
   fst (snd (fillSelectField newFormTracker brokenPage ''#email'' ''ada'' ''Email'' ''BasicFields'')) =
     recordFailure (markAttempted newFormTracker ''#email'') ''#email'' ''Email''
       ''Error: Unexpected token while parsing selector'' ''BasicFields'' \<and>
   el_isVisible (store formPage 2) = Inr False \<and>
   fst (snd (fillTextField newFormTracker formPage ''#phone'' ''555-0100'' ''Phone'' ''BasicFields'')) =
     recordFailure (markAttempted newFormTracker ''#phone'') ''#phone'' ''Phone''
       ''Element not visible'' ''BasicFields'' \<and>
   el_isVisible (store detachedPage 2) = Inl ''Error: Element is not attached to the DOM'' \<and>
   fst (snd (fillTextField newFormTracker detachedPage ''#phone'' ''555-0100'' ''Phone''
         ''BasicFields'')) =
     recordFailure (markAttempted newFormTracker ''#phone'') ''#phone'' ''Phone''
       ''Error: Element is not attached to the DOM'' ''BasicFields'' \<and>
   el_click (store formPage 4) = Some ''Error: Timeout 30000ms exceeded'' \<and>
   fst (fillTextField newFormTracker formPage ''#github'' ''https://github.com/ada'' ''GitHub''
         ''BasicFields'') = False \<and>
   fst (snd (fillTextField newFormTracker formPage ''#github'' ''https://github.com/ada'' ''GitHub''
         ''BasicFields'')) =
     recordFailure (markAttempted newFormTracker ''#github'') ''#github'' ''GitHub''
       ''Error: Timeout 30000ms exceeded'' ''BasicFields'' \<and>
   el_fill (store readonlyPage 1) [] = Inl ''Error: Element is not editable'' \<and>
   fst (snd (fillTextField newFormTracker readonlyPage ''#first_name'' ''Ada'' ''First Name''
         ''BasicFields'')) =
     recordFailure (markAttempted newFormTracker ''#first_name'') ''#first_name'' ''First Name''
       ''Error: Element is not editable'' ''BasicFields'' \<and>
   currentValue (store formPage 0) = ''ada@example.com'' \<and>
   fst (snd (fillTextField newFormTracker formPage ''#email'' ''ada@example.com'' ''Email''
         ''BasicFields'')) = markAttempted newFormTracker ''#email'' \<and>
   el_fill (store formPage 3) ''Lovelace'' = Inr [] \<and>
   fst (fillTextField newFormTracker formPage ''#last_name'' ''Lovelace'' ''Last Name''
         ''BasicFields'') = True \<and>
   el_inputValue (store (snd (snd (fillTextField newFormTracker formPage ''#last_name'' ''Lovelace''
         ''Last Name'' ''BasicFields''))) 3) = Inr [] \<and>
   trace (snd (snd (fillTextField newFormTracker formPage ''#last_name'' ''Lovelace''
         ''Last Name'' ''BasicFields''))) =
     trace formPage @ [Query ''#last_name'', IsVisible 3, InputValue 3, Click 3, Fill 3 [],
       Fill 3 ''Lovelace''] \<and>
   el_selectLabel (store selectPage 0) ''Canada'' = Inr ''CA'' \<and>
   fst (snd (fillSelectField newFormTracker selectPage ''#country'' ''Canada'' ''Country'' ''AI'')) =
     recordFill (markAttempted newFormTracker ''#country'') ''#country'' ''Country'' ''Canada'' ''AI'' \<and>
   el_selectValue (store selectPage 0) ''CA'' = Inr ''CA'' \<and>
   fst (fillSelectField newFormTracker selectPage ''#country'' ''CA'' ''Country'' ''AI'') = True \<and>
   el_selectValue (store selectPage 0) ''Mars'' = Inl ''Error: Timeout 30000ms exceeded (value)'' \<and>
   fst (fillSelectField newFormTracker selectPage ''#country'' ''Mars'' ''Country'' ''AI'') = False \<and>
   fst (snd (fillSelectField newFormTracker selectPage ''#country'' ''Mars'' ''Country'' ''AI'')) =
     recordFailure (markAttempted newFormTracker ''#country'') ''#country'' ''Country''
       ''Error: Timeout 30000ms exceeded (value)'' ''AI'' \<and>
   map_of (filledFields newFormTracker) ''#last_name'' = None \<and>
   getFilledCount (recordFill newFormTracker ''#last_name'' ''Last Name'' ''Lovelace'' ''BasicFields'') =
     getFilledCount newFormTracker + 1 \<and>
   fst (autofillBasicFields newFormTracker formPage basicFields) = None \<and>
   find (isLive formPage) (bf_selectors (basicFields ! 2)) = Some ''#first_name'' \<and>
   isFieldFilled (fst (snd (autofillBasicFields newFormTracker formPage basicFields))) ''#first_name'' \<and>
   map fst (failedFields (fst (snd (autofillBasicFields newFormTracker formPage basicFields)))) =
     [''#github''] \<and>
   map fst (filledFields (fst (snd (autofillBasicFields newFormTracker formPage basicFields)))) =
     [''#first_name''] \<and>
   faults navigatedPage (TagName 1) = Some ''Error: Execution context was destroyed'' \<and>
   fst (autofillBasicFields newFormTracker navigatedPage [basicFields ! 2]) =
     Some ''Error: Execution context was destroyed''"
proof -
  define t1 where "t1 = fst (snd (runCall newFormTracker formPage (sessionCalls ! 0)))"
  define p1 where "p1 = snd (snd (runCall newFormTracker formPage (sessionCalls ! 0)))"
  have gate: "\<not> isFieldFilled newFormTracker sel" for sel
    by (simp add: isFieldFilled_def newFormTracker_def)
  have sel0: "callSelector (sessionCalls ! 0) = ''#phone''" by code_simp
  have gate0: "\<not> isFieldFilled newFormTracker (callSelector (sessionCalls ! 0))"
    by (rule gate)
  have failed0: "fst (runCall newFormTracker formPage (sessionCalls ! 0)) = False"
    by code_simp
  then have run0: "runCall newFormTracker formPage (sessionCalls ! 0) = (False, t1, p1)"
    by (simp add: t1_def p1_def prod_eq_iff)
  have nf: "resolve formPage ''#linkedin'' = Inr None" by code_simp
  have th: "resolve brokenPage ''#email'' = Inl ''Error: Unexpected token while parsing selector''"
    by (simp add: brokenPage_def)
  have ph: "resolve formPage ''#phone'' = Inr (Some 2)" by code_simp
  have phv: "el_isVisible (store formPage 2) = Inr False" by code_simp
  have dph: "resolve detachedPage ''#phone'' = Inr (Some 2)" by code_simp
  have dphv: "el_isVisible (store detachedPage 2) = Inl ''Error: Element is not attached to the DOM''"
    by code_simp
  have gh: "resolve formPage ''#github'' = Inr (Some 4)" by code_simp
  have ghv: "el_isVisible (store formPage 4) = Inr True" by code_simp
  have ghc: "currentValue (store formPage 4) \<noteq> ''https://github.com/ada''" by code_simp
  have ghk: "el_click (store formPage 4) = Some ''Error: Timeout 30000ms exceeded''"
    by code_simp
  have ro: "resolve readonlyPage ''#first_name'' = Inr (Some 1)" by code_simp
  have rov: "el_isVisible (store readonlyPage 1) = Inr True" by code_simp
  have roc: "currentValue (store readonlyPage 1) \<noteq> ''Ada''" by code_simp
  have rok: "el_click (store readonlyPage 1) = None" by code_simp
  have rof: "el_fill (store readonlyPage 1) [] = Inl ''Error: Element is not editable''"
    by code_simp
  have em: "resolve formPage ''#email'' = Inr (Some 0)" by code_simp
  have emv: "el_isVisible (store formPage 0) = Inr True" by code_simp
  have emc: "currentValue (store formPage 0) = ''ada@example.com''" by code_simp
  have ln: "resolve formPage ''#last_name'' = Inr (Some 3)" by code_simp
  have lnv: "el_isVisible (store formPage 3) = Inr True" by code_simp
  have lnc: "currentValue (store formPage 3) \<noteq> ''Lovelace''" by code_simp
  have lnk: "el_click (store formPage 3) = None" by code_simp
  have lnf0: "el_fill (store formPage 3) [] = Inr []" by code_simp
  have lnf: "el_fill (store formPage 3) ''Lovelace'' = Inr []" by code_simp
  have co: "resolve selectPage ''#country'' = Inr (Some 0)" by code_simp
  have col: "el_selectLabel (store selectPage 0) ''Canada'' = Inr ''CA''" by code_simp
  have cal: "el_selectLabel (store selectPage 0) ''CA'' = Inl ''Error: Timeout 30000ms exceeded (label)''"
    by code_simp
  have cav: "el_selectValue (store selectPage 0) ''CA'' = Inr ''CA''" by code_simp
  have mal: "el_selectLabel (store selectPage 0) ''Mars'' = Inl ''Error: Timeout 30000ms exceeded (label)''"
    by code_simp
  have mav: "el_selectValue (store selectPage 0) ''Mars'' = Inl ''Error: Timeout 30000ms exceeded (value)''"
    by code_simp
  have fresh: "map_of (filledFields newFormTracker) ''#last_name'' = None"
    by (simp add: newFormTracker_def)
  have failed: "map fst (failedFields (fst (snd (autofillBasicFields newFormTracker formPage
      basicFields)))) = [''#github'']"
    by code_simp
  have filled: "map fst (filledFields (fst (snd (autofillBasicFields newFormTracker formPage
      basicFields)))) = [''#first_name'']"
    by code_simp
  have third: "basicFields ! 2 \<in> set basicFields" by (simp add: basicFields_def)
  have valued: "attrOrEmpty (bf_value (basicFields ! 2)) \<noteq> []" by code_simp
  have live: "find (isLive formPage) (bf_selectors (basicFields ! 2)) = Some ''#first_name''"
    by code_simp
  have sels: "bf_selectors (basicFields ! 2) = ''#first_name'' # []" by code_simp
  have nv: "resolve navigatedPage ''#first_name'' = Inr (Some 1)" by code_simp
  have nvv: "el_isVisible (store navigatedPage 1) = Inr True" by code_simp
  have nvf: "faults navigatedPage (TagName 1) = Some ''Error: Execution context was destroyed''"
    by code_simp
  note oneRecord = fill_attempt_records
    [where t = newFormTracker and p = formPage and c = "sessionCalls ! 0" and b = False
       and t' = t1 and p' = p1,
     THEN conjunct1, rule_format, OF conjI [OF gate0 run0], unfolded sel0]
  note notFound = fill_attempt_records
    [where t = newFormTracker and p = formPage and sel = "''#linkedin''" and v = "''ada''"
       and lbl = "''LinkedIn''" and mdl = "''BasicFields''",
     THEN conjunct2, THEN conjunct1, rule_format, OF conjI [OF gate nf]]
  note thrown = fill_attempt_records
    [where t = newFormTracker and p = brokenPage and sel = "''#email''" and v = "''ada''"
       and lbl = "''Email''" and mdl = "''BasicFields''"
       and err = "''Error: Unexpected token while parsing selector''",
     THEN conjunct2, THEN conjunct2, THEN conjunct1, rule_format, OF conjI [OF gate th]]
  note hidden = fill_attempt_records
    [where t = newFormTracker and p = formPage and sel = "''#phone''" and v = "''555-0100''"
       and lbl = "''Phone''" and mdl = "''BasicFields''" and h = 2,
     THEN conjunct2, THEN conjunct2, THEN conjunct2, THEN conjunct1, rule_format,
     OF conjI [OF gate conjI [OF ph phv]]]
  note detached = fill_attempt_records
    [where t = newFormTracker and p = detachedPage and sel = "''#phone''" and v = "''555-0100''"
       and lbl = "''Phone''" and mdl = "''BasicFields''" and h = 2
       and err = "''Error: Element is not attached to the DOM''",
     THEN conjunct2, THEN conjunct2, THEN conjunct2, THEN conjunct2, THEN conjunct1,
     rule_format, OF conjI [OF gate conjI [OF dph dphv]]]
  note timeout = fill_attempt_records
    [where t = newFormTracker and p = formPage and sel = "''#github''" and h = 4
       and v = "''https://github.com/ada''" and lbl = "''GitHub''"
       and mdl = "''BasicFields''" and err = "''Error: Timeout 30000ms exceeded''",
     THEN conjunct2, THEN conjunct2, THEN conjunct2, THEN conjunct2, THEN conjunct2,
     THEN conjunct1, rule_format,
     OF conjI [OF gate conjI [OF gh conjI [OF ghv conjI [OF ghc ghk]]]]]
  note readonly = fill_attempt_records
    [where t = newFormTracker and p = readonlyPage and sel = "''#first_name''" and h = 1
       and v = "''Ada''" and lbl = "''First Name''" and mdl = "''BasicFields''"
       and err = "''Error: Element is not editable''",
     THEN conjunct2, THEN conjunct2, THEN conjunct2, THEN conjunct2, THEN conjunct2,
     THEN conjunct2, THEN conjunct1, rule_format,
     OF conjI [OF gate conjI [OF ro conjI [OF rov conjI [OF roc conjI [OF rok disjI1 [OF rof]]]]]]]
  note already = fill_attempt_records
    [where t = newFormTracker and p = formPage and sel = "''#email''" and h = 0
       and v = "''ada@example.com''" and lbl = "''Email''" and mdl = "''BasicFields''",
     THEN conjunct2, THEN conjunct2, THEN conjunct2, THEN conjunct2, THEN conjunct2,
     THEN conjunct2, THEN conjunct2, THEN conjunct1, rule_format,
     OF conjI [OF gate conjI [OF em conjI [OF emv emc]]]]
  note assigned = fill_attempt_records
    [where t = newFormTracker and p = formPage and sel = "''#last_name''" and h = 3
       and v = "''Lovelace''" and lbl = "''Last Name''" and mdl = "''BasicFields''"
       and a = "[]" and after = "[]",
     THEN conjunct2, THEN conjunct2, THEN conjunct2, THEN conjunct2, THEN conjunct2,
     THEN conjunct2, THEN conjunct2, THEN conjunct2, THEN conjunct1, rule_format,
     OF conjI [OF gate conjI [OF ln conjI [OF lnv conjI [OF lnc conjI [OF lnk
       conjI [OF lnf0 lnf]]]]]]]
  note byLabel = fill_attempt_records
    [where t = newFormTracker and p = selectPage and sel = "''#country''" and h = 0
       and v = "''Canada''" and lbl = "''Country''" and mdl = "''AI''" and after = "''CA''",
     THEN conjunct2, THEN conjunct2, THEN conjunct2, THEN conjunct2, THEN conjunct2,
     THEN conjunct2, THEN conjunct2, THEN conjunct2, THEN conjunct2, THEN conjunct1,
     rule_format, OF conjI [OF gate conjI [OF co col]]]
  note byValue = fill_attempt_records
    [where t = newFormTracker and p = selectPage and sel = "''#country''" and h = 0
       and v = "''CA''" and lbl = "''Country''" and mdl = "''AI''" and after = "''CA''"
       and e = "''Error: Timeout 30000ms exceeded (label)''",
     THEN conjunct2, THEN conjunct2, THEN conjunct2, THEN conjunct2, THEN conjunct2,
     THEN conjunct2, THEN conjunct2, THEN conjunct2, THEN conjunct2, THEN conjunct2,
     THEN conjunct1, rule_format, OF conjI [OF gate conjI [OF co conjI [OF cal cav]]]]
  note noOption = fill_attempt_records
    [where t = newFormTracker and p = selectPage and sel = "''#country''" and h = 0
       and v = "''Mars''" and lbl = "''Country''" and mdl = "''AI''"
       and e = "''Error: Timeout 30000ms exceeded (label)''"
       and err = "''Error: Timeout 30000ms exceeded (value)''",
     THEN conjunct2, THEN conjunct2, THEN conjunct2, THEN conjunct2, THEN conjunct2,
     THEN conjunct2, THEN conjunct2, THEN conjunct2, THEN conjunct2, THEN conjunct2,
     THEN conjunct2, THEN conjunct1, rule_format,
     OF conjI [OF gate conjI [OF co conjI [OF mal mav]]]]
  note counted = fill_attempt_records
    [where u = newFormTracker and sel = "''#last_name''" and v = "''Lovelace''"
       and lbl = "''Last Name''" and mdl = "''BasicFields''",
     THEN conjunct2, THEN conjunct2, THEN conjunct2, THEN conjunct2, THEN conjunct2,
     THEN conjunct2, THEN conjunct2, THEN conjunct2, THEN conjunct2, THEN conjunct2,
     THEN conjunct2, THEN conjunct2, THEN conjunct2, THEN conjunct1, rule_format, OF fresh]
  note pass = fill_attempt_records
    [where p = formPage and t = newFormTracker and fs = basicFields,
     THEN conjunct2, THEN conjunct2, THEN conjunct2, THEN conjunct2, THEN conjunct2,
     THEN conjunct2, THEN conjunct2, THEN conjunct2, THEN conjunct2, THEN conjunct2,
     THEN conjunct2, THEN conjunct2, THEN conjunct2, THEN conjunct2, THEN conjunct1, THEN mp,
     OF formPage_lookups]
  note attempted = pass [THEN conjunct2, THEN bspec, OF third, THEN mp, OF valued, THEN spec,
     THEN mp, OF live]
  note aborted = fill_attempt_records
    [where p = navigatedPage and t = newFormTracker and f = "basicFields ! 2" and fs = "[]"
       and sel = "''#first_name''" and sels = "[]" and h = 1
       and err = "''Error: Execution context was destroyed''",
     THEN conjunct2, THEN conjunct2, THEN conjunct2, THEN conjunct2, THEN conjunct2,
     THEN conjunct2, THEN conjunct2, THEN conjunct2, THEN conjunct2, THEN conjunct2,
     THEN conjunct2, THEN conjunct2, THEN conjunct2, THEN conjunct2, THEN conjunct2, THEN mp,
     OF conjI [OF valued conjI [OF sels disjI2 [OF conjI [OF nv disjI2 [OF conjI [OF nvv nvf]]]]]]]
  from oneRecord have one: "(\<exists>lbl reason mdl. t1 =
       recordFailure (markAttempted newFormTracker ''#phone'') ''#phone'' lbl reason mdl) \<or>
      t1 = markAttempted newFormTracker ''#phone''"
    by blast
  show ?thesis
    by (intro conjI failed0 one [unfolded t1_def] nf notFound [THEN conjunct2, THEN conjunct1] th
        thrown [THEN conjunct2, THEN conjunct2, THEN conjunct2]
        phv hidden [THEN conjunct2] dphv detached [THEN conjunct2]
        ghk timeout [THEN conjunct1] timeout [THEN conjunct2]
        rof readonly [THEN conjunct2]
        emc already [THEN conjunct2] lnf assigned [THEN conjunct1]
        assigned [THEN conjunct2, THEN conjunct2, THEN conjunct1]
        assigned [THEN conjunct2, THEN conjunct2, THEN conjunct2]
        col byLabel [THEN conjunct2, THEN conjunct1] cav byValue [THEN conjunct1]
        mav noOption [THEN conjunct1] noOption [THEN conjunct2, THEN conjunct1] fresh
        counted [THEN conjunct2, THEN conjunct1] pass [THEN conjunct1] live attempted
        failed filled nvf aborted)
qed

text \<open>
  Claim C9 as stated fails. The e-mail input already holds the requested address: the call
  passes the gate, asks the page three times and returns \<^verbatim>\<open>false\<close> with neither a success
  record nor a failure entry written. The last-name input is reset by the page after the
  assignment: the value is unchanged, and the call records a success and no failure.
\<close>

theorem fill_attempt_records_counterexample:
  "(case fillTextField newFormTracker formPage ''#email'' ''ada@example.com'' ''Email'' ''BasicFields'' of
      (success, t, p) \<Rightarrow>
        success = False \<and> filledFields t = [] \<and> failedFields t = [] \<and>
        trace p = [Query ''#email'', IsVisible 0, InputValue 0]) \<and>
   (case fillTextField newFormTracker formPage ''#last_name'' ''Lovelace'' ''Last Name'' ''BasicFields'' of
      (success, t, p) \<Rightarrow>
        success = True \<and> map fst (filledFields t) = [''#last_name''] \<and> failedFields t = [] \<and>
        el_inputValue (store formPage 3) = Inr [] \<and> el_inputValue (store p 3) = Inr [])"
  by code_simp

section \<open>Properties of deduplication\<close>

lemma dedupLoop_keys_subset:
  "set (map fieldKey (dedupLoop fs seen unique)) \<subseteq> set (map fieldKey unique) \<union> set (map fieldKey fs)"
  by (induction fs seen unique rule: dedupLoop.induct) auto

lemma dedupLoop_distinct:
  "distinct (map fieldKey unique) \<Longrightarrow> set (map fieldKey unique) \<subseteq> seen \<Longrightarrow>
   distinct (map fieldKey (dedupLoop fs seen unique))"
  by (induction fs seen unique rule: dedupLoop.induct) auto

lemma dedupLoop_subset:
  "set (dedupLoop fs seen unique) \<subseteq> set unique \<union> set fs"
  by (induction fs seen unique rule: dedupLoop.induct) auto

lemma dedupLoop_keys_complete:
  "\<forall>f \<in> set fs. fieldKey f \<noteq> [] \<Longrightarrow>
   set (map fieldKey (dedupLoop fs seen unique)) =
   set (map fieldKey unique) \<union> (set (map fieldKey fs) - seen)"
proof (induction fs seen unique rule: dedupLoop.induct)
  case (1 seen unique)
  then show ?case by simp
next
  case (2 x fs seen unique)
  show ?case
  proof (cases "fieldKey x \<in> seen")
    case True
    with 2 show ?thesis by auto
  next
    case False
    with 2 have "set (map fieldKey (dedupLoop (x # fs) seen unique)) =
      set (map fieldKey (unique @ [x])) \<union> (set (map fieldKey fs) - insert (fieldKey x) seen)"
      by simp
    with False show ?thesis by auto
  qed
qed

lemma dedupLoop_first:
  "f \<in> set (dedupLoop fs seen unique) \<Longrightarrow>
   f \<in> set unique \<or>
   (fieldKey f \<noteq> [] \<and> fieldKey f \<notin> seen \<and> find (\<lambda>g. fieldKey g = fieldKey f) fs = Some f)"
proof (induction fs seen unique rule: dedupLoop.induct)
  case (1 seen unique)
  then show ?case by simp
next
  case (2 x fs seen unique)
  show ?case
  proof (cases "fieldKey x \<noteq> [] \<and> fieldKey x \<notin> seen")
    case True
    with 2 have "f \<in> set (unique @ [x]) \<or>
      (fieldKey f \<noteq> [] \<and> fieldKey f \<notin> insert (fieldKey x) seen \<and>
       find (\<lambda>g. fieldKey g = fieldKey f) fs = Some f)"
      by simp
    with True show ?thesis by auto
  next
    case False
    with 2 have "f \<in> set unique \<or>
      (fieldKey f \<noteq> [] \<and> fieldKey f \<notin> seen \<and>
       find (\<lambda>g. fieldKey g = fieldKey f) fs = Some f)"
      by simp
    with False show ?thesis by auto
  qed
qed

lemma fieldKey_selector:
  "ef_selector f \<noteq> [] \<Longrightarrow> fieldKey f = ef_selector f"
  by (simp add: fieldKey_def)

lemma deduplicateFields_keys_distinct:
  "distinct (map fieldKey (deduplicateFields fs))"
  unfolding deduplicateFields_def by (rule dedupLoop_distinct) simp_all

lemma deduplicateFields_subset:
  "set (deduplicateFields fs) \<subseteq> set fs"
  unfolding deduplicateFields_def using dedupLoop_subset [of fs "{}" "[]"] by simp

lemma map_fieldKey_selector:
  "\<forall>f \<in> set xs. ef_selector f \<noteq> [] \<Longrightarrow> map fieldKey xs = map ef_selector xs"
  by (induction xs) (simp_all add: fieldKey_selector)

lemma deduplicateFields_selectors_distinct:
  assumes "\<forall>f \<in> set fs. ef_selector f \<noteq> []"
  shows "distinct (map ef_selector (deduplicateFields fs))"
proof -
  from assms deduplicateFields_subset [of fs]
  have "\<forall>f \<in> set (deduplicateFields fs). ef_selector f \<noteq> []" by blast
  then have "map fieldKey (deduplicateFields fs) = map ef_selector (deduplicateFields fs)"
    by (rule map_fieldKey_selector)
  with deduplicateFields_keys_distinct [of fs] show ?thesis by simp
qed

lemma deduplicateFields_selectors_complete:
  assumes "\<forall>f \<in> set fs. ef_selector f \<noteq> []"
  shows "set (map ef_selector (deduplicateFields fs)) = set (map ef_selector fs)"
proof -
  from assms have ne: "\<forall>f \<in> set fs. fieldKey f \<noteq> []"
    by (simp add: fieldKey_selector)
  from assms deduplicateFields_subset [of fs]
  have "\<forall>f \<in> set (deduplicateFields fs). ef_selector f \<noteq> []" by blast
  then have out: "map fieldKey (deduplicateFields fs) = map ef_selector (deduplicateFields fs)"
    by (rule map_fieldKey_selector)
  from assms have inp: "map fieldKey fs = map ef_selector fs"
    by (rule map_fieldKey_selector)
  from dedupLoop_keys_complete [OF ne, of "{}" "[]"]
  have "set (map fieldKey (deduplicateFields fs)) = set (map fieldKey fs)"
    by (simp add: deduplicateFields_def)
  with out inp show ?thesis by simp
qed

lemma deduplicateFields_keeps_first:
  assumes "\<forall>f \<in> set fs. ef_selector f \<noteq> []"
    and "f \<in> set (deduplicateFields fs)"
  shows "find (\<lambda>g. ef_selector g = ef_selector f) fs = Some f"
proof -
  from assms(2) dedupLoop_first [of f fs "{}" "[]"]
  have first: "find (\<lambda>g. fieldKey g = fieldKey f) fs = Some f"
    by (simp add: deduplicateFields_def)
  from assms deduplicateFields_subset [of fs] have "ef_selector f \<noteq> []" by blast
  then have kf: "fieldKey f = ef_selector f" by (rule fieldKey_selector)
  have "find (\<lambda>g. ef_selector g = ef_selector f) fs = find (\<lambda>g. fieldKey g = fieldKey f) fs"
    by (rule find_cong) (use assms(1) kf in \<open>simp_all add: fieldKey_selector\<close>)
  with first show ?thesis by simp
qed

text \<open>
  Claim C3, as the code has it. Every record the per-family scans return carries a non-empty
  selector (each scan filters on it). For such a list the result of \<^verbatim>\<open>deduplicateFields\<close>
  has pairwise different selectors, it has a record for every selector of the input, and the
  record it keeps for a selector is the first one discovered with that selector, whatever the
  later records with the same selector carry. In general (selectors possibly empty) the keys
  \<^verbatim>\<open>selector || label\<close> of the result are pairwise different.
\<close>

theorem deduplicateFields_first_discovered:
  "distinct (map fieldKey (deduplicateFields fs)) \<and>
   ((\<forall>f \<in> set fs. ef_selector f \<noteq> []) \<longrightarrow>
      distinct (map ef_selector (deduplicateFields fs)) \<and>
      set (map ef_selector (deduplicateFields fs)) = set (map ef_selector fs) \<and>
      (\<forall>f \<in> set (deduplicateFields fs).
         find (\<lambda>g. ef_selector g = ef_selector f) fs = Some f))"
  using deduplicateFields_keys_distinct deduplicateFields_selectors_distinct
    deduplicateFields_selectors_complete deduplicateFields_keeps_first
  by blast

lemma dedup_school_example:
  "deduplicateFields [schoolAsTextInput, schoolAsDropdown, emailField] =
     [schoolAsTextInput, emailField]"
  by (simp add: deduplicateFields_def fieldKey_def schoolAsTextInput_def schoolAsDropdown_def
      emailField_def)

theorem deduplicateFields_first_discovered_witness:
  "ef_selector schoolAsTextInput \<noteq> [] \<and> ef_selector schoolAsDropdown \<noteq> [] \<and>
   ef_selector emailField \<noteq> [] \<and>
   distinct (map ef_selector (deduplicateFields [schoolAsTextInput, schoolAsDropdown, emailField])) \<and>
   find (\<lambda>g. ef_selector g = ef_selector schoolAsTextInput)
     [schoolAsTextInput, schoolAsDropdown, emailField] = Some schoolAsTextInput"
  using deduplicateFields_first_discovered [of "[schoolAsTextInput, schoolAsDropdown, emailField]"]
  by (simp add: dedup_school_example)
     (simp add: schoolAsTextInput_def schoolAsDropdown_def emailField_def)

text \<open>
  Claim C3 as stated fails: the record with resolved options is not preferred. The
  text-input scan runs before the custom-dropdown scan, so for one selector the record
  without options is discovered first and kept, and the record with options is dropped.
\<close>

theorem deduplicateFields_richer_counterexample:
  "ef_selector schoolAsDropdown = ef_selector schoolAsTextInput \<and>
   ef_options schoolAsTextInput = None \<and>
   ef_options schoolAsDropdown = Some [(''MIT'', ''MIT''), (''Stanford'', ''Stanford'')] \<and>
   deduplicateFields [schoolAsTextInput, schoolAsDropdown, emailField] =
     [schoolAsTextInput, emailField]"
  by (simp add: deduplicateFields_def fieldKey_def schoolAsTextInput_def schoolAsDropdown_def
      emailField_def)

section \<open>Properties of label resolution\<close>

lemma textInputLabel_aria:
  "ic_ariaLabel ctx = Some a \<Longrightarrow> a \<noteq> [] \<Longrightarrow> textInputLabel ctx = cleanLabel a"
  by (simp add: textInputLabel_def orElse_def attrOrEmpty_def)

lemma textInputLabel_placeholder:
  "attrOrEmpty (ic_ariaLabel ctx) = [] \<Longrightarrow> ic_placeholder ctx \<noteq> [] \<Longrightarrow>
   textInputLabel ctx = cleanLabel (ic_placeholder ctx)"
  by (simp add: textInputLabel_def orElse_def)

lemma textInputLabel_labelFor:
  "attrOrEmpty (ic_ariaLabel ctx) = [] \<Longrightarrow> ic_placeholder ctx = [] \<Longrightarrow> ic_id ctx \<noteq> [] \<Longrightarrow>
   ic_labelFor ctx = Some t \<Longrightarrow> trim t \<noteq> [] \<Longrightarrow> textInputLabel ctx = cleanLabel (trim t)"
  by (simp add: textInputLabel_def orElse_def)

lemma textInputLabel_container:
  "attrOrEmpty (ic_ariaLabel ctx) = [] \<Longrightarrow> ic_placeholder ctx = [] \<Longrightarrow>
   ic_id ctx = [] \<or> ic_labelFor ctx = None \<or> trim (attrOrEmpty (ic_labelFor ctx)) = [] \<Longrightarrow>
   ic_containerLabel ctx = Some (False, t) \<Longrightarrow> textInputLabel ctx = cleanLabel (trim t)"
  by (auto simp: textInputLabel_def orElse_def attrOrEmpty_def Let_def
      split: option.splits)

lemma cleanLabel_empty: "cleanLabel [] = []"
  by (simp add: cleanLabel_def trim_def)

lemma textInputLabel_none:
  "attrOrEmpty (ic_ariaLabel ctx) = [] \<Longrightarrow> ic_placeholder ctx = [] \<Longrightarrow>
   ic_id ctx = [] \<or> ic_labelFor ctx = None \<or> trim (attrOrEmpty (ic_labelFor ctx)) = [] \<Longrightarrow>
   ic_containerLabel ctx = None \<or> (\<exists>t. ic_containerLabel ctx = Some (True, t)) \<Longrightarrow>
   textInputLabel ctx = []"
  using cleanLabel_empty
  by (auto simp: textInputLabel_def orElse_def attrOrEmpty_def Let_def
      split: option.splits)

lemma analyzeFormLabel_aria:
  "ic_ariaLabel ctx = Some a \<Longrightarrow> a \<noteq> [] \<Longrightarrow> analyzeFormLabel ctx = trim a"
  by (simp add: analyzeFormLabel_def orElse_def attrOrEmpty_def)

lemma analyzeFormLabel_placeholder:
  "attrOrEmpty (ic_ariaLabel ctx) = [] \<Longrightarrow> ic_placeholder ctx \<noteq> [] \<Longrightarrow>
   analyzeFormLabel ctx = trim (ic_placeholder ctx)"
  by (simp add: analyzeFormLabel_def orElse_def)

lemma analyzeFormLabel_labelFor:
  "attrOrEmpty (ic_ariaLabel ctx) = [] \<Longrightarrow> ic_placeholder ctx = [] \<Longrightarrow> ic_id ctx \<noteq> [] \<Longrightarrow>
   ic_labelFor ctx = Some t \<Longrightarrow> analyzeFormLabel ctx = trim t"
  by (simp add: analyzeFormLabel_def orElse_def)

lemma analyzeFormLabel_none:
  "attrOrEmpty (ic_ariaLabel ctx) = [] \<Longrightarrow> ic_placeholder ctx = [] \<Longrightarrow>
   ic_id ctx = [] \<or> ic_labelFor ctx = None \<Longrightarrow> analyzeFormLabel ctx = []"
  by (auto simp: analyzeFormLabel_def orElse_def trim_def)

text \<open>
  Claim C4, as the code has it. For a control read by \<^verbatim>\<open>extractTextInputs\<close> the label is
  taken from the first non-empty source in the order: \<^verbatim>\<open>aria-label\<close> attribute,
  placeholder, text of the associated \<^verbatim>\<open>label[for]\<close> element (only for a control with an
  id), text of the labelled child of the nearest ancestor container (only when that child
  holds no input); with none of them the label is empty: neither the name, nor the id, nor a
  position is used. \<^verbatim>\<open>analyzeForm\<close> uses the first three sources in the same order. The
  extractor collapses white space in the chosen text and trims it, \<^verbatim>\<open>analyzeForm\<close> trims it.
\<close>

theorem label_resolution_order:
  "(ic_ariaLabel ctx = Some a \<and> a \<noteq> [] \<longrightarrow>
      textInputLabel ctx = cleanLabel a \<and> analyzeFormLabel ctx = trim a) \<and>
   (attrOrEmpty (ic_ariaLabel ctx) = [] \<and> ic_placeholder ctx \<noteq> [] \<longrightarrow>
      textInputLabel ctx = cleanLabel (ic_placeholder ctx) \<and>
      analyzeFormLabel ctx = trim (ic_placeholder ctx)) \<and>
   (attrOrEmpty (ic_ariaLabel ctx) = [] \<and> ic_placeholder ctx = [] \<and> ic_id ctx \<noteq> [] \<and>
    ic_labelFor ctx = Some t \<longrightarrow>
      analyzeFormLabel ctx = trim t \<and>
      (trim t \<noteq> [] \<longrightarrow> textInputLabel ctx = cleanLabel (trim t))) \<and>
   (attrOrEmpty (ic_ariaLabel ctx) = [] \<and> ic_placeholder ctx = [] \<and>
    (ic_id ctx = [] \<or> ic_labelFor ctx = None \<or> trim (attrOrEmpty (ic_labelFor ctx)) = []) \<longrightarrow>
      (ic_containerLabel ctx = Some (False, c) \<longrightarrow> textInputLabel ctx = cleanLabel (trim c)) \<and>
      (ic_containerLabel ctx = None \<or> ic_containerLabel ctx = Some (True, c) \<longrightarrow>
         textInputLabel ctx = [])) \<and>
   (attrOrEmpty (ic_ariaLabel ctx) = [] \<and> ic_placeholder ctx = [] \<and>
    (ic_id ctx = [] \<or> ic_labelFor ctx = None) \<longrightarrow> analyzeFormLabel ctx = [])"
  using textInputLabel_aria [of ctx a] textInputLabel_placeholder [of ctx]
    textInputLabel_labelFor [of ctx t] textInputLabel_container [of ctx c]
    textInputLabel_none [of ctx]
    analyzeFormLabel_aria [of ctx a] analyzeFormLabel_placeholder [of ctx]
    analyzeFormLabel_labelFor [of ctx t] analyzeFormLabel_none [of ctx]
  by blast

theorem label_resolution_order_witness:
  "ic_ariaLabel ariaInput = Some ''Search jobs'' \<and>
   textInputLabel ariaInput = cleanLabel ''Search jobs'' \<and>
   analyzeFormLabel ariaInput = trim ''Search jobs'' \<and>
   attrOrEmpty (ic_ariaLabel emailInput) = [] \<and> ic_placeholder emailInput \<noteq> [] \<and>
   textInputLabel emailInput = cleanLabel ''Enter your email'' \<and>
   analyzeFormLabel emailInput = trim ''Enter your email'' \<and>
   ic_placeholder phoneInput = [] \<and> ic_id phoneInput \<noteq> [] \<and>
   ic_labelFor phoneInput = Some '' Phone  number '' \<and> trim '' Phone  number '' \<noteq> [] \<and>
   analyzeFormLabel phoneInput = trim '' Phone  number '' \<and>
   textInputLabel phoneInput = cleanLabel (trim '' Phone  number '') \<and>
   cleanLabel (trim '' Phone  number '') = ''Phone number'' \<and>
   ic_containerLabel cityInput = Some (False, '' City '') \<and>
   textInputLabel cityInput = cleanLabel (trim '' City '') \<and>
   analyzeFormLabel cityInput = [] \<and>
   ic_containerLabel bareInput = None \<and> textInputLabel bareInput = [] \<and>
   analyzeFormLabel bareInput = [] \<and>
   trim (attrOrEmpty (ic_labelFor nbspInput)) = [] \<and>
   textInputLabel nbspInput = ''Full name''"
proof -
  have a1: "ic_ariaLabel ariaInput = Some ''Search jobs''" by code_simp
  have a2: "''Search jobs'' \<noteq> []" by simp
  have e1: "attrOrEmpty (ic_ariaLabel emailInput) = []" by code_simp
  have e2: "ic_placeholder emailInput = ''Enter your email''" by code_simp
  have e3: "ic_placeholder emailInput \<noteq> []" by code_simp
  have p1: "attrOrEmpty (ic_ariaLabel phoneInput) = []" by code_simp
  have p2: "ic_placeholder phoneInput = []" by code_simp
  have p3: "ic_id phoneInput \<noteq> []" by code_simp
  have p4: "ic_labelFor phoneInput = Some '' Phone  number ''" by code_simp
  have p5: "trim '' Phone  number '' \<noteq> []" by code_simp
  have p6: "cleanLabel (trim '' Phone  number '') = ''Phone number''" by code_simp
  have c1: "attrOrEmpty (ic_ariaLabel cityInput) = []" by code_simp
  have c2: "ic_placeholder cityInput = []" by code_simp
  have c3: "ic_id cityInput = []" by code_simp
  have c4: "ic_containerLabel cityInput = Some (False, '' City '')" by code_simp
  have b1: "attrOrEmpty (ic_ariaLabel bareInput) = []" by code_simp
  have b2: "ic_placeholder bareInput = []" by code_simp
  have b3: "ic_id bareInput = []" by code_simp
  have b4: "ic_containerLabel bareInput = None" by code_simp
  have n1: "attrOrEmpty (ic_ariaLabel nbspInput) = []" by code_simp
  have n2: "ic_placeholder nbspInput = []" by code_simp
  have n3: "trim (attrOrEmpty (ic_labelFor nbspInput)) = []" by code_simp
  have n4: "ic_containerLabel nbspInput = Some (False, [CHR 0xA0] @ ''Full name'' @ [CHR 0xA0])"
    by code_simp
  have n5: "cleanLabel (trim ([CHR 0xA0] @ ''Full name'' @ [CHR 0xA0])) = ''Full name''"
    by code_simp
  note nbsp = label_resolution_order
    [where ctx = nbspInput and c = "[CHR 0xA0] @ ''Full name'' @ [CHR 0xA0]", THEN conjunct2,
     THEN conjunct2, THEN conjunct2, THEN conjunct1, rule_format,
     OF conjI [OF n1 conjI [OF n2 disjI2 [OF disjI2 [OF n3]]]], THEN conjunct1, rule_format,
     OF n4, unfolded n5]
  note aria = label_resolution_order
    [where ctx = ariaInput and a = "''Search jobs''", THEN conjunct1, rule_format,
     OF conjI [OF a1 a2]]
  note placeholder = label_resolution_order
    [where ctx = emailInput, THEN conjunct2, THEN conjunct1, rule_format, OF conjI [OF e1 e3],
     unfolded e2]
  note labelFor = label_resolution_order
    [where ctx = phoneInput and t = "'' Phone  number ''", THEN conjunct2, THEN conjunct2,
     THEN conjunct1, rule_format, OF conjI [OF p1 conjI [OF p2 conjI [OF p3 p4]]]]
  note container = label_resolution_order
    [where ctx = cityInput and c = "'' City ''", THEN conjunct2, THEN conjunct2, THEN conjunct2,
     THEN conjunct1, rule_format, OF conjI [OF c1 conjI [OF c2 disjI1 [OF c3]]]]
  note formNone = label_resolution_order
    [where ctx = cityInput, THEN conjunct2, THEN conjunct2, THEN conjunct2, THEN conjunct2,
     rule_format, OF conjI [OF c1 conjI [OF c2 disjI1 [OF c3]]]]
  note bare = label_resolution_order
    [where ctx = bareInput, THEN conjunct2, THEN conjunct2, THEN conjunct2,
     THEN conjunct1, rule_format, OF conjI [OF b1 conjI [OF b2 disjI1 [OF b3]]]]
  note bareForm = label_resolution_order
    [where ctx = bareInput, THEN conjunct2, THEN conjunct2, THEN conjunct2, THEN conjunct2,
     rule_format, OF conjI [OF b1 conjI [OF b2 disjI1 [OF b3]]]]
  show ?thesis
    by (intro conjI a1 aria [THEN conjunct1] aria [THEN conjunct2] e1 e3
        placeholder [THEN conjunct1] placeholder [THEN conjunct2] p2 p3 p4 p5
        labelFor [THEN conjunct1] labelFor [THEN conjunct2, rule_format, OF p5] p6 c4
        container [THEN conjunct1, rule_format, OF c4] formNone b4
        bare [THEN conjunct2, rule_format, OF disjI1 [OF b4]] bareForm n3 nbsp)
qed

text \<open>
  Claim C4 as stated fails on the order and on the fallbacks. For the e-mail input the
  placeholder wins over the associated label, which the stated order puts first; for the
  input with only a name the code leaves the label empty, where the stated order falls back
  to the name.
\<close>

theorem label_resolution_counterexample:
  "textInputLabel emailInput = ''Enter your email'' \<and>
   analyzeFormLabel emailInput = ''Enter your email'' \<and>
   claimedLabel emailInput ''Field 1'' = ''Email Address'' \<and>
   textInputLabel bareInput = [] \<and>
   analyzeFormLabel bareInput = [] \<and>
   claimedLabel bareInput ''Field 1'' = ''company''"
  by code_simp

section \<open>Properties of option matching\<close>

lemma findMatchingOption_alias:
  "aliasRule optionMatches (toLowerCase target) opts = Some v \<Longrightarrow>
   findMatchingOption (Inr opts) target optionMatches = Some v"
  by (simp add: findMatchingOption_def)

lemma findMatchingOption_exact:
  "aliasRule optionMatches (toLowerCase target) opts = None \<Longrightarrow>
   find (exactPred (toLowerCase target)) opts = Some e \<Longrightarrow>
   findMatchingOption (Inr opts) target optionMatches = Some (opt_value e)"
  by (simp add: findMatchingOption_def)

lemma findMatchingOption_partial:
  "aliasRule optionMatches (toLowerCase target) opts = None \<Longrightarrow>
   find (exactPred (toLowerCase target)) opts = None \<Longrightarrow>
   findMatchingOption (Inr opts) target optionMatches =
     map_option opt_value (find (partialPred (toLowerCase target)) opts)"
  by (simp add: findMatchingOption_def split: option.splits)

lemma find_exact_exists:
  assumes "opt \<in> set opts" and "toLowerCase (opt_text opt) = toLowerCase target"
  shows "\<exists>e. find (exactPred (toLowerCase target)) opts = Some e \<and> e \<in> set opts \<and>
             exactPred (toLowerCase target) e"
proof (cases "find (exactPred (toLowerCase target)) opts")
  case None
  with assms show ?thesis by (auto simp: find_None_iff exactPred_def)
next
  case (Some e)
  then show ?thesis by (auto simp: find_Some_iff)
qed

lemma findMatchingOption_exact_text:
  assumes "aliasRule optionMatches (toLowerCase target) opts = None"
    and "opt \<in> set opts" and "toLowerCase (opt_text opt) = toLowerCase target"
  shows "\<exists>e. e \<in> set opts \<and> exactPred (toLowerCase target) e \<and>
             find (exactPred (toLowerCase target)) opts = Some e \<and>
             findMatchingOption (Inr opts) target optionMatches = Some (opt_value e)"
  using find_exact_exists [OF assms(2,3)] findMatchingOption_exact [OF assms(1)] by blast

text \<open>
  Claim C5, as the code has it. The three rules are tried in the order alias table, exact
  equality of text or value, containment either way, all after lower-casing, and the first
  rule that finds an option decides. An alias hit therefore wins over an exact match. When
  the alias rule finds nothing (in particular when no table is given) and some option's text
  equals the target, the result is the value of the first option whose text or value equals
  the target, whatever options merely overlap with the target; it is the value of the very
  option named when every option equal to the target carries that value.
\<close>

theorem findMatchingOption_rule_order:
  "(aliasRule optionMatches (toLowerCase target) opts = Some v \<longrightarrow>
      findMatchingOption (Inr opts) target optionMatches = Some v) \<and>
   (aliasRule optionMatches (toLowerCase target) opts = None \<and>
    find (exactPred (toLowerCase target)) opts = Some e \<longrightarrow>
      findMatchingOption (Inr opts) target optionMatches = Some (opt_value e)) \<and>
   (aliasRule optionMatches (toLowerCase target) opts = None \<and>
    find (exactPred (toLowerCase target)) opts = None \<longrightarrow>
      findMatchingOption (Inr opts) target optionMatches =
        map_option opt_value (find (partialPred (toLowerCase target)) opts)) \<and>
   aliasRule None (toLowerCase target) opts = None \<and>
   (aliasRule optionMatches (toLowerCase target) opts = None \<and>
    opt \<in> set opts \<and> toLowerCase (opt_text opt) = toLowerCase target \<longrightarrow>
      (\<exists>first. first \<in> set opts \<and> exactPred (toLowerCase target) first \<and>
         find (exactPred (toLowerCase target)) opts = Some first \<and>
         findMatchingOption (Inr opts) target optionMatches = Some (opt_value first)) \<and>
      ((\<forall>other \<in> set opts. exactPred (toLowerCase target) other \<longrightarrow>
           opt_value other = opt_value opt) \<longrightarrow>
       findMatchingOption (Inr opts) target optionMatches = Some (opt_value opt)))"
proof -
  have last: "findMatchingOption (Inr opts) target optionMatches = Some (opt_value opt)"
    if none: "aliasRule optionMatches (toLowerCase target) opts = None"
      and mem: "opt \<in> set opts"
      and same: "toLowerCase (opt_text opt) = toLowerCase target"
      and uniq: "\<forall>other \<in> set opts. exactPred (toLowerCase target) other \<longrightarrow>
           opt_value other = opt_value opt"
  proof -
    from findMatchingOption_exact_text [OF none mem same]
    obtain first where "first \<in> set opts" "exactPred (toLowerCase target) first"
      "findMatchingOption (Inr opts) target optionMatches = Some (opt_value first)"
      by blast
    with uniq show ?thesis by simp
  qed
  have none: "aliasRule None (toLowerCase target) opts = None"
    by (simp add: aliasRule_def)
  show ?thesis
    using findMatchingOption_alias [of optionMatches target opts v]
      findMatchingOption_exact [of optionMatches target opts e]
      findMatchingOption_partial [of optionMatches target opts]
      findMatchingOption_exact_text [of optionMatches target opts opt]
      last none
    by blast
qed

theorem findMatchingOption_rule_order_witness:
  "aliasRule (Some authAliases) (toLowerCase ''Yes'') authOptions = Some ''sponsor'' \<and>
   findMatchingOption (Inr authOptions) ''Yes'' (Some authAliases) = Some ''sponsor'' \<and>
   find (exactPred (toLowerCase ''Yes'')) authOptions = Some (authOptions ! 1) \<and>
   find (exactPred (toLowerCase ''sponsorship'')) authOptions = None \<and>
   findMatchingOption (Inr authOptions) ''sponsorship'' None = Some ''sponsor'' \<and>
   authOptions ! 1 \<in> set authOptions \<and>
   toLowerCase (opt_text (authOptions ! 1)) = toLowerCase ''Yes'' \<and>
   partialPred (toLowerCase ''Yes'') (authOptions ! 0) \<and>
   findMatchingOption (Inr authOptions) ''Yes'' None = Some (opt_value (authOptions ! 1)) \<and>
   opt_value (authOptions ! 1) = ''yes'' \<and>
   find (exactPred (toLowerCase cafe)) cafeOptions = Some (cafeOptions ! 1) \<and>
   findMatchingOption (Inr cafeOptions) cafe None = Some ''c1''"
proof -
  have byKey: "aliasRule (Some authAliases) (toLowerCase ''Yes'') authOptions = Some ''sponsor''"
    by code_simp
  have none: "aliasRule None (toLowerCase ''Yes'') authOptions = None"
    by (simp add: aliasRule_def)
  have none': "aliasRule None (toLowerCase ''sponsorship'') authOptions = None"
    by (simp add: aliasRule_def)
  have exact: "find (exactPred (toLowerCase ''Yes'')) authOptions = Some (authOptions ! 1)"
    by code_simp
  have inexact: "find (exactPred (toLowerCase ''sponsorship'')) authOptions = None"
    by code_simp
  have part: "map_option opt_value (find (partialPred (toLowerCase ''sponsorship'')) authOptions) =
      Some ''sponsor''"
    by code_simp
  have mem: "authOptions ! 1 \<in> set authOptions"
    by (simp add: authOptions_def)
  have same: "toLowerCase (opt_text (authOptions ! 1)) = toLowerCase ''Yes''"
    by (simp add: authOptions_def)
  have overlap: "partialPred (toLowerCase ''Yes'') (authOptions ! 0)"
    by code_simp
  have uniq: "\<forall>other \<in> set authOptions. exactPred (toLowerCase ''Yes'') other \<longrightarrow>
      opt_value other = opt_value (authOptions ! 1)"
    by code_simp
  have val: "opt_value (authOptions ! 1) = ''yes''"
    by (simp add: authOptions_def)
  have noTable: "aliasRule None (toLowerCase cafe) cafeOptions = None"
    by (simp add: aliasRule_def)
  have accented: "find (exactPred (toLowerCase cafe)) cafeOptions = Some (cafeOptions ! 1)"
    by code_simp
  have c1: "opt_value (cafeOptions ! 1) = ''c1''"
    by (simp add: cafeOptions_def)
  note byAccented = findMatchingOption_rule_order
    [where optionMatches = None and target = cafe and opts = cafeOptions
       and e = "cafeOptions ! 1", THEN conjunct2, THEN conjunct1, rule_format,
     OF conjI [OF noTable accented], unfolded c1]
  note byAlias = findMatchingOption_rule_order
    [where optionMatches = "Some authAliases" and target = "''Yes''" and opts = authOptions
       and v = "''sponsor''", THEN conjunct1, rule_format, OF byKey]
  note byExact = findMatchingOption_rule_order
    [where optionMatches = None and target = "''Yes''" and opts = authOptions
       and e = "authOptions ! 1", THEN conjunct2, THEN conjunct1, rule_format,
     OF conjI [OF none exact]]
  note byPartial = findMatchingOption_rule_order
    [where optionMatches = None and target = "''sponsorship''" and opts = authOptions,
     THEN conjunct2, THEN conjunct2, THEN conjunct1, rule_format, OF conjI [OF none' inexact],
     unfolded part]
  note byText = findMatchingOption_rule_order
    [where optionMatches = None and target = "''Yes''" and opts = authOptions
       and opt = "authOptions ! 1", THEN conjunct2, THEN conjunct2, THEN conjunct2,
     THEN conjunct2, rule_format, OF conjI [OF none conjI [OF mem same]]]
  show ?thesis
    by (intro conjI byKey byAlias exact inexact byPartial mem same overlap
        byText [THEN conjunct2, THEN mp, OF uniq] val accented byAccented)
qed

text \<open>
  Claim C5 as stated fails: the option list holds an exact match for the target \<^verbatim>\<open>Yes\<close>,
  and with the alias table the matcher returns another option, the first one that contains
  the alias key.
\<close>

theorem findMatchingOption_exact_counterexample:
  "authOptions ! 1 = \<lparr> opt_value = ''yes'', opt_text = ''Yes'' \<rparr> \<and>
   toLowerCase (opt_text (authOptions ! 1)) = toLowerCase ''Yes'' \<and>
   findMatchingOption (Inr authOptions) ''Yes'' (Some authAliases) = Some ''sponsor'' \<and>
   opt_value (authOptions ! 0) = ''sponsor''"
  by code_simp

section \<open>Properties of profile path resolution\<close>

lemma splitOn_no_separator: "d \<notin> set s \<Longrightarrow> splitOn d s = [s]"
  by (induction s) auto

lemma splitOn_append: "d \<notin> set a \<Longrightarrow> splitOn d (a @ d # b) = a # splitOn d b"
  by (induction a) auto

lemma isWord_not_dot: "isWord c \<Longrightarrow> c \<noteq> CHR ''.''"
  by (auto simp: isWord_def)

lemma isWord_not_bracket: "isWord c \<Longrightarrow> c \<noteq> CHR ''[''"
  by (auto simp: isWord_def)

lemma digitChar_isDigit: "d < 10 \<Longrightarrow> isDigit (digitChar d)"
proof -
  assume "d < 10"
  then have "d \<in> {0, 1, 2, 3, 4, 5, 6, 7, 8, 9}" by auto
  then show ?thesis by (auto simp: isDigit_def digitChar_def)
qed

lemma digitVal_digitChar: "d < 10 \<Longrightarrow> digitVal (digitChar d) = d"
proof -
  assume "d < 10"
  then have "d \<in> {0, 1, 2, 3, 4, 5, 6, 7, 8, 9}" by auto
  then show ?thesis by (auto simp: digitVal_def digitChar_def)
qed

lemma showNat_digits: "list_all isDigit (showNat n) \<and> showNat n \<noteq> []"
proof (induction n rule: showNat.induct)
  case (1 n)
  show ?case
  proof (cases "n < 10")
    case True
    then show ?thesis by (simp add: showNat.simps [of n] digitChar_isDigit)
  next
    case False
    with 1 show ?thesis by (simp add: showNat.simps [of n] digitChar_isDigit)
  qed
qed

lemma parseInt_snoc: "parseInt (ds @ [c]) = 10 * parseInt ds + digitVal c"
  by (simp add: parseInt_def)

lemma parseInt_showNat: "parseInt (showNat n) = n"
proof (induction n rule: showNat.induct)
  case (1 n)
  show ?case
  proof (cases "n < 10")
    case True
    then show ?thesis by (simp add: showNat.simps [of n] parseInt_def digitVal_digitChar)
  next
    case False
    with 1 have "parseInt (showNat (n div 10)) = n div 10" by simp
    with False show ?thesis
      by (simp add: showNat.simps [of n] parseInt_snoc digitVal_digitChar)
  qed
qed

lemma isDigit_not_dot: "isDigit c \<Longrightarrow> c \<noteq> CHR ''.''"
  by (auto simp: isDigit_def)

lemma isDigit_not_close: "isDigit c \<Longrightarrow> c \<noteq> CHR '']''"
  by (auto simp: isDigit_def)

lemma showSegment_no_dot: "wellFormed seg \<Longrightarrow> CHR ''.'' \<notin> set (showSegment seg)"
proof (cases seg)
  case (Key k)
  assume "wellFormed seg"
  with Key show ?thesis by (auto simp: wellFormed_def list_all_iff dest: isWord_not_dot)
next
  case (Indexed k i)
  assume "wellFormed seg"
  with Indexed showNat_digits [of i] show ?thesis
    by (auto simp: wellFormed_def list_all_iff dest: isWord_not_dot isDigit_not_dot)
qed

lemma split_showPath:
  "list_all wellFormed segs \<Longrightarrow> segs \<noteq> [] \<Longrightarrow>
   splitOn CHR ''.'' (showPath segs) = map showSegment segs"
proof (induction segs rule: showPath.induct)
  case 1
  then show ?case by simp
next
  case (2 seg)
  then show ?case by (simp add: splitOn_no_separator showSegment_no_dot)
next
  case (3 seg seg' rest)
  then have "CHR ''.'' \<notin> set (showSegment seg)" by (simp add: showSegment_no_dot)
  from splitOn_append [OF this, of "showPath (seg' # rest)"] 3 show ?case by simp
qed

lemma matchAt_words: "list_all isWord s \<Longrightarrow> matchAt s = None"
proof -
  assume "list_all isWord s"
  then have d: "dropWhile isWord s = []"
    by (simp add: list_all_iff)
  show ?thesis unfolding matchAt_def Let_def d by simp
qed

lemma arrayMatch_words: "list_all isWord s \<Longrightarrow> arrayMatch s = None"
  by (induction s) (simp_all add: matchAt_words)

lemma matchAt_indexed:
  assumes "k \<noteq> []" and "list_all isWord k"
  shows "matchAt (showSegment (Indexed k i)) = Some (k, showNat i)"
proof -
  have w: "takeWhile isWord (k @ ''['' @ showNat i @ '']'') = k"
    using assms(2) by (simp add: takeWhile_append2 list_all_iff isWord_def)
  have d: "dropWhile isWord (k @ ''['' @ showNat i @ '']'') = ''['' @ showNat i @ '']''"
    using assms(2) by (simp add: dropWhile_append2 list_all_iff isWord_def)
  have n: "takeWhile isDigit (showNat i @ '']'') = showNat i"
    using showNat_digits [of i] by (simp add: takeWhile_append2 list_all_iff isDigit_def)
  have r: "dropWhile isDigit (showNat i @ '']'') = '']''"
    using showNat_digits [of i] by (simp add: dropWhile_append2 list_all_iff isDigit_def)
  from w d n r assms(1) showNat_digits [of i] show ?thesis
    by (simp add: matchAt_def Let_def)
qed

lemma arrayMatch_indexed:
  assumes "k \<noteq> []" and "list_all isWord k"
  shows "arrayMatch (showSegment (Indexed k i)) = Some (k, showNat i)"
proof -
  from assms(1) obtain c cs where "showSegment (Indexed k i) = c # cs"
    by (cases k) auto
  with matchAt_indexed [OF assms, of i] show ?thesis by simp
qed

lemma pathStep_key:
  "wellFormed (Key k) \<Longrightarrow> pathStep realm v (showSegment (Key k)) = jsGet realm v k"
  by (simp add: pathStep_def wellFormed_def arrayMatch_words)

lemma pathStep_indexed:
  "wellFormed (Indexed k i) \<Longrightarrow>
   pathStep realm v (showSegment (Indexed k i)) =
     (let w = jsGet realm v k in case w of JArr xs \<Rightarrow> jsIndex xs i | _ \<Rightarrow> w)"
  unfolding pathStep_def
  by (simp add: wellFormed_def arrayMatch_indexed parseInt_showNat Let_def
      del: arrayMatch.simps showSegment.simps cong: json.case_cong)

lemma pathLoop_nothing: "v = JNull \<or> v = JUndefined \<Longrightarrow> pathLoop realm v parts = None"
  by (cases parts) auto

lemma jsGet_own: "map_of kvs k = Some x \<Longrightarrow> jsGet realm (JObj kvs) k = x"
  by (simp add: jsGet_def)

lemma jsGet_inherited: "map_of kvs k = None \<Longrightarrow> jsGet realm (JObj kvs) k = inherited realm (JObj kvs) k"
  by (simp add: jsGet_def)

lemma pathLoop_dataAt:
  "list_all wellFormed segs \<Longrightarrow> dataAt v segs = Some w \<Longrightarrow>
   pathLoop realm v (map showSegment segs @ parts) = pathLoop realm w parts"
proof (induction segs arbitrary: v)
  case Nil
  then show ?case by simp
next
  case (Cons seg rest)
  from Cons.prems(2) obtain kvs where v: "v = JObj kvs"
    by (cases v) simp_all
  from Cons.prems(1) have wf: "wellFormed seg" and wfs: "list_all wellFormed rest"
    by simp_all
  show ?case
  proof (cases seg)
    case (Key k)
    with Cons.prems(2) v obtain x where own: "map_of kvs k = Some x" and at: "dataAt x rest = Some w"
      by (cases "map_of kvs k") simp_all
    from wf Key have "pathStep realm v (showSegment seg) = x"
      using pathStep_key [of k realm v] jsGet_own [OF own] v by simp
    with Cons.IH [OF wfs at] v show ?thesis
      by (simp del: showSegment.simps)
  next
    case (Indexed k i)
    with Cons.prems(2) v obtain xs where own: "map_of kvs k = Some (JArr xs)"
      and len: "i < length xs" and at: "dataAt (xs ! i) rest = Some w"
      by (auto split: option.splits json.splits if_splits)
    from wf Indexed have "pathStep realm v (showSegment seg) = xs ! i"
      using pathStep_indexed [of k i realm v] jsGet_own [OF own] v len
      by (simp add: jsIndex_def del: showSegment.simps)
    with Cons.IH [OF wfs at] v show ?thesis
      by (simp del: showSegment.simps)
  qed
qed

lemma getProfileValue_dataAt:
  assumes "list_all wellFormed segs" and "segs \<noteq> []" and "dataAt profile segs = Some v"
  shows "getProfileValue realm profile (showPath segs) = asProfileValue v"
  using pathLoop_dataAt [OF assms(1,3), of realm "[]"]
  by (simp add: getProfileValue_def split_showPath [OF assms(1,2)])

lemma getProfileValue_prefix:
  assumes "list_all wellFormed (pre @ post)" and "post \<noteq> []" and "dataAt profile pre = Some v"
  shows "getProfileValue realm profile (showPath (pre @ post)) =
         pathLoop realm v (map showSegment post)"
proof -
  from assms(1) have "list_all wellFormed pre" by simp
  from pathLoop_dataAt [OF this assms(3), of realm "map showSegment post"] assms(1,2)
  show ?thesis
    by (simp add: getProfileValue_def split_showPath)
qed

lemma pathStep_missing:
  assumes "wellFormed seg" and "map_of kvs (segKey seg) = None"
    and "inherited realm (JObj kvs) (segKey seg) = JUndefined \<or>
         inherited realm (JObj kvs) (segKey seg) = JNull"
  shows "pathStep realm (JObj kvs) (showSegment seg) = JUndefined \<or>
         pathStep realm (JObj kvs) (showSegment seg) = JNull"
proof (cases seg)
  case (Key k)
  with assms show ?thesis
    using pathStep_key [of k realm "JObj kvs"] jsGet_inherited [of kvs k realm] by auto
next
  case (Indexed k i)
  with assms show ?thesis
    using pathStep_indexed [of k i realm "JObj kvs"] jsGet_inherited [of kvs k realm]
    by (auto simp del: showSegment.simps)
qed

lemma getProfileValue_missing_key:
  assumes "list_all wellFormed (pre @ seg # post)" and "dataAt profile pre = Some (JObj kvs)"
    and "map_of kvs (segKey seg) = None"
    and "inherited realm (JObj kvs) (segKey seg) = JUndefined \<or>
         inherited realm (JObj kvs) (segKey seg) = JNull"
  shows "getProfileValue realm profile (showPath (pre @ seg # post)) = None"
proof -
  from assms(1) have "wellFormed seg" by simp
  from pathStep_missing [OF this assms(3,4)]
  have "pathLoop realm (pathStep realm (JObj kvs) (showSegment seg)) (map showSegment post) = None"
    using pathLoop_nothing [of "pathStep realm (JObj kvs) (showSegment seg)" realm] by blast
  with getProfileValue_prefix [OF assms(1) _ assms(2), of realm] show ?thesis
    by (simp del: showSegment.simps)
qed

lemma getProfileValue_beyond_end:
  assumes "list_all wellFormed (pre @ Indexed k i # post)"
    and "dataAt profile pre = Some (JObj kvs)"
    and "map_of kvs k = Some (JArr xs)" and "length xs \<le> i"
  shows "getProfileValue realm profile (showPath (pre @ Indexed k i # post)) = None"
proof -
  from assms(1) have "wellFormed (Indexed k i)" by simp
  from pathStep_indexed [OF this, of realm "JObj kvs"] jsGet_own [OF assms(3), of realm] assms(4)
  have "pathStep realm (JObj kvs) (showSegment (Indexed k i)) = JUndefined"
    by (simp add: jsIndex_def del: showSegment.simps)
  then have "pathLoop realm (pathStep realm (JObj kvs) (showSegment (Indexed k i)))
      (map showSegment post) = None"
    by (simp add: pathLoop_nothing del: showSegment.simps)
  with getProfileValue_prefix [OF assms(1) _ assms(2), of realm] show ?thesis
    by (simp del: showSegment.simps)
qed

lemma getProfileValue_index_ignored:
  assumes "list_all wellFormed (pre @ Indexed k i # post)"
    and "dataAt profile pre = Some (JObj kvs)"
    and "map_of kvs k = Some x" and "\<not> isArray x"
  shows "getProfileValue realm profile (showPath (pre @ Indexed k i # post)) =
         getProfileValue realm profile (showPath (pre @ Key k # post))"
proof -
  from assms(1) have wi: "wellFormed (Indexed k i)" by simp
  then have wk: "wellFormed (Key k)" by (simp add: wellFormed_def)
  with assms(1) have wf: "list_all wellFormed (pre @ Key k # post)" by simp
  from assms(4) have "(case x of JArr xs \<Rightarrow> jsIndex xs i | _ \<Rightarrow> x) = x"
    by (cases x) simp_all
  with pathStep_indexed [OF wi, of realm "JObj kvs"] pathStep_key [OF wk, of realm "JObj kvs"]
    jsGet_own [OF assms(3), of realm]
  have "pathStep realm (JObj kvs) (showSegment (Indexed k i)) =
        pathStep realm (JObj kvs) (showSegment (Key k))"
    by (simp del: showSegment.simps)
  with getProfileValue_prefix [OF assms(1) _ assms(2), of realm]
    getProfileValue_prefix [OF wf _ assms(2), of realm]
  show ?thesis
    by (simp del: showSegment.simps)
qed

lemma getProfileValue_after_null:
  assumes "list_all wellFormed (pre @ post)" and "post \<noteq> []" and "dataAt profile pre = Some v"
    and "v = JNull \<or> v = JUndefined"
  shows "getProfileValue realm profile (showPath (pre @ post)) = None"
  using getProfileValue_prefix [OF assms(1,2,3), of realm] pathLoop_nothing [OF assms(4)]
  by simp

lemma getProfileValue_inherited_key:
  assumes "list_all wellFormed (pre @ Key k # post)" and "dataAt profile pre = Some (JObj kvs)"
    and "map_of kvs k = None"
  shows "getProfileValue realm profile (showPath (pre @ Key k # post)) =
         (if post = [] then asProfileValue (inherited realm (JObj kvs) k)
          else getProfileValue realm (inherited realm (JObj kvs) k) (showPath post))"
proof -
  from assms(1) have wk: "wellFormed (Key k)" and wp: "list_all wellFormed post" by simp_all
  from pathStep_key [OF wk, of realm "JObj kvs"] jsGet_inherited [OF assms(3), of realm]
  have step: "pathStep realm (JObj kvs) (showSegment (Key k)) = inherited realm (JObj kvs) k"
    by simp
  from getProfileValue_prefix [OF assms(1) _ assms(2), of realm] step
  have "getProfileValue realm profile (showPath (pre @ Key k # post)) =
      pathLoop realm (inherited realm (JObj kvs) k) (map showSegment post)"
    by simp
  then show ?thesis
    by (simp add: getProfileValue_def split_showPath [OF wp])
qed

lemma showPath_education_0:
  "showPath [Indexed ''education'' 0, Key ''school''] = ''education[0].school''"
  by (simp add: showNat.simps digitChar_def)

lemma showPath_education_5:
  "showPath [Indexed ''education'' 5, Key ''school''] = ''education[5].school''"
  by (simp add: showNat.simps digitChar_def)

lemma education_path_wellFormed:
  "list_all wellFormed [Indexed ''education'' i, Key ''school'']"
  by (simp add: wellFormed_def isWord_def)

lemma dataAt_first_school:
  "es \<noteq> [] \<Longrightarrow>
   dataAt (profileJson others es) [Indexed ''education'' 0, Key ''school''] =
     Some (JStr (school (hd es)))"
  by (cases es) (simp_all add: profileJson_def educationJson_def)

lemma getProfileValue_first_school:
  assumes "es \<noteq> []"
  shows "getProfileValue realm (profileJson others es) ''education[0].school'' =
         Some (PString (school (hd es)))"
  using getProfileValue_dataAt [OF education_path_wellFormed _ dataAt_first_school [OF assms],
      of realm others]
  by (simp only: showPath_education_0 asProfileValue.simps) simp

lemma getProfileValue_sixth_school:
  assumes "length es < 6"
  shows "getProfileValue realm (profileJson others es) ''education[5].school'' = None"
proof -
  have at: "dataAt (profileJson others es) [] = Some (JObj ((''education'', JArr (map educationJson es)) # others))"
    by (simp add: profileJson_def)
  have own: "map_of ((''education'', JArr (map educationJson es)) # others) ''education'' =
      Some (JArr (map educationJson es))"
    by simp
  from assms have len: "length (map educationJson es) \<le> 5" by simp
  have wf: "list_all wellFormed ([] @ Indexed ''education'' 5 # [Key ''school''])"
    using education_path_wellFormed [of 5] by simp
  from getProfileValue_beyond_end [OF wf at own len, of realm] show ?thesis
    by (simp only: append_Nil showPath_education_5)
qed

text \<open>
  Claim C8, as the code has it. For every profile with at least one education entry the path
  \<^verbatim>\<open>education[0].school\<close> resolves to the school of the first entry, and for every profile
  with fewer than six entries \<^verbatim>\<open>education[5].school\<close> resolves to \<^verbatim>\<open>undefined\<close>, in every
  realm. In general, for paths of identifiers:
  \<^item> when no segment is missing in the profile data, the result is the value the
    specification gives;
  \<^item> after segments that are not missing, a segment whose key the object reached neither
    owns nor inherits makes the result \<^verbatim>\<open>undefined\<close>, and so does an index at or beyond the
    end of the array reached, wherever in the path the segment stands;
  \<^item> an index written after a property that is not an array is ignored: the path resolves
    as it does without the index;
  \<^item> segments that follow a value \<^verbatim>\<open>null\<close> or \<^verbatim>\<open>undefined\<close> make the result \<^verbatim>\<open>undefined\<close>;
  \<^item> a key that the object reached does not own resolves to the member it inherits, and
    the rest of the path is resolved in that member.
\<close>

theorem getProfileValue_education_paths:
  "(es \<noteq> [] \<longrightarrow>
      getProfileValue realm (profileJson others es) ''education[0].school'' =
        Some (PString (school (hd es)))) \<and>
   (length es < 6 \<longrightarrow>
      getProfileValue realm (profileJson others es) ''education[5].school'' = None) \<and>
   (list_all wellFormed segs \<and> segs \<noteq> [] \<and> dataAt profile segs = Some v \<longrightarrow>
      getProfileValue realm profile (showPath segs) = resolveProfileValue profile segs) \<and>
   (list_all wellFormed (pre @ seg # post) \<and> dataAt profile pre = Some (JObj kvs) \<and>
    map_of kvs (segKey seg) = None \<and>
    (inherited realm (JObj kvs) (segKey seg) = JUndefined \<or>
     inherited realm (JObj kvs) (segKey seg) = JNull) \<longrightarrow>
      getProfileValue realm profile (showPath (pre @ seg # post)) = None) \<and>
   (list_all wellFormed (pre @ Indexed k i # post) \<and> dataAt profile pre = Some (JObj kvs) \<and>
    map_of kvs k = Some (JArr xs) \<and> length xs \<le> i \<longrightarrow>
      getProfileValue realm profile (showPath (pre @ Indexed k i # post)) = None) \<and>
   (list_all wellFormed (pre @ Indexed k i # post) \<and> dataAt profile pre = Some (JObj kvs) \<and>
    map_of kvs k = Some x \<and> \<not> isArray x \<longrightarrow>
      getProfileValue realm profile (showPath (pre @ Indexed k i # post)) =
        getProfileValue realm profile (showPath (pre @ Key k # post))) \<and>
   (list_all wellFormed (pre @ post) \<and> post \<noteq> [] \<and> dataAt profile pre = Some v \<and>
    (v = JNull \<or> v = JUndefined) \<longrightarrow>
      getProfileValue realm profile (showPath (pre @ post)) = None) \<and>
   (list_all wellFormed (pre @ Key k # post) \<and> dataAt profile pre = Some (JObj kvs) \<and>
    map_of kvs k = None \<longrightarrow>
      getProfileValue realm profile (showPath (pre @ Key k # post)) =
        (if post = [] then asProfileValue (inherited realm (JObj kvs) k)
         else getProfileValue realm (inherited realm (JObj kvs) k) (showPath post)))"
proof (intro conjI impI)
  assume "es \<noteq> []"
  then show "getProfileValue realm (profileJson others es) ''education[0].school'' =
      Some (PString (school (hd es)))"
    by (rule getProfileValue_first_school)
next
  assume "length es < 6"
  then show "getProfileValue realm (profileJson others es) ''education[5].school'' = None"
    by (rule getProfileValue_sixth_school)
next
  assume h: "list_all wellFormed segs \<and> segs \<noteq> [] \<and> dataAt profile segs = Some v"
  then have "getProfileValue realm profile (showPath segs) = asProfileValue v"
    using getProfileValue_dataAt [of segs profile v realm] by simp
  with h show "getProfileValue realm profile (showPath segs) = resolveProfileValue profile segs"
    by (simp add: resolveProfileValue_def)
next
  assume "list_all wellFormed (pre @ seg # post) \<and> dataAt profile pre = Some (JObj kvs) \<and>
    map_of kvs (segKey seg) = None \<and>
    (inherited realm (JObj kvs) (segKey seg) = JUndefined \<or>
     inherited realm (JObj kvs) (segKey seg) = JNull)"
  then show "getProfileValue realm profile (showPath (pre @ seg # post)) = None"
    using getProfileValue_missing_key [of pre seg post profile kvs realm] by blast
next
  assume "list_all wellFormed (pre @ Indexed k i # post) \<and> dataAt profile pre = Some (JObj kvs) \<and>
    map_of kvs k = Some (JArr xs) \<and> length xs \<le> i"
  then show "getProfileValue realm profile (showPath (pre @ Indexed k i # post)) = None"
    using getProfileValue_beyond_end [of pre k i post profile kvs xs realm] by blast
next
  assume "list_all wellFormed (pre @ Indexed k i # post) \<and> dataAt profile pre = Some (JObj kvs) \<and>
    map_of kvs k = Some x \<and> \<not> isArray x"
  then show "getProfileValue realm profile (showPath (pre @ Indexed k i # post)) =
      getProfileValue realm profile (showPath (pre @ Key k # post))"
    using getProfileValue_index_ignored [of pre k i post profile kvs x realm] by blast
next
  assume "list_all wellFormed (pre @ post) \<and> post \<noteq> [] \<and> dataAt profile pre = Some v \<and>
    (v = JNull \<or> v = JUndefined)"
  then show "getProfileValue realm profile (showPath (pre @ post)) = None"
    using getProfileValue_after_null [of pre post profile v realm] by blast
next
  assume "list_all wellFormed (pre @ Key k # post) \<and> dataAt profile pre = Some (JObj kvs) \<and>
    map_of kvs k = None"
  then show "getProfileValue realm profile (showPath (pre @ Key k # post)) =
      (if post = [] then asProfileValue (inherited realm (JObj kvs) k)
       else getProfileValue realm (inherited realm (JObj kvs) k) (showPath post))"
    using getProfileValue_inherited_key [of pre k post profile kvs realm] by blast
qed

theorem getProfileValue_education_paths_witness:
  "getProfileValue sampleRealm sampleProfile ''education[0].school'' = Some (PString ''MIT'') \<and>
   getProfileValue sampleRealm sampleProfile ''education[5].school'' = None \<and>
   dataAt sampleProfile [Key ''personal'', Key ''first_name''] = Some (JStr ''Ada'') \<and>
   getProfileValue sampleRealm sampleProfile ''personal.first_name'' = Some (PString ''Ada'') \<and>
   dataAt sampleProfile [Key ''personal''] = Some personalJson \<and>
   inherited sampleRealm personalJson ''nickname'' = JUndefined \<and>
   getProfileValue sampleRealm sampleProfile ''personal.nickname.first'' = None \<and>
   getProfileValue sampleRealm sampleProfile ''education[2].degree'' = None \<and>
   \<not> isArray personalJson \<and>
   getProfileValue sampleRealm sampleProfile ''personal[7].first_name'' =
     getProfileValue sampleRealm sampleProfile ''personal.first_name'' \<and>
   dataAt sampleProfile [Key ''personal'', Key ''middle_name''] = Some JNull \<and>
   getProfileValue sampleRealm sampleProfile ''personal.middle_name.initial'' = None \<and>
   inherited sampleRealm sampleProfile ''constructor'' = JBuiltin ''Object'' \<and>
   getProfileValue sampleRealm sampleProfile ''constructor.name'' =
     getProfileValue sampleRealm (JBuiltin ''Object'') ''name'' \<and>
   getProfileValue sampleRealm (JBuiltin ''Object'') ''name'' = Some (PString ''Object'')"
proof -
  let ?others = "[(''personal'', personalJson)]"
  let ?kvs = "[(''first_name'', JStr ''Ada''), (''middle_name'', JNull)]"
  let ?top = "(''education'', JArr (map educationJson [sampleEducation])) # ?others"
  have wf: "wellFormed (Key ''personal'')" "wellFormed (Key ''first_name'')"
    "wellFormed (Key ''nickname'')" "wellFormed (Key ''first'')" "wellFormed (Key ''degree'')"
    "wellFormed (Key ''middle_name'')" "wellFormed (Key ''initial'')"
    "wellFormed (Indexed ''education'' 2)" "wellFormed (Indexed ''personal'' 7)"
    "wellFormed (Key ''constructor'')" "wellFormed (Key ''name'')"
    by (simp_all add: wellFormed_def isWord_def)
  have sch: "school (hd [sampleEducation]) = ''MIT''"
    by (simp add: sampleEducation_def)
  have top: "sampleProfile = JObj ?top"
    by (simp add: sampleProfile_def profileJson_def)
  have name: "dataAt sampleProfile [Key ''personal'', Key ''first_name''] = Some (JStr ''Ada'')"
    by (simp add: sampleProfile_def profileJson_def personalJson_def)
  have personal: "dataAt sampleProfile [Key ''personal''] = Some (JObj ?kvs)"
    by (simp add: sampleProfile_def profileJson_def personalJson_def)
  have middle: "dataAt sampleProfile [Key ''personal'', Key ''middle_name''] = Some JNull"
    by (simp add: sampleProfile_def profileJson_def personalJson_def)
  have uninherited: "inherited sampleRealm (JObj ?kvs) ''nickname'' = JUndefined"
    by code_simp
  have plain: "\<not> isArray (JObj ?kvs)"
    by simp
  have paths:
    "showPath [Key ''personal'', Key ''first_name''] = ''personal.first_name''"
    "showPath ([Key ''personal''] @ Key ''nickname'' # [Key ''first'']) = ''personal.nickname.first''"
    "showPath ([] @ Indexed ''education'' 2 # [Key ''degree'']) = ''education[2].degree''"
    "showPath ([] @ Indexed ''personal'' 7 # [Key ''first_name'']) = ''personal[7].first_name''"
    "showPath ([] @ Key ''personal'' # [Key ''first_name'']) = ''personal.first_name''"
    "showPath ([Key ''personal'', Key ''middle_name''] @ [Key ''initial'']) =
       ''personal.middle_name.initial''"
    "showPath ([] @ Key ''constructor'' # [Key ''name'']) = ''constructor.name''"
    "showPath [Key ''name''] = ''name''"
    by (simp_all add: showNat.simps digitChar_def)
  have spec: "resolveProfileValue sampleProfile [Key ''personal'', Key ''first_name''] =
      Some (PString ''Ada'')"
    by (simp add: resolveProfileValue_def name)
  note first = getProfileValue_education_paths
    [where realm = sampleRealm and es = "[sampleEducation]" and others = ?others,
     THEN conjunct1, rule_format, folded sampleProfile_def, unfolded sch]
  note sixth = getProfileValue_education_paths
    [where realm = sampleRealm and es = "[sampleEducation]" and others = ?others,
     THEN conjunct2, THEN conjunct1, rule_format, folded sampleProfile_def]
  note found = getProfileValue_education_paths
    [where realm = sampleRealm and profile = sampleProfile
       and segs = "[Key ''personal'', Key ''first_name'']" and v = "JStr ''Ada''",
     THEN conjunct2, THEN conjunct2, THEN conjunct1, rule_format, unfolded paths spec]
  note missing = getProfileValue_education_paths
    [where realm = sampleRealm and profile = sampleProfile and pre = "[Key ''personal'']"
       and seg = "Key ''nickname''" and post = "[Key ''first'']" and kvs = ?kvs,
     THEN conjunct2, THEN conjunct2, THEN conjunct2, THEN conjunct1, rule_format,
     unfolded paths]
  note beyond = getProfileValue_education_paths
    [where realm = sampleRealm and profile = sampleProfile and pre = "[]"
       and k = "''education''" and i = 2 and post = "[Key ''degree'']" and kvs = ?top
       and xs = "map educationJson [sampleEducation]",
     THEN conjunct2, THEN conjunct2, THEN conjunct2, THEN conjunct2, THEN conjunct1,
     rule_format, unfolded paths]
  note ignored = getProfileValue_education_paths
    [where realm = sampleRealm and profile = sampleProfile and pre = "[]"
       and k = "''personal''" and i = 7 and post = "[Key ''first_name'']" and kvs = ?top
       and x = "JObj ?kvs",
     THEN conjunct2, THEN conjunct2, THEN conjunct2, THEN conjunct2, THEN conjunct2,
     THEN conjunct1, rule_format, unfolded paths]
  note afterNull = getProfileValue_education_paths
    [where realm = sampleRealm and profile = sampleProfile
       and pre = "[Key ''personal'', Key ''middle_name'']" and post = "[Key ''initial'']"
       and v = JNull,
     THEN conjunct2, THEN conjunct2, THEN conjunct2, THEN conjunct2, THEN conjunct2,
     THEN conjunct2, THEN conjunct1, rule_format, unfolded paths]
  have ctor: "inherited sampleRealm (JObj ?top) ''constructor'' = JBuiltin ''Object''"
    by code_simp
  have named: "getProfileValue sampleRealm (JBuiltin ''Object'') ''name'' = Some (PString ''Object'')"
    by code_simp
  note inheritedKey = getProfileValue_education_paths
    [where realm = sampleRealm and profile = sampleProfile and pre = "[]"
       and k = "''constructor''" and post = "[Key ''name'']" and kvs = ?top,
     THEN conjunct2, THEN conjunct2, THEN conjunct2, THEN conjunct2, THEN conjunct2,
     THEN conjunct2, THEN conjunct2, rule_format, unfolded paths ctor]
  have a: "getProfileValue sampleRealm sampleProfile ''education[0].school'' = Some (PString ''MIT'')"
    by (rule first) simp
  have b: "getProfileValue sampleRealm sampleProfile ''education[5].school'' = None"
    by (rule sixth) simp
  have c: "getProfileValue sampleRealm sampleProfile ''personal.first_name'' = Some (PString ''Ada'')"
    by (rule found) (simp add: wf name)
  have d: "getProfileValue sampleRealm sampleProfile ''personal.nickname.first'' = None"
    by (rule missing) (simp add: wf personal uninherited)
  have e: "getProfileValue sampleRealm sampleProfile ''education[2].degree'' = None"
    by (rule beyond) (simp add: wf top)
  have f: "getProfileValue sampleRealm sampleProfile ''personal[7].first_name'' =
      getProfileValue sampleRealm sampleProfile ''personal.first_name''"
    by (rule ignored) (simp add: wf top personalJson_def)
  have g: "getProfileValue sampleRealm sampleProfile ''personal.middle_name.initial'' = None"
    by (rule afterNull) (simp add: wf middle)
  have h: "getProfileValue sampleRealm sampleProfile ''constructor.name'' =
      getProfileValue sampleRealm (JBuiltin ''Object'') ''name''"
    using inheritedKey by (simp add: wf top)
  from uninherited have u: "inherited sampleRealm personalJson ''nickname'' = JUndefined"
    by (simp add: personalJson_def)
  from ctor have ctor': "inherited sampleRealm sampleProfile ''constructor'' = JBuiltin ''Object''"
    by (simp add: top)
  from a b name c personal u d e plain f middle g ctor' h named show ?thesis
    by (simp add: personalJson_def)
qed

text \<open>
  Claim C8 as stated fails on the general half. In the sample profile \<^verbatim>\<open>personal\<close> is an
  object, so the segment \<^verbatim>\<open>personal[7]\<close> names nothing and the specification gives
  \<^verbatim>\<open>undefined\<close> for \<^verbatim>\<open>personal[7].first_name\<close>; the code ignores the index and returns the
  first name. The profile has no property \<^verbatim>\<open>constructor\<close> either, and for
  \<^verbatim>\<open>constructor.name\<close> the code returns the name of the inherited constructor.
\<close>

theorem getProfileValue_missing_counterexample:
  "showPath [Indexed ''personal'' 7, Key ''first_name''] = ''personal[7].first_name'' \<and>
   dataAt sampleProfile [Indexed ''personal'' 7, Key ''first_name''] = None \<and>
   resolveProfileValue sampleProfile [Indexed ''personal'' 7, Key ''first_name''] = None \<and>
   getProfileValue sampleRealm sampleProfile ''personal[7].first_name'' = Some (PString ''Ada'') \<and>
   dataAt sampleProfile [Key ''constructor'', Key ''name''] = None \<and>
   getProfileValue sampleRealm sampleProfile ''constructor.name'' = Some (PString ''Object'')"
  by code_simp

section \<open>Properties of page-state classification\<close>










section \<open>Properties of \<^verbatim>\<open>click_button\<close>\<close>

lemma answers_logged: "answers (logged i p) = answers p"
  by (simp add: answers_def faults_logged)

lemma clicksOf_logged:
  "clicksOf (logged i p) = clicksOf p @ (if isClick i then [i] else [])"
  by (simp add: clicksOf_def logged_def)

lemma answering_answers: "answers p \<Longrightarrow> answering i x p = (Inr x, logged i p)"
  by (simp add: answering_def answers_def)

lemma answering_logs: "\<exists>r. answering i x p = (r, logged i p)"
  by (simp add: answering_def)

lemma partialLoop_silent:
  "\<exists>r q'. partialLoop hs target q = (r, q') \<and> store q' = store q \<and> clicksOf q' = clicksOf q"
proof (induction hs arbitrary: q)
  case Nil
  then show ?case by (simp add: ret_def)
next
  case (Cons h hs)
  let ?q1 = "logged (TextContent h) q"
  have s1: "store ?q1 = store q" and c1: "clicksOf ?q1 = clicksOf q"
    by (simp_all add: store_logged clicksOf_logged)
  from answering_logs [of "TextContent h" "el_textContent (store q h)" q] obtain r1
    where a: "elTextContent h q = (r1, ?q1)"
    by (auto simp: elTextContent_def)
  show ?case
  proof (cases r1)
    case (Inl err)
    with a s1 c1 show ?thesis by (simp add: bnd_def)
  next
    case (Inr content)
    with a Cons.IH [of ?q1] s1 c1 show ?thesis by (auto simp: bnd_def ret_def)
  qed
qed

lemma partialLoop_result:
  assumes "answers q"
  shows "\<exists>q'. partialLoop hs target q =
             (Inr (find (\<lambda>h. textMatches target (el_textContent (store q h))) hs), q') \<and>
           store q' = store q \<and> faults q' = faults q \<and> clicksOf q' = clicksOf q"
  using assms
proof (induction hs arbitrary: q)
  case Nil
  then show ?case by (simp add: ret_def)
next
  case (Cons h hs)
  let ?q1 = "logged (TextContent h) q"
  have s1: "store ?q1 = store q" and f1: "faults ?q1 = faults q"
    and c1: "clicksOf ?q1 = clicksOf q" and a1: "answers ?q1"
    using Cons.prems by (simp_all add: store_logged faults_logged clicksOf_logged answers_logged)
  have a: "elTextContent h q = (Inr (el_textContent (store q h)), ?q1)"
    using Cons.prems by (simp add: elTextContent_def answering_answers)
  from Cons.IH [OF a1] a s1 f1 c1 show ?case
    by (auto simp: bnd_def ret_def)
qed

lemma pressFound_disabled:
  "faults q (Evaluate h) = None \<Longrightarrow> isDisabled (store q h) \<Longrightarrow>
   fst (pressFound h q) = Inr False \<and> clicksOf (snd (pressFound h q)) = clicksOf q"
  by (simp add: pressFound_def bnd_def ret_def elEvaluateEnabled_def answering_def clicksOf_logged)

lemma pressFound_enabled:
  "faults q (Evaluate h) = None \<Longrightarrow> \<not> isDisabled (store q h) \<Longrightarrow>
   fst (pressFound h q) = Inr (el_click (store q h) = None) \<and>
   clicksOf (snd (pressFound h q)) = clicksOf q @ [Click h]"
  by (cases "el_click (store q h)")
     (simp_all add: pressFound_def bnd_def ret_def catchE_def elEvaluateEnabled_def answering_def
        elClick_def pageWait_def clicksOf_logged store_logged)

lemma pressFound_rejected:
  "faults q (Evaluate h) = Some err \<Longrightarrow>
   fst (pressFound h q) = Inl err \<and> clicksOf (snd (pressFound h q)) = clicksOf q"
  by (simp add: pressFound_def bnd_def elEvaluateEnabled_def answering_def clicksOf_logged)

lemma pressFound_clicks:
  "clicksOf (snd (pressFound h q)) = clicksOf q \<or>
   (\<not> isDisabled (store q h) \<and> clicksOf (snd (pressFound h q)) = clicksOf q @ [Click h])"
proof (cases "faults q (Evaluate h)")
  case None
  with pressFound_disabled [of q h] pressFound_enabled [of q h] show ?thesis by blast
next
  case (Some err)
  with pressFound_rejected [of q h err] show ?thesis by blast
qed

lemma clickButton_rejected:
  assumes "resolve p (buttonTextSelector target) = Inl err"
  shows "fst (clickButton target p) = Inl err \<and> clicksOf (snd (clickButton target p)) = clicksOf p"
  using assms
  by (simp add: clickButton_def bnd_def queryButtonByText_def pageQuery_def clicksOf_logged)

lemma clickButton_found:
  assumes "resolve p (buttonTextSelector target) = Inr (Some h)"
  shows "clickButton target p = pressFound h (logged (Query (buttonTextSelector target)) p)"
  using assms
  by (simp add: clickButton_def bnd_def ret_def queryButtonByText_def pageQuery_def)

lemma clickButton_partial:
  assumes "answers p" and "resolve p (buttonTextSelector target) = Inr None"
  shows "\<exists>q. store q = store p \<and> faults q = faults p \<and> clicksOf q = clicksOf p \<and>
           clickButton target p =
             (case find (\<lambda>h. textMatches target (el_textContent (store p h)))
                     (filter (\<lambda>h. roleCandidate (store p h)) (dom p)) of
                Some h \<Rightarrow> pressFound h q
              | None \<Rightarrow> (Inr False, logged (QueryAll visibleButtonsSelector) q))"
proof -
  let ?p1 = "logged (Query (buttonTextSelector target)) p"
  let ?p2 = "logged (QueryAll allButtonsSelector) ?p1"
  let ?hs = "filter (\<lambda>h. roleCandidate (store p h)) (dom p)"
  have a1: "answers ?p1" and a2: "answers ?p2"
    using assms(1) by (simp_all add: answers_logged)
  have s2: "store ?p2 = store p" and f2: "faults ?p2 = faults p" and c2: "clicksOf ?p2 = clicksOf p"
    by (simp_all add: store_logged faults_logged clicksOf_logged)
  have first: "queryButtonByText target p = (Inr None, ?p1)"
    using assms(2) by (simp add: queryButtonByText_def pageQuery_def)
  have second: "queryAllButtons ?p1 = (Inr ?hs, ?p2)"
    using a1 by (simp add: queryAllButtons_def answering_answers store_logged dom_logged)
  from partialLoop_result [OF a2, of ?hs target] obtain q
    where run: "partialLoop ?hs target ?p2 =
        (Inr (find (\<lambda>h. textMatches target (el_textContent (store ?p2 h))) ?hs), q)"
      and sq: "store q = store ?p2" and fq: "faults q = faults ?p2"
      and cq: "clicksOf q = clicksOf ?p2"
    by blast
  have "clickButton target p =
      (case find (\<lambda>h. textMatches target (el_textContent (store p h))) ?hs of
         Some h \<Rightarrow> pressFound h q
       | None \<Rightarrow> (Inr False, logged (QueryAll visibleButtonsSelector) q))"
    using first second run s2
    by (simp add: clickButton_def bnd_def ret_def availableButtons_def split: option.splits)
  with sq fq cq s2 f2 c2 show ?thesis by auto
qed

lemma clickButton_clicks_enabled:
  "clicksOf (snd (clickButton target p)) = clicksOf p \<or>
   (\<exists>h. \<not> isDisabled (store p h) \<and> clicksOf (snd (clickButton target p)) = clicksOf p @ [Click h])"
proof -
  let ?p1 = "logged (Query (buttonTextSelector target)) p"
  have q1: "queryButtonByText target p = (resolve p (buttonTextSelector target), ?p1)"
    by (simp add: queryButtonByText_def pageQuery_def)
  have s1: "store ?p1 = store p" and c1: "clicksOf ?p1 = clicksOf p"
    by (simp_all add: store_logged clicksOf_logged)
  show ?thesis
  proof (cases "resolve p (buttonTextSelector target)")
    case (Inl err)
    with q1 c1 show ?thesis by (simp add: clickButton_def bnd_def)
  next
    case (Inr exact)
    show ?thesis
    proof (cases exact)
      case (Some h)
      with q1 Inr have "clickButton target p = pressFound h ?p1"
        by (simp add: clickButton_def bnd_def ret_def)
      with pressFound_clicks [of h ?p1] s1 c1 show ?thesis by auto
    next
      case None
      let ?p2 = "logged (QueryAll allButtonsSelector) ?p1"
      have s2: "store ?p2 = store p" and c2: "clicksOf ?p2 = clicksOf p"
        by (simp_all add: store_logged clicksOf_logged)
      from answering_logs [of "QueryAll allButtonsSelector"
          "filter (\<lambda>h. roleCandidate (store ?p1 h)) (dom ?p1)" ?p1]
      obtain r2 where q2: "queryAllButtons ?p1 = (r2, ?p2)"
        by (auto simp: queryAllButtons_def)
      show ?thesis
      proof (cases r2)
        case (Inl err)
        with q1 Inr \<open>exact = None\<close> q2 c2 show ?thesis
          by (simp add: clickButton_def bnd_def)
      next
        case (Inr hs)
        from partialLoop_silent [of hs target ?p2] obtain r q'
          where run: "partialLoop hs target ?p2 = (r, q')" and sq: "store q' = store ?p2"
            and cq: "clicksOf q' = clicksOf ?p2"
          by blast
        show ?thesis
        proof (cases r)
          case (Inl err)
          with q1 \<open>resolve p (buttonTextSelector target) = Inr exact\<close> \<open>exact = None\<close> q2
            \<open>r2 = Inr hs\<close> run cq c2
          show ?thesis by (simp add: clickButton_def bnd_def)
        next
          case (Inr found)
          show ?thesis
          proof (cases found)
            case None
            with q1 \<open>resolve p (buttonTextSelector target) = Inr exact\<close> \<open>exact = None\<close> q2
              \<open>r2 = Inr hs\<close> run Inr
            have "clickButton target p = (Inr False, logged (QueryAll visibleButtonsSelector) q')"
              by (simp add: clickButton_def bnd_def ret_def availableButtons_def)
            with cq c2 show ?thesis by (simp add: clicksOf_logged)
          next
            case (Some h)
            with q1 \<open>resolve p (buttonTextSelector target) = Inr exact\<close> \<open>exact = None\<close> q2
              \<open>r2 = Inr hs\<close> run Inr
            have "clickButton target p = pressFound h q'"
              by (simp add: clickButton_def bnd_def ret_def)
            with pressFound_clicks [of h q'] sq s2 cq c2 show ?thesis by auto
          qed
        qed
      qed
    qed
  qed
qed

lemma executeAction_click_button:
  assumes "a_type a = ''click_button''" and "a_target a = Some target" and "target \<noteq> []"
  shows "fst (executeAction p a) = (fst (clickButton target p) = Inr True) \<and>
         snd (executeAction p a) = snd (clickButton target p)"
  using assms
  by (cases "clickButton target p")
     (auto simp: executeAction_def executeBody_def attrOrEmpty_def split: sum.splits)

lemma executeAction_no_target:
  assumes "a_type a = ''click_button''" and "attrOrEmpty (a_target a) = []"
  shows "executeAction p a = (False, p)"
  using assms by (simp add: executeAction_def executeBody_def ret_def)

text \<open>The candidate of a click: the element the first query finds, or else the partial match.\<close>

lemma clickButton_candidate:
  assumes "answers p"
    and "resolve p (buttonTextSelector target) = Inr (Some h) \<or>
         (resolve p (buttonTextSelector target) = Inr None \<and>
          find (\<lambda>h. textMatches target (el_textContent (store p h)))
            (filter (\<lambda>h. roleCandidate (store p h)) (dom p)) = Some h)"
  shows "\<exists>q. store q = store p \<and> faults q = faults p \<and> clicksOf q = clicksOf p \<and>
           clickButton target p = pressFound h q"
  using assms(2)
proof
  assume r: "resolve p (buttonTextSelector target) = Inr (Some h)"
  let ?q = "logged (Query (buttonTextSelector target)) p"
  have "store ?q = store p" "faults ?q = faults p" "clicksOf ?q = clicksOf p"
    by (simp_all add: store_logged faults_logged clicksOf_logged)
  with clickButton_found [OF r] show ?thesis by blast
next
  assume r: "resolve p (buttonTextSelector target) = Inr None \<and>
     find (\<lambda>h. textMatches target (el_textContent (store p h)))
       (filter (\<lambda>h. roleCandidate (store p h)) (dom p)) = Some h"
  from clickButton_partial [OF assms(1) conjunct1 [OF r]] conjunct2 [OF r]
  show ?thesis by simp
qed

lemma clickButton_no_candidate:
  assumes "answers p" and "resolve p (buttonTextSelector target) = Inr None"
    and "find (\<lambda>h. textMatches target (el_textContent (store p h)))
           (filter (\<lambda>h. roleCandidate (store p h)) (dom p)) = None"
  shows "fst (clickButton target p) = Inr False \<and> clicksOf (snd (clickButton target p)) = clicksOf p"
  using clickButton_partial [OF assms(1,2)] assms(3)
  by (auto simp: clicksOf_logged)

lemma clickButton_disabled:
  assumes "answers p"
    and "resolve p (buttonTextSelector target) = Inr (Some h) \<or>
         (resolve p (buttonTextSelector target) = Inr None \<and>
          find (\<lambda>h. textMatches target (el_textContent (store p h)))
            (filter (\<lambda>h. roleCandidate (store p h)) (dom p)) = Some h)"
    and "isDisabled (store p h)"
  shows "fst (clickButton target p) = Inr False \<and> clicksOf (snd (clickButton target p)) = clicksOf p"
proof -
  from clickButton_candidate [OF assms(1,2)] obtain q
    where q: "store q = store p" "faults q = faults p" "clicksOf q = clicksOf p"
      "clickButton target p = pressFound h q"
    by blast
  from assms(1) q(2) have "faults q (Evaluate h) = None" by (simp add: answers_def)
  from pressFound_disabled [OF this] assms(3) q show ?thesis by simp
qed

lemma clickButton_enabled:
  assumes "answers p"
    and "resolve p (buttonTextSelector target) = Inr (Some h) \<or>
         (resolve p (buttonTextSelector target) = Inr None \<and>
          find (\<lambda>h. textMatches target (el_textContent (store p h)))
            (filter (\<lambda>h. roleCandidate (store p h)) (dom p)) = Some h)"
    and "\<not> isDisabled (store p h)"
  shows "fst (clickButton target p) = Inr (el_click (store p h) = None) \<and>
         clicksOf (snd (clickButton target p)) = clicksOf p @ [Click h]"
proof -
  from clickButton_candidate [OF assms(1,2)] obtain q
    where q: "store q = store p" "faults q = faults p" "clicksOf q = clicksOf p"
      "clickButton target p = pressFound h q"
    by blast
  from assms(1) q(2) have "faults q (Evaluate h) = None" by (simp add: answers_def)
  from pressFound_enabled [OF this] assms(3) q show ?thesis by simp
qed

text \<open>
  Claim C6, as the code has it. \<^verbatim>\<open>click_button\<close> looks for its target on the live page, not
  in the observation, which \<^verbatim>\<open>executeAction\<close> is not given. The candidate is the element the
  page finds for the text selector \<^verbatim>\<open>button:has-text("T"), a:has-text("T"),
  [role="button"]:has-text("T")\<close>, or else the first of the elements \<^verbatim>\<open>button\<close>,
  \<^verbatim>\<open>a[role="button"]\<close>, \<^verbatim>\<open>[role="button"]\<close> in document order whose text content contains
  the target, whatever the case. On a page whose calls answer: without a candidate the
  action fails and nothing is clicked (there is no retry on another element); a candidate
  that is disabled is not clicked and the action fails; an enabled candidate is the one
  element clicked, and the action succeeds when the click does. When the selector engine
  rejects the text selector the action fails and nothing is clicked. For any target and any
  page, at most one element is clicked and it is an enabled one. Without a target the action
  fails at once.
\<close>

theorem click_button_on_live_page:
  "a_type a = ''click_button'' \<longrightarrow>
     (attrOrEmpty (a_target a) = [] \<longrightarrow> executeAction p a = (False, p)) \<and>
     (a_target a = Some target \<and> target \<noteq> [] \<longrightarrow>
        (resolve p (buttonTextSelector target) = Inl err \<longrightarrow>
           fst (executeAction p a) = False \<and> clicksOf (snd (executeAction p a)) = clicksOf p) \<and>
        (answers p \<and> resolve p (buttonTextSelector target) = Inr None \<and>
         find (\<lambda>h. textMatches target (el_textContent (store p h)))
           (filter (\<lambda>h. roleCandidate (store p h)) (dom p)) = None \<longrightarrow>
           fst (executeAction p a) = False \<and> clicksOf (snd (executeAction p a)) = clicksOf p) \<and>
        (answers p \<and>
         (resolve p (buttonTextSelector target) = Inr (Some h) \<or>
          (resolve p (buttonTextSelector target) = Inr None \<and>
           find (\<lambda>h. textMatches target (el_textContent (store p h)))
             (filter (\<lambda>h. roleCandidate (store p h)) (dom p)) = Some h)) \<and>
         isDisabled (store p h) \<longrightarrow>
           fst (executeAction p a) = False \<and> clicksOf (snd (executeAction p a)) = clicksOf p) \<and>
        (answers p \<and>
         (resolve p (buttonTextSelector target) = Inr (Some h) \<or>
          (resolve p (buttonTextSelector target) = Inr None \<and>
           find (\<lambda>h. textMatches target (el_textContent (store p h)))
             (filter (\<lambda>h. roleCandidate (store p h)) (dom p)) = Some h)) \<and>
         \<not> isDisabled (store p h) \<longrightarrow>
           fst (executeAction p a) = (el_click (store p h) = None) \<and>
           clicksOf (snd (executeAction p a)) = clicksOf p @ [Click h]) \<and>
        (clicksOf (snd (executeAction p a)) = clicksOf p \<or>
         (\<exists>h'. \<not> isDisabled (store p h') \<and>
                clicksOf (snd (executeAction p a)) = clicksOf p @ [Click h'])))"
proof (intro impI conjI)
  assume "a_type a = ''click_button''" and "attrOrEmpty (a_target a) = []"
  then show "executeAction p a = (False, p)" by (rule executeAction_no_target)
next
  assume ty: "a_type a = ''click_button''" and tg: "a_target a = Some target \<and> target \<noteq> []"
  note ex = executeAction_click_button [OF ty conjunct1 [OF tg] conjunct2 [OF tg], of p]
  {
    assume "resolve p (buttonTextSelector target) = Inl err"
    from clickButton_rejected [OF this] ex
    show "fst (executeAction p a) = False" and "clicksOf (snd (executeAction p a)) = clicksOf p"
      by simp_all
  }
  {
    assume c: "answers p \<and> resolve p (buttonTextSelector target) = Inr None \<and>
      find (\<lambda>h. textMatches target (el_textContent (store p h)))
        (filter (\<lambda>h. roleCandidate (store p h)) (dom p)) = None"
    then have "answers p" "resolve p (buttonTextSelector target) = Inr None"
      "find (\<lambda>h. textMatches target (el_textContent (store p h)))
        (filter (\<lambda>h. roleCandidate (store p h)) (dom p)) = None"
      by blast+
    from clickButton_no_candidate [OF this] ex
    show "fst (executeAction p a) = False" and "clicksOf (snd (executeAction p a)) = clicksOf p"
      by simp_all
  }
  {
    assume c: "answers p \<and>
      (resolve p (buttonTextSelector target) = Inr (Some h) \<or>
       (resolve p (buttonTextSelector target) = Inr None \<and>
        find (\<lambda>h. textMatches target (el_textContent (store p h)))
          (filter (\<lambda>h. roleCandidate (store p h)) (dom p)) = Some h)) \<and>
      isDisabled (store p h)"
    from clickButton_disabled [OF conjunct1 [OF c] conjunct1 [OF conjunct2 [OF c]]
        conjunct2 [OF conjunct2 [OF c]]] ex
    show "fst (executeAction p a) = False" and "clicksOf (snd (executeAction p a)) = clicksOf p"
      by simp_all
  }
  {
    assume c: "answers p \<and>
      (resolve p (buttonTextSelector target) = Inr (Some h) \<or>
       (resolve p (buttonTextSelector target) = Inr None \<and>
        find (\<lambda>h. textMatches target (el_textContent (store p h)))
          (filter (\<lambda>h. roleCandidate (store p h)) (dom p)) = Some h)) \<and>
      \<not> isDisabled (store p h)"
    from clickButton_enabled [OF conjunct1 [OF c] conjunct1 [OF conjunct2 [OF c]]
        conjunct2 [OF conjunct2 [OF c]]] ex
    show "fst (executeAction p a) = (el_click (store p h) = None)"
      and "clicksOf (snd (executeAction p a)) = clicksOf p @ [Click h]"
      by simp_all
  }
  from clickButton_clicks_enabled [of target p] ex
  show "clicksOf (snd (executeAction p a)) = clicksOf p \<or>
      (\<exists>h'. \<not> isDisabled (store p h') \<and>
             clicksOf (snd (executeAction p a)) = clicksOf p @ [Click h'])"
    by simp
qed

theorem click_button_on_live_page_witness:
  "attrOrEmpty (a_target (clickAction [])) = [] \<and>
   executeAction agentFormPage (clickAction []) = (False, agentFormPage) \<and>
   resolve rejectingPage (buttonTextSelector ''next'') =
     Inl ''Error: Unexpected token while parsing selector'' \<and>
   fst (executeAction rejectingPage (clickAction ''next'')) = False \<and>
   clicksOf (snd (executeAction rejectingPage (clickAction ''next''))) = clicksOf rejectingPage \<and>
   answers agentFormPage \<and>
   resolve agentFormPage (buttonTextSelector ''Upload'') = Inr None \<and>
   fst (executeAction agentFormPage (clickAction ''Upload'')) = False \<and>
   clicksOf (snd (executeAction agentFormPage (clickAction ''Upload''))) = clicksOf agentFormPage \<and>
   resolve agentFormPage (buttonTextSelector ''submit'') = Inr (Some 2) \<and>
   isDisabled (store agentFormPage 2) \<and>
   fst (executeAction agentFormPage (clickAction ''submit'')) = False \<and>
   clicksOf (snd (executeAction agentFormPage (clickAction ''submit''))) = clicksOf agentFormPage \<and>
   resolve agentFormPage (buttonTextSelector ''next'') = Inr (Some 0) \<and>
   fst (executeAction agentFormPage (clickAction ''next'')) = True \<and>
   clicksOf (snd (executeAction agentFormPage (clickAction ''next''))) =
     clicksOf agentFormPage @ [Click 0] \<and>
   answers unansweredPage \<and>
   resolve unansweredPage (buttonTextSelector ''next'') = Inr None \<and>
   fst (executeAction unansweredPage (clickAction ''next'')) = True \<and>
   clicksOf (snd (executeAction unansweredPage (clickAction ''next''))) =
     clicksOf unansweredPage @ [Click 0]"
proof -
  have ty: "a_type (clickAction t) = ''click_button''" for t
    by (simp add: clickAction_def)
  have tg: "a_target (clickAction t) = Some t" for t
    by (simp add: clickAction_def)
  have nonempty: "''submit'' \<noteq> []" "''Upload'' \<noteq> []" "''next'' \<noteq> []"
    by simp_all
  have empty: "attrOrEmpty (a_target (clickAction [])) = []"
    by (simp add: clickAction_def attrOrEmpty_def)
  have ans: "answers agentFormPage"
    by (simp add: answers_def agentFormPage_def)
  have ans': "answers unansweredPage"
    by (simp add: answers_def unansweredPage_def agentFormPage_def)
  have rej: "resolve rejectingPage (buttonTextSelector ''next'') =
      Inl ''Error: Unexpected token while parsing selector''"
    by (simp add: rejectingPage_def)
  have r1: "resolve agentFormPage (buttonTextSelector ''submit'') = Inr (Some 2)"
    by code_simp
  have d1: "isDisabled (store agentFormPage 2)" by code_simp
  have r2: "resolve agentFormPage (buttonTextSelector ''Upload'') = Inr None"
    by code_simp
  have f2: "find (\<lambda>h. textMatches ''Upload'' (el_textContent (store agentFormPage h)))
      (filter (\<lambda>h. roleCandidate (store agentFormPage h)) (dom agentFormPage)) = None"
    by code_simp
  have r3: "resolve agentFormPage (buttonTextSelector ''next'') = Inr (Some 0)"
    by code_simp
  have d3: "\<not> isDisabled (store agentFormPage 0)" by code_simp
  have k3: "el_click (store agentFormPage 0) = None" by code_simp
  have r4: "resolve unansweredPage (buttonTextSelector ''next'') = Inr None"
    by (simp add: unansweredPage_def)
  have f4: "find (\<lambda>h. textMatches ''next'' (el_textContent (store unansweredPage h)))
      (filter (\<lambda>h. roleCandidate (store unansweredPage h)) (dom unansweredPage)) = Some 0"
    by code_simp
  have d4: "\<not> isDisabled (store unansweredPage 0)" by code_simp
  have k4: "el_click (store unansweredPage 0) = None" by code_simp
  note untargeted = click_button_on_live_page
    [where a = "clickAction []" and p = agentFormPage, THEN mp, OF ty, THEN conjunct1,
     THEN mp, OF empty]
  note rejected = click_button_on_live_page
    [where a = "clickAction ''next''" and target = "''next''" and p = rejectingPage
       and err = "''Error: Unexpected token while parsing selector''",
     THEN mp, OF ty, THEN conjunct2, THEN mp, OF conjI [OF tg nonempty(3)],
     THEN conjunct1, THEN mp, OF rej]
  note noCandidate = click_button_on_live_page
    [where a = "clickAction ''Upload''" and target = "''Upload''" and p = agentFormPage,
     THEN mp, OF ty, THEN conjunct2, THEN mp, OF conjI [OF tg nonempty(2)],
     THEN conjunct2, THEN conjunct1, THEN mp, OF conjI [OF ans conjI [OF r2 f2]]]
  note disabled = click_button_on_live_page
    [where a = "clickAction ''submit''" and target = "''submit''" and p = agentFormPage
       and h = 2,
     THEN mp, OF ty, THEN conjunct2, THEN mp, OF conjI [OF tg nonempty(1)],
     THEN conjunct2, THEN conjunct2, THEN conjunct1, THEN mp,
     OF conjI [OF ans conjI [OF disjI1 [OF r1] d1]]]
  note enabled = click_button_on_live_page
    [where a = "clickAction ''next''" and target = "''next''" and p = agentFormPage and h = 0,
     THEN mp, OF ty, THEN conjunct2, THEN mp, OF conjI [OF tg nonempty(3)],
     THEN conjunct2, THEN conjunct2, THEN conjunct2, THEN conjunct1, THEN mp,
     OF conjI [OF ans conjI [OF disjI1 [OF r3] d3]], unfolded k3]
  note partial = click_button_on_live_page
    [where a = "clickAction ''next''" and target = "''next''" and p = unansweredPage and h = 0,
     THEN mp, OF ty, THEN conjunct2, THEN mp, OF conjI [OF tg nonempty(3)],
     THEN conjunct2, THEN conjunct2, THEN conjunct2, THEN conjunct1, THEN mp,
     OF conjI [OF ans' conjI [OF disjI2 [OF conjI [OF r4 f4]] d4]], unfolded k4]
  from enabled have e: "fst (executeAction agentFormPage (clickAction ''next'')) = True"
    "clicksOf (snd (executeAction agentFormPage (clickAction ''next''))) =
       clicksOf agentFormPage @ [Click 0]"
    by simp_all
  from partial have p: "fst (executeAction unansweredPage (clickAction ''next'')) = True"
    "clicksOf (snd (executeAction unansweredPage (clickAction ''next''))) =
       clicksOf unansweredPage @ [Click 0]"
    by simp_all
  show ?thesis
    by (intro conjI empty untargeted rej rejected [THEN conjunct1] rejected [THEN conjunct2]
        ans r2 noCandidate [THEN conjunct1] noCandidate [THEN conjunct2] r1 d1
        disabled [THEN conjunct1] disabled [THEN conjunct2] r3 e ans' r4 p)
qed

text \<open>
  Claim C6 as stated fails. The observation of the example page offers the one button
  \<^verbatim>\<open>Next\<close>, which the target \<^verbatim>\<open>Add\<close> does not match; the action still succeeds, by clicking
  the plain link, an element that is not among the observed buttons.
\<close>

theorem click_button_counterexample:
  "map ob_text (observedButtons agentFormPage) = [''Next''] \<and>
   observedHandles agentFormPage = [0] \<and>
   strIncludes (toLowerCase ''Next'') (toLowerCase ''Add'') = False \<and>
   el_textContent (store agentFormPage 1) = ''Add to saved jobs'' \<and>
   resolve agentFormPage (buttonTextSelector ''Add'') = Inr (Some 1) \<and>
   fst (executeAction agentFormPage (clickAction ''Add'')) = True \<and>
   clicksOf (snd (executeAction agentFormPage (clickAction ''Add''))) = [Click 1]"
  by code_simp

section \<open>Properties of the agent loop\<close>












end
